(* ===== verification/Net_Prelude.thy ===== *)
theory Net_Prelude
  imports Main "HOL-Library.Word"
begin

unbundle bit_operations_syntax

text \<open>
  The prelude: what every component shares. It models the part of the Rust language and
  standard library the sources use: fallible results and panics, byte slices, big-endian and
  native-endian integers, \<^verbatim>\<open>NonZeroU16\<close>, instants and durations. The collections
  \<open>codec_simps\<close>, \<open>slice_simps\<close> and \<open>res_simps\<close> carry the component proofs.
\<close>

named_theorems codec_simps \<open>facts that evaluate encoders and decoders\<close>
named_theorems slice_simps \<open>facts about byte slices\<close>
named_theorems res_simps \<open>facts about results and panics\<close>

section \<open>Machine integers, bytes, results\<close>

type_synonym u8 = "8 word"
type_synonym u16 = "16 word"
type_synonym u32 = "32 word"
type_synonym bytes = "u8 list"

text \<open>
  A Rust function that returns \<^verbatim>\<open>Result<T, E>\<close> and may panic: a value, an error, or a
  panic (an out-of-range slice, a failed \<^verbatim>\<open>expect\<close>).
\<close>

datatype ('a, 'e) res = Ok 'a | Err 'e | Panic

primrec bind_res :: "('a, 'e) res \<Rightarrow> ('a \<Rightarrow> ('b, 'e) res) \<Rightarrow> ('b, 'e) res" where
  "bind_res (Ok a) f = f a"
| "bind_res (Err e) f = Err e"
| "bind_res Panic f = Panic"

primrec map_res :: "('a \<Rightarrow> 'b) \<Rightarrow> ('a, 'e) res \<Rightarrow> ('b, 'e) res" where
  "map_res f (Ok a) = Ok (f a)"
| "map_res f (Err e) = Err e"
| "map_res f Panic = Panic"

primrec map_err :: "('e \<Rightarrow> 'f) \<Rightarrow> ('a, 'e) res \<Rightarrow> ('a, 'f) res" where
  "map_err f (Ok a) = Ok a"
| "map_err f (Err e) = Err (f e)"
| "map_err f Panic = Panic"

text \<open>\<^verbatim>\<open>opt.ok_or(e)\<close> and \<^verbatim>\<open>opt.expect(...)\<close>.\<close>

definition ok_or :: "'a option \<Rightarrow> 'e \<Rightarrow> ('a, 'e) res" where
  "ok_or x e = (case x of Some a \<Rightarrow> Ok a | None \<Rightarrow> Err e)"

definition expect :: "'a option \<Rightarrow> ('a, 'e) res" where
  "expect x = (case x of Some a \<Rightarrow> Ok a | None \<Rightarrow> Panic)"

text \<open>\<^verbatim>\<open>ensure!(cond, err)\<close>: return the error unless the condition holds.\<close>

definition ensure :: "bool \<Rightarrow> 'e \<Rightarrow> (unit, 'e) res" where
  "ensure b e = (if b then Ok () else Err e)"

primrec is_ok :: "('a, 'e) res \<Rightarrow> bool" where
  "is_ok (Ok a) = True"
| "is_ok (Err e) = False"
| "is_ok Panic = False"

lemma is_ok_iff: "is_ok r \<longleftrightarrow> (\<exists>a. r = Ok a)"
  by (cases r) auto

lemma bind_res_eq_Ok [res_simps]:
  "bind_res r f = Ok b \<longleftrightarrow> (\<exists>a. r = Ok a \<and> f a = Ok b)"
  by (cases r) auto

lemma bind_res_eq_Panic [res_simps]:
  "bind_res r f = Panic \<longleftrightarrow> r = Panic \<or> (\<exists>a. r = Ok a \<and> f a = Panic)"
  by (cases r) auto

lemma bind_res_eq_Err [res_simps]:
  "bind_res r f = Err e \<longleftrightarrow> r = Err e \<or> (\<exists>a. r = Ok a \<and> f a = Err e)"
  by (cases r) auto

lemma ok_or_eq [res_simps]:
  "ok_or x e = Ok a \<longleftrightarrow> x = Some a"
  "ok_or x e = Err e' \<longleftrightarrow> x = None \<and> e' = e"
  "ok_or x e \<noteq> Panic"
  by (auto simp: ok_or_def split: option.splits)

lemma expect_eq [res_simps]:
  "expect x = Ok a \<longleftrightarrow> x = Some a"
  "expect x = Panic \<longleftrightarrow> x = None"
  "expect x \<noteq> Err e"
  by (auto simp: expect_def split: option.splits)

lemma ensure_eq [res_simps]:
  "ensure b e = Ok u \<longleftrightarrow> b"
  "ensure b e = Err e' \<longleftrightarrow> \<not> b \<and> e' = e"
  "ensure b e \<noteq> Panic"
  by (auto simp: ensure_def)

lemma map_err_eq [res_simps]:
  "map_err f r = Ok a \<longleftrightarrow> r = Ok a"
  "map_err f r = Panic \<longleftrightarrow> r = Panic"
  "map_err f r = Err e \<longleftrightarrow> (\<exists>e'. r = Err e' \<and> e = f e')"
  by (cases r; auto)+

lemma map_res_eq [res_simps]:
  "map_res f r = Ok b \<longleftrightarrow> (\<exists>a. r = Ok a \<and> b = f a)"
  "map_res f r = Panic \<longleftrightarrow> r = Panic"
  "map_res f r = Err e \<longleftrightarrow> r = Err e"
  by (cases r; auto)+

section \<open>Slices\<close>

text \<open>
  \<^verbatim>\<open>buf[i]\<close> and \<^verbatim>\<open>&buf[a..b]\<close> panic out of range;
  \<^verbatim>\<open>buf.get(a..b)\<close> returns \<open>None\<close> instead.
\<close>

definition idx :: "'a list \<Rightarrow> nat \<Rightarrow> ('a, 'e) res" where
  "idx xs i = (if i < length xs then Ok (xs ! i) else Panic)"

definition get_range :: "nat \<Rightarrow> nat \<Rightarrow> 'a list \<Rightarrow> 'a list option" where
  "get_range a b xs = (if a \<le> b \<and> b \<le> length xs then Some (take (b - a) (drop a xs)) else None)"

definition slice :: "nat \<Rightarrow> nat \<Rightarrow> 'a list \<Rightarrow> ('a list, 'e) res" where
  "slice a b xs = expect (get_range a b xs)"

text \<open>\<^verbatim>\<open>&buf[a..]\<close> and \<^verbatim>\<open>&buf[..b]\<close>.\<close>

definition slice_from :: "nat \<Rightarrow> 'a list \<Rightarrow> ('a list, 'e) res" where
  "slice_from a xs = slice a (length xs) xs"

definition slice_to :: "nat \<Rightarrow> 'a list \<Rightarrow> ('a list, 'e) res" where
  "slice_to b xs = slice 0 b xs"

lemma idx_in [slice_simps]: "i < length xs \<Longrightarrow> idx xs i = Ok (xs ! i)"
  by (simp add: idx_def)

lemma idx_eq [res_simps]:
  "idx xs i = Ok x \<longleftrightarrow> i < length xs \<and> x = xs ! i"
  "idx xs i = Panic \<longleftrightarrow> length xs \<le> i"
  "idx xs i \<noteq> Err e"
  by (auto simp: idx_def)

lemma slice_in [slice_simps]:
  "a \<le> b \<Longrightarrow> b \<le> length xs \<Longrightarrow> slice a b xs = Ok (take (b - a) (drop a xs))"
  by (simp add: slice_def get_range_def expect_def)

lemma slice_from_in [slice_simps]: "a \<le> length xs \<Longrightarrow> slice_from a xs = Ok (drop a xs)"
  by (simp add: slice_from_def slice_in)

lemma slice_to_in [slice_simps]: "b \<le> length xs \<Longrightarrow> slice_to b xs = Ok (take b xs)"
  by (simp add: slice_to_def slice_in)

lemma slice_never_Err [res_simps]:
  "slice a b xs \<noteq> Err e" "slice_from a xs \<noteq> Err e" "slice_to b xs \<noteq> Err e"
  by (simp_all add: slice_def slice_from_def slice_to_def res_simps)

lemma slice_eq_Panic [res_simps]:
  "slice a b xs = Panic \<longleftrightarrow> \<not> (a \<le> b \<and> b \<le> length xs)"
  "slice_from a xs = Panic \<longleftrightarrow> length xs < a"
  "slice_to b xs = Panic \<longleftrightarrow> length xs < b"
  by (auto simp: slice_def slice_from_def slice_to_def get_range_def expect_def split: option.splits)

lemma slice_eq_Ok [res_simps]:
  "slice a b xs = Ok ys \<longleftrightarrow> a \<le> b \<and> b \<le> length xs \<and> ys = take (b - a) (drop a xs)"
  "slice_from a xs = Ok ys \<longleftrightarrow> a \<le> length xs \<and> ys = drop a xs"
  "slice_to b xs = Ok ys \<longleftrightarrow> b \<le> length xs \<and> ys = take b xs"
  by (auto simp: slice_def slice_from_def slice_to_def get_range_def expect_def)

text \<open>A slice of \<open>n\<close> elements starting at \<open>a\<close> in bounds lists them one by one.\<close>

lemma take_drop_nth:
  assumes "a + n \<le> length xs"
  shows "take n (drop a xs) = map (\<lambda>i. xs ! (a + i)) [0..<n]"
  by (rule nth_equalityI) (use assms in auto)

section \<open>Integers as bytes\<close>

definition u16_to_be_bytes :: "u16 \<Rightarrow> bytes" where
  "u16_to_be_bytes w = [ucast (drop_bit 8 w), ucast w]"

definition u16_from_be :: "u8 \<Rightarrow> u8 \<Rightarrow> u16" where
  "u16_from_be a b = push_bit 8 (ucast a) OR ucast b"

definition u32_to_be_bytes :: "u32 \<Rightarrow> bytes" where
  "u32_to_be_bytes w =
     [ucast (drop_bit 24 w), ucast (drop_bit 16 w), ucast (drop_bit 8 w), ucast w]"

definition u32_from_be :: "u8 \<Rightarrow> u8 \<Rightarrow> u8 \<Rightarrow> u8 \<Rightarrow> u32" where
  "u32_from_be a b c d =
     push_bit 24 (ucast a) OR push_bit 16 (ucast b) OR push_bit 8 (ucast c) OR ucast d"

text \<open>\<^verbatim>\<open>u16::from_be_bytes(s.try_into().expect(...))\<close>: the slice must hold two bytes.\<close>

definition u16_from_be_bytes :: "bytes \<Rightarrow> (u16, 'e) res" where
  "u16_from_be_bytes s = (if length s = 2 then Ok (u16_from_be (s ! 0) (s ! 1)) else Panic)"

definition u32_from_be_bytes :: "bytes \<Rightarrow> (u32, 'e) res" where
  "u32_from_be_bytes s =
     (if length s = 4 then Ok (u32_from_be (s ! 0) (s ! 1) (s ! 2) (s ! 3)) else Panic)"

lemmas to_be_bytes_def = u16_to_be_bytes_def u32_to_be_bytes_def

lemma length_u16_to_be_bytes [simp]: "length (u16_to_be_bytes w) = 2"
  by (simp add: u16_to_be_bytes_def)

lemma length_u32_to_be_bytes [simp]: "length (u32_to_be_bytes w) = 4"
  by (simp add: u32_to_be_bytes_def)

lemma u8_high_bits:
  fixes a :: u8
  shows "\<not> bit a (8 + n)" "\<not> bit a (16 + n)" "\<not> bit a (24 + n)"
  by (auto dest: bit_imp_le_length)

text \<open>An octet with its top bit set and the rest of it determine each other; both protocols mark
  a response with the top bit of the opcode octet.\<close>

lemma indicator_split:
  fixes b c :: u8
  shows "b AND push_bit 7 1 = push_bit 7 1 \<and> b AND NOT (push_bit 7 1) = c
     \<longleftrightarrow> b = push_bit 7 1 OR c \<and> c AND push_bit 7 1 = 0"
  by (auto simp: bit_eq_iff bit_simps)

lemma u16_from_to_be [codec_simps]:
  "u16_from_be (ucast (drop_bit 8 w)) (ucast w) = w"
  unfolding u16_from_be_def
  by (rule bit_word_eqI) (auto simp: bit_simps)

lemma u16_to_from_be [codec_simps]: "u16_to_be_bytes (u16_from_be a b) = [a, b]"
  unfolding u16_to_be_bytes_def u16_from_be_def
  by (auto intro!: bit_word_eqI simp: bit_simps u8_high_bits)

lemma u16_from_be_zero [codec_simps]: "u16_from_be 0 0 = 0"
  by (simp add: u16_from_be_def)

lemma u16_from_be_eq: "u16_from_be a b = w \<longleftrightarrow> u16_to_be_bytes w = [a, b]"
  using u16_to_from_be [of a b] u16_from_to_be [of w] by (auto simp: u16_to_be_bytes_def)

lemma u32_from_to_be [codec_simps]:
  "u32_from_be (ucast (drop_bit 24 w)) (ucast (drop_bit 16 w)) (ucast (drop_bit 8 w)) (ucast w) = w"
proof (rule bit_word_eqI)
  fix n assume "n < LENGTH(32)"
  then consider "n < 8" | "8 \<le> n" "n < 16" | "16 \<le> n" "n < 24" | "24 \<le> n" "n < 32"
    by fastforce
  then show "bit (u32_from_be (ucast (drop_bit 24 w)) (ucast (drop_bit 16 w))
               (ucast (drop_bit 8 w)) (ucast w)) n = bit w n"
    by cases (auto simp: u32_from_be_def bit_simps)
qed

lemma u32_to_from_be [codec_simps]: "u32_to_be_bytes (u32_from_be a b c d) = [a, b, c, d]"
  unfolding u32_to_be_bytes_def u32_from_be_def
  by (auto intro!: bit_word_eqI simp: bit_simps u8_high_bits)

lemma u32_from_be_eq: "u32_from_be a b c d = w \<longleftrightarrow> u32_to_be_bytes w = [a, b, c, d]"
  using u32_to_from_be [of a b c d] u32_from_to_be [of w] by (auto simp: u32_to_be_bytes_def)

lemmas from_be_eq = u16_from_be_eq u32_from_be_eq

lemma u16_from_be_bytes_to [codec_simps]: "u16_from_be_bytes (u16_to_be_bytes w) = Ok w"
  by (simp add: u16_from_be_bytes_def u16_to_be_bytes_def codec_simps)

lemma u32_from_be_bytes_to [codec_simps]: "u32_from_be_bytes (u32_to_be_bytes w) = Ok w"
  by (simp add: u32_from_be_bytes_def u32_to_be_bytes_def codec_simps)

text \<open>Reads of an integer at an offset, \<^verbatim>\<open>buf[a..a + 2]\<close> converted as above.\<close>

definition read_u16_be :: "nat \<Rightarrow> bytes \<Rightarrow> (u16, 'e) res" where
  "read_u16_be a buf = bind_res (slice a (a + 2) buf) u16_from_be_bytes"

definition read_u32_be :: "nat \<Rightarrow> bytes \<Rightarrow> (u32, 'e) res" where
  "read_u32_be a buf = bind_res (slice a (a + 4) buf) u32_from_be_bytes"

lemma read_u16_be_in [slice_simps]:
  "a + 2 \<le> length buf \<Longrightarrow> read_u16_be a buf = Ok (u16_from_be (buf ! a) (buf ! (a + 1)))"
  by (simp add: read_u16_be_def slice_in u16_from_be_bytes_def)

lemma read_u32_be_in [slice_simps]:
  "a + 4 \<le> length buf \<Longrightarrow> read_u32_be a buf =
     Ok (u32_from_be (buf ! a) (buf ! (a + 1)) (buf ! (a + 2)) (buf ! (a + 3)))"
  by (simp add: read_u32_be_def slice_in u32_from_be_bytes_def)

lemma read_be_eq [res_simps]:
  "read_u16_be a buf = Panic \<longleftrightarrow> length buf < a + 2"
  "read_u32_be a buf = Panic \<longleftrightarrow> length buf < a + 4"
  "read_u16_be a buf \<noteq> Err e" "read_u32_be a buf \<noteq> Err e"
  by (cases "a + 2 \<le> length buf"; cases "a + 4 \<le> length buf";
      auto simp: read_u16_be_def read_u32_be_def slice_in u16_from_be_bytes_def
        u32_from_be_bytes_def res_simps)+

section \<open>NonZeroU16\<close>

typedef nzu16 = "{w :: u16. w \<noteq> 0}"
  morphisms nz_get Abs_nzu16
  by (rule exI [of _ 1]) simp

setup_lifting type_definition_nzu16

text \<open>\<^verbatim>\<open>u16.try_into()\<close>: a port number from the wire is a \<^verbatim>\<open>NonZeroU16\<close> unless zero.\<close>

definition nz_try_from :: "u16 \<Rightarrow> nzu16 option" where
  "nz_try_from w = (if w = 0 then None else Some (Abs_nzu16 w))"

lemma nz_get_nonzero [simp]: "nz_get p \<noteq> 0"
  using nz_get [of p] by simp

lemma nz_get_Abs [simp]: "w \<noteq> 0 \<Longrightarrow> nz_get (Abs_nzu16 w) = w"
  by (simp add: Abs_nzu16_inverse)

lemma nz_try_from_None [simp]: "nz_try_from w = None \<longleftrightarrow> w = 0"
  by (simp add: nz_try_from_def)

lemma nz_try_from_Some: "nz_try_from w = Some p \<longleftrightarrow> nz_get p = w"
  by (auto simp: nz_try_from_def nz_get_inverse)

lemma nz_try_from_get [simp]: "nz_try_from (nz_get p) = Some p"
  by (simp add: nz_try_from_Some)

section \<open>Time\<close>

text \<open>
  A monotonic \<^verbatim>\<open>Instant\<close> and a \<^verbatim>\<open>Duration\<close> are nanosecond counts; instants count from
  the earliest instant the platform represents, so \<^verbatim>\<open>Instant::checked_sub\<close> fails below it.
\<close>

type_synonym instant = nat
type_synonym duration = nat

definition from_secs :: "nat \<Rightarrow> duration" where
  "from_secs s = s * 1000000000"

definition from_millis :: "nat \<Rightarrow> duration" where
  "from_millis ms = ms * 1000000"

definition instant_checked_sub :: "instant \<Rightarrow> duration \<Rightarrow> instant option" where
  "instant_checked_sub t d = (if d \<le> t then Some (t - d) else None)"

end
