(* ===== verification/Ip_Addr.thy ===== *)
theory Ip_Addr
  imports Net_Prelude "HOL-Library.List_Lexorder"
begin

text \<open>
  IP addresses: the operations of \<^verbatim>\<open>std::net\<close> the sources call, the address predicates of
  \<^verbatim>\<open>netwatch/src/ip.rs\<close> and the address families of \<^verbatim>\<open>netwatch/src/ip_family.rs\<close>.
  The predicates are shown to be the CIDR blocks their comments name.
\<close>

section \<open>Addresses of the standard library\<close>

text \<open>An IPv4 address is its four octets, an IPv6 address its eight segments.\<close>

datatype ipv4 = Ipv4 u8 u8 u8 u8

datatype ipv6 = Ipv6 u16 u16 u16 u16 u16 u16 u16 u16

datatype ip_addr = V4 ipv4 | V6 ipv6

primrec octets4 :: "ipv4 \<Rightarrow> bytes" where
  "octets4 (Ipv4 a b c d) = [a, b, c, d]"

primrec segments :: "ipv6 \<Rightarrow> u16 list" where
  "segments (Ipv6 a b c d e f g h) = [a, b, c, d, e, f, g, h]"

definition octets6 :: "ipv6 \<Rightarrow> bytes" where
  "octets6 ip = concat (map u16_to_be_bytes (segments ip))"

text \<open>\<^verbatim>\<open>Ipv4Addr::from([u8; 4])\<close> and \<^verbatim>\<open>Ipv6Addr::from([u8; 16])\<close>; the
  callers convert a slice of that length first, and panic otherwise.\<close>

definition ipv4_from_octets :: "bytes \<Rightarrow> (ipv4, 'e) res" where
  "ipv4_from_octets s =
     (if length s = 4 then Ok (Ipv4 (s ! 0) (s ! 1) (s ! 2) (s ! 3)) else Panic)"

definition ipv6_from_octets :: "bytes \<Rightarrow> (ipv6, 'e) res" where
  "ipv6_from_octets s =
     (if length s = 16
      then Ok (Ipv6 (u16_from_be (s ! 0) (s ! 1)) (u16_from_be (s ! 2) (s ! 3))
                    (u16_from_be (s ! 4) (s ! 5)) (u16_from_be (s ! 6) (s ! 7))
                    (u16_from_be (s ! 8) (s ! 9)) (u16_from_be (s ! 10) (s ! 11))
                    (u16_from_be (s ! 12) (s ! 13)) (u16_from_be (s ! 14) (s ! 15)))
      else Panic)"

definition ipv4_unspecified :: ipv4 where "ipv4_unspecified = Ipv4 0 0 0 0"
definition ipv4_localhost :: ipv4 where "ipv4_localhost = Ipv4 127 0 0 1"
definition ipv6_unspecified :: ipv6 where "ipv6_unspecified = Ipv6 0 0 0 0 0 0 0 0"
definition ipv6_localhost :: ipv6 where "ipv6_localhost = Ipv6 0 0 0 0 0 0 0 1"

primrec to_ipv6_mapped :: "ipv4 \<Rightarrow> ipv6" where
  "to_ipv6_mapped (Ipv4 a b c d) =
     Ipv6 0 0 0 0 0 0xffff (u16_from_be a b) (u16_from_be c d)"

primrec to_ipv4_mapped :: "ipv6 \<Rightarrow> ipv4 option" where
  "to_ipv4_mapped (Ipv6 s0 s1 s2 s3 s4 s5 s6 s7) =
     (if s0 = 0 \<and> s1 = 0 \<and> s2 = 0 \<and> s3 = 0 \<and> s4 = 0 \<and> s5 = 0xffff
      then Some (Ipv4 (ucast (drop_bit 8 s6)) (ucast s6) (ucast (drop_bit 8 s7)) (ucast s7))
      else None)"

definition ipv4_is_unspecified :: "ipv4 \<Rightarrow> bool" where
  "ipv4_is_unspecified ip \<longleftrightarrow> ip = ipv4_unspecified"

definition ipv4_is_loopback :: "ipv4 \<Rightarrow> bool" where
  "ipv4_is_loopback ip \<longleftrightarrow> octets4 ip ! 0 = 127"

definition ipv4_is_multicast :: "ipv4 \<Rightarrow> bool" where
  "ipv4_is_multicast ip \<longleftrightarrow> 224 \<le> octets4 ip ! 0 \<and> octets4 ip ! 0 \<le> 239"

definition ipv4_is_link_local :: "ipv4 \<Rightarrow> bool" where
  "ipv4_is_link_local ip \<longleftrightarrow> octets4 ip ! 0 = 169 \<and> octets4 ip ! 1 = 254"

definition ipv6_is_loopback :: "ipv6 \<Rightarrow> bool" where
  "ipv6_is_loopback ip \<longleftrightarrow> ip = ipv6_localhost"

definition ipv6_is_multicast :: "ipv6 \<Rightarrow> bool" where
  "ipv6_is_multicast ip \<longleftrightarrow> segments ip ! 0 AND 0xff00 = 0xff00"

primrec is_loopback :: "ip_addr \<Rightarrow> bool" where
  "is_loopback (V4 ip) = ipv4_is_loopback ip"
| "is_loopback (V6 ip) = ipv6_is_loopback ip"

primrec is_multicast :: "ip_addr \<Rightarrow> bool" where
  "is_multicast (V4 ip) = ipv4_is_multicast ip"
| "is_multicast (V6 ip) = ipv6_is_multicast ip"

primrec is_ipv4 :: "ip_addr \<Rightarrow> bool" where
  "is_ipv4 (V4 ip) = True"
| "is_ipv4 (V6 ip) = False"

abbreviation is_ipv6 :: "ip_addr \<Rightarrow> bool" where
  "is_ipv6 ip \<equiv> \<not> is_ipv4 ip"

text \<open>\<^verbatim>\<open>IpAddr::to_canonical\<close>: an IPv4-mapped IPv6 address becomes the IPv4 address.\<close>

primrec to_canonical :: "ip_addr \<Rightarrow> ip_addr" where
  "to_canonical (V4 ip) = V4 ip"
| "to_canonical (V6 ip) = (case to_ipv4_mapped ip of Some v4 \<Rightarrow> V4 v4 | None \<Rightarrow> V6 ip)"

section \<open>ip.rs\<close>

record local_addresses =
  la_loopback :: "ip_addr list"
  la_regular :: "ip_addr list"

definition local_addresses_default :: local_addresses where
  "local_addresses_default = \<lparr>la_loopback = [], la_regular = []\<rparr>"

definition is_private_v6 :: "ipv6 \<Rightarrow> bool" where
  "is_private_v6 ip \<longleftrightarrow> octets6 ip ! 0 AND 0xfe = 0xfc"

primrec is_private :: "ip_addr \<Rightarrow> bool" where
  "is_private (V4 ip) =
     (let octets = octets4 ip
      in octets ! 0 = 10
         \<or> (octets ! 0 = 172 \<and> octets ! 1 AND 0xf0 = 16)
         \<or> (octets ! 0 = 192 \<and> octets ! 1 = 168))"
| "is_private (V6 ip) = is_private_v6 ip"

definition is_unicast_link_local :: "ipv6 \<Rightarrow> bool" where
  "is_unicast_link_local ip \<longleftrightarrow> segments ip ! 0 AND 0xffc0 = 0xfe80"

primrec is_link_local :: "ip_addr \<Rightarrow> bool" where
  "is_link_local (V4 ip) = ipv4_is_link_local ip"
| "is_link_local (V6 ip) = is_unicast_link_local ip"

section \<open>ip\_family.rs\<close>

datatype ip_family = FamV4 | FamV6

primrec family_of :: "ip_addr \<Rightarrow> ip_family" where
  "family_of (V4 ip) = FamV4"
| "family_of (V6 ip) = FamV6"

primrec unspecified_addr :: "ip_family \<Rightarrow> ip_addr" where
  "unspecified_addr FamV4 = V4 ipv4_unspecified"
| "unspecified_addr FamV6 = V6 ipv6_unspecified"

primrec local_addr :: "ip_family \<Rightarrow> ip_addr" where
  "local_addr FamV4 = V4 ipv4_localhost"
| "local_addr FamV6 = V6 ipv6_localhost"

text \<open>The socket domain of a family, \<^verbatim>\<open>socket2::Domain\<close>.\<close>

datatype domain = DomainIPv4 | DomainIPv6

primrec family_domain :: "ip_family \<Rightarrow> domain" where
  "family_domain FamV4 = DomainIPv4"
| "family_domain FamV6 = DomainIPv6"

section \<open>Facts\<close>

lemma length_octets4 [simp]: "length (octets4 ip) = 4"
  by (cases ip) simp

lemma length_segments [simp]: "length (segments ip) = 8"
  by (cases ip) simp

lemma length_octets6 [simp]: "length (octets6 ip) = 16"
  by (cases ip) (simp add: octets6_def)

lemma ipv4_from_octets4 [codec_simps]: "ipv4_from_octets (octets4 ip) = Ok ip"
  by (cases ip) (simp add: ipv4_from_octets_def)

lemma ipv6_from_octets6 [codec_simps]: "ipv6_from_octets (octets6 ip) = Ok ip"
  by (cases ip) (simp add: ipv6_from_octets_def octets6_def u16_to_be_bytes_def u16_from_to_be)

lemma octets4_inj: "octets4 a = octets4 b \<longleftrightarrow> a = b"
  by (cases a; cases b) simp

lemma segments_inj: "segments a = segments b \<longleftrightarrow> a = b"
  by (cases a; cases b) simp

lemma nth_list_16:
  "length s = 16 \<Longrightarrow> [s ! 0, s ! 1, s ! 2, s ! 3, s ! 4, s ! 5, s ! 6, s ! 7, s ! 8, s ! 9,
     s ! 10, s ! 11, s ! 12, s ! 13, s ! 14, s ! 15] = s"
  by (rule nth_equalityI) (auto simp: nth_Cons' less_Suc_eq numeral_eq_Suc)

lemma octets6_from_octets:
  assumes "ipv6_from_octets s = Ok ip"
  shows "octets6 ip = s"
  using assms nth_list_16 [of s]
  by (auto simp: ipv6_from_octets_def octets6_def u16_to_from_be split: if_splits)

lemma octets4_from_octets: "ipv4_from_octets s = Ok ip \<Longrightarrow> octets4 ip = s"
  by (auto simp: ipv4_from_octets_def numeral_eq_Suc length_Suc_conv split: if_splits)

lemma from_octets_Panic [res_simps]:
  "ipv4_from_octets s = Panic \<longleftrightarrow> length s \<noteq> 4"
  "ipv6_from_octets s = Panic \<longleftrightarrow> length s \<noteq> 16"
  "ipv4_from_octets s \<noteq> Err e" "ipv6_from_octets s \<noteq> Err e"
  by (simp_all add: ipv4_from_octets_def ipv6_from_octets_def)

lemma u16_from_be_split:
  "ucast (drop_bit 8 (u16_from_be a b)) = a" "ucast (u16_from_be a b) = b"
  using u16_to_from_be [of a b] by (simp_all add: u16_to_be_bytes_def)

lemma ipv4_mapped_roundtrip [simp]: "to_ipv4_mapped (to_ipv6_mapped ip) = Some ip"
  by (cases ip) (simp add: u16_from_be_split)

lemma to_canonical_idem [simp]: "to_canonical (to_canonical ip) = to_canonical ip"
  by (cases ip) (auto split: option.splits)

text \<open>Reads of an address at an offset, through a slice of the right length.\<close>

definition read_ipv4 :: "nat \<Rightarrow> bytes \<Rightarrow> (ipv4, 'e) res" where
  "read_ipv4 a buf = bind_res (slice a (a + 4) buf) ipv4_from_octets"

lemma read_ipv4_in [slice_simps]:
  "a + 4 \<le> length buf \<Longrightarrow>
     read_ipv4 a buf = Ok (Ipv4 (buf ! a) (buf ! (a + 1)) (buf ! (a + 2)) (buf ! (a + 3)))"
  by (simp add: read_ipv4_def slice_in ipv4_from_octets_def)

lemma read_ipv4_eq [res_simps]:
  "read_ipv4 a buf = Panic \<longleftrightarrow> length buf < a + 4"
  "read_ipv4 a buf \<noteq> Err e"
  by (cases "a + 4 \<le> length buf";
      auto simp: read_ipv4_def slice_in ipv4_from_octets_def res_simps)+

subsection \<open>Masks and prefixes\<close>

text \<open>
  Comparing two words under a mask of their high bits compares the words shifted right: the
  shape in which the sources test membership in a CIDR block.
\<close>

lemma and_high_mask: "w AND NOT (mask k) = push_bit k (drop_bit k w)"
  for w :: "'a::len word"
  by (rule bit_word_eqI) (auto simp: bit_simps)

lemma drop_push_drop: "drop_bit k (push_bit k (drop_bit k w)) = drop_bit k w"
  for w :: "'a::len word"
  by (rule bit_word_eqI) (auto simp: bit_simps dest: bit_imp_le_length)

lemma and_high_mask_eq:
  fixes w v :: "'a::len word"
  shows "w AND NOT (mask k) = v AND NOT (mask k) \<longleftrightarrow> drop_bit k w = drop_bit k v"
  by (metis and_high_mask drop_push_drop)

lemma and_high_mask_div:
  fixes w v :: "'a::len word"
  assumes "m = NOT (mask k)" and "v AND m = v"
  shows "w AND m = v \<longleftrightarrow> unat w div 2 ^ k = unat v div 2 ^ k"
proof -
  have "w AND m = v \<longleftrightarrow> drop_bit k w = drop_bit k v"
    using and_high_mask_eq [of w k v] assms by simp
  also have "\<dots> \<longleftrightarrow> unat (drop_bit k w) = unat (drop_bit k v)"
    by (simp add: word_unat_eq_iff)
  finally show ?thesis by (simp only: unat_drop_bit_eq) (simp add: drop_bit_eq_div)
qed

text \<open>The value of an address as a number, most significant octet first.\<close>

primrec ipv4_value :: "ipv4 \<Rightarrow> nat" where
  "ipv4_value (Ipv4 a b c d) =
     unat a * 2 ^ 24 + unat b * 2 ^ 16 + unat c * 2 ^ 8 + unat d"

primrec ipv6_value :: "ipv6 \<Rightarrow> nat" where
  "ipv6_value (Ipv6 a b c d e f g h) =
     unat a * 2 ^ 112 + unat b * 2 ^ 96 + unat c * 2 ^ 80 + unat d * 2 ^ 64
     + unat e * 2 ^ 48 + unat f * 2 ^ 32 + unat g * 2 ^ 16 + unat h"

text \<open>Membership in the CIDR block \<open>base/len\<close>: the first \<open>len\<close> bits agree.\<close>

definition in_block4 :: "ipv4 \<Rightarrow> nat \<Rightarrow> ipv4 \<Rightarrow> bool" where
  "in_block4 base len ip \<longleftrightarrow> ipv4_value ip div 2 ^ (32 - len) = ipv4_value base div 2 ^ (32 - len)"

definition in_block6 :: "ipv6 \<Rightarrow> nat \<Rightarrow> ipv6 \<Rightarrow> bool" where
  "in_block6 base len ip \<longleftrightarrow>
     ipv6_value ip div 2 ^ (128 - len) = ipv6_value base div 2 ^ (128 - len)"

lemma u8_bound: "unat (a :: u8) < 256"
  using unsigned_less [of a] by simp

lemma u16_bound: "unat (a :: u16) < 65536"
  using unsigned_less [of a] by simp

lemma u8_eq_numeral: "a = numeral k \<longleftrightarrow> unat a = unat (numeral k :: u8)" for a :: u8
  by (simp add: word_unat_eq_iff)

lemma in_block4_first:
  assumes "len \<le> 16"
  shows "in_block4 (Ipv4 x y 0 0) len (Ipv4 a b c d) \<longleftrightarrow>
    (unat a * 256 + unat b) div 2 ^ (16 - len) = (unat x * 256 + unat y) div 2 ^ (16 - len)"
proof -
  have "(2::nat) ^ (32 - len) = 2 ^ (16 + (16 - len))"
    using assms by simp
  then have shift: "v div 2 ^ (32 - len) = v div 65536 div 2 ^ (16 - len)" for v :: nat
    by (simp add: div_mult2_eq power_add)
  have "ipv4_value (Ipv4 p q r s) div 65536 = unat p * 256 + unat q" for p q r s
    using u8_bound [of r] u8_bound [of s] by simp
  then show ?thesis by (simp add: in_block4_def shift del: ipv4_value.simps)
qed

lemma and_f0_16: "b AND 0xf0 = 16 \<longleftrightarrow> unat b div 16 = 1" for b :: u8
  using and_high_mask_div [of "0xf0" 4 "16" b] by (simp add: mask_eq_exp_minus_1)

lemma and_fe_fc: "b AND 0xfe = 0xfc \<longleftrightarrow> unat b div 2 = 126" for b :: u8
  using and_high_mask_div [of "0xfe" 1 "0xfc" b] by (simp add: mask_eq_exp_minus_1)

lemma and_ffc0_fe80: "s AND 0xffc0 = 0xfe80 \<longleftrightarrow> unat s div 64 = 1018" for s :: u16
  using and_high_mask_div [of "0xffc0" 6 "0xfe80" s] by (simp add: mask_eq_exp_minus_1)

lemma in_block_10_8: "in_block4 (Ipv4 10 0 0 0) 8 (Ipv4 a b c d) \<longleftrightarrow> a = 10"
  using u8_bound [of b] by (simp add: in_block4_first u8_eq_numeral)

lemma radix_eq: "b < k \<Longrightarrow> y < k \<Longrightarrow> a * k + b = x * k + y \<longleftrightarrow> a = x \<and> b = (y :: nat)"
  by (metis div_mult_self3 div_less mod_less mod_mult_self3 add.commute add_0 mult.commute
      less_nat_zero_code not_gr_zero)

lemma in_block_172_16_12:
  "in_block4 (Ipv4 172 16 0 0) 12 (Ipv4 a b c d) \<longleftrightarrow> a = 172 \<and> b AND 0xf0 = 16"
proof -
  have "(unat a * 256 + unat b) div 16 = unat a * 16 + unat b div 16"
    using div_mult_self1 [of 16 "unat b" "unat a * 16"] by (simp add: algebra_simps)
  moreover have "unat b div 16 < 16" using u8_bound [of b] by simp
  ultimately show ?thesis
    using radix_eq [of "unat b div 16" 16 1 "unat a" 172]
    by (simp add: in_block4_first u8_eq_numeral [of a] and_f0_16)
qed

lemma in_block_192_168_16:
  "in_block4 (Ipv4 192 168 0 0) 16 (Ipv4 a b c d) \<longleftrightarrow> a = 192 \<and> b = 168"
  using radix_eq [of "unat b" 256 168 "unat a" 192] u8_bound [of b]
  by (simp add: in_block4_first u8_eq_numeral)

text \<open>An IPv6 block of at most 16 bits is decided by the first segment.\<close>

lemma in_block6_first:
  assumes "len \<le> 16"
  shows "in_block6 (Ipv6 base 0 0 0 0 0 0 0) len (Ipv6 s b c d e f g h) \<longleftrightarrow>
    unat s div 2 ^ (16 - len) = unat base div 2 ^ (16 - len)"
proof -
  let ?low = "unat b * 2 ^ 96 + unat c * 2 ^ 80 + unat d * 2 ^ 64 + unat e * 2 ^ 48
    + unat f * 2 ^ 32 + unat g * 2 ^ 16 + unat h"
  have low: "?low < 2 ^ 112"
    using u16_bound [of b] u16_bound [of c] u16_bound [of d] u16_bound [of e]
      u16_bound [of f] u16_bound [of g] u16_bound [of h] by simp
  have val: "ipv6_value (Ipv6 s b c d e f g h) = ?low + unat s * 2 ^ 112"
    by simp
  have "(2::nat) ^ (128 - len) = 2 ^ (112 + (16 - len))"
    using assms by simp
  then have shift: "x div 2 ^ (128 - len) = x div 2 ^ 112 div 2 ^ (16 - len)" for x :: nat
    by (simp only: div_mult2_eq power_add)
  have "ipv6_value (Ipv6 s b c d e f g h) div 2 ^ 112 = unat s"
    unfolding val using low by (simp add: div_less)
  moreover have "ipv6_value (Ipv6 base 0 0 0 0 0 0 0) div 2 ^ 112 = unat base"
    by simp
  ultimately show ?thesis by (simp only: in_block6_def shift)
qed

lemma octets6_first: "octets6 (Ipv6 s b c d e f g h) ! 0 = ucast (drop_bit 8 s)"
  by (simp add: octets6_def u16_to_be_bytes_def)

lemma unat_high_octet: "unat (ucast (drop_bit 8 s) :: u8) = unat s div 256" for s :: u16
proof -
  have "unat (drop_bit 8 s) = unat s div 256"
    by (simp only: unat_drop_bit_eq) (simp add: drop_bit_eq_div)
  then show ?thesis using u16_bound [of s]
    by (simp add: unsigned_ucast_eq take_bit_eq_mod)
qed

section \<open>Orders\<close>

text \<open>
  The derived orders of \<^verbatim>\<open>Ipv4Addr\<close>, \<^verbatim>\<open>Ipv6Addr\<close> and \<^verbatim>\<open>IpAddr\<close>: octets, or
  segments, lexicographically, and every IPv4 address before every IPv6 address. The sources
  sort addresses with them.
\<close>

primrec ip_key :: "ip_addr \<Rightarrow> nat list" where
  "ip_key (V4 ip) = 0 # map unat (octets4 ip)"
| "ip_key (V6 ip) = 1 # map unat (segments ip)"

lemma ip_key_inj: "ip_key a = ip_key b \<longleftrightarrow> a = b"
  by (cases a; cases b)
    (auto simp: octets4_inj segments_inj dest!: map_injective [OF _ injI] simp: word_unat_eq_iff)

instantiation ip_addr :: linorder
begin

definition less_eq_ip_addr :: "ip_addr \<Rightarrow> ip_addr \<Rightarrow> bool" where
  "less_eq_ip_addr a b \<longleftrightarrow> ip_key a \<le> ip_key b"

definition less_ip_addr :: "ip_addr \<Rightarrow> ip_addr \<Rightarrow> bool" where
  "less_ip_addr a b \<longleftrightarrow> ip_key a < ip_key b"

instance
  by standard
    (auto simp: less_eq_ip_addr_def less_ip_addr_def less_le_not_le intro: ip_key_inj [THEN iffD1])

end

lemma v4_before_v6: "V4 a < V6 b"
  by (simp add: less_ip_addr_def)

section \<open>The address predicates are the blocks their documentation names\<close>

text \<open>\<open>is_private\<close> holds exactly for the addresses in 10.0.0.0/8, 172.16.0.0/12,
  192.168.0.0/16 and fc00::/7, the blocks of RFC 1918 and RFC 4193.\<close>

theorem is_private_blocks:
  "is_private ip \<longleftrightarrow>
     (case ip of
        V4 v4 \<Rightarrow> in_block4 (Ipv4 10 0 0 0) 8 v4 \<or> in_block4 (Ipv4 172 16 0 0) 12 v4
          \<or> in_block4 (Ipv4 192 168 0 0) 16 v4
      | V6 v6 \<Rightarrow> in_block6 (Ipv6 0xfc00 0 0 0 0 0 0 0) 7 v6)"
proof (cases ip)
  case (V4 v4)
  then show ?thesis
    by (cases v4) (simp add: in_block_10_8 in_block_172_16_12 in_block_192_168_16)
next
  case (V6 v6)
  then show ?thesis
    by (cases v6)
      (simp add: is_private_v6_def in_block6_first octets6_first and_fe_fc unat_high_octet
        flip: div_mult2_eq)
qed

end
