(* ===== verification/Nat_Pmp_Protocol.thy ===== *)
theory Nat_Pmp_Protocol
  imports Ip_Addr
begin

text \<open>
  The NAT-PMP wire format, \<^verbatim>\<open>portmapper/src/nat_pmp/protocol.rs\<close> and its submodules
  \<^verbatim>\<open>request.rs\<close> and \<^verbatim>\<open>response.rs\<close>: enums with their primitive values, the encoder of
  requests, the decoder of responses, and the decoder of requests and encoder of responses
  that the crate's own tests use as the inverse direction. The decoder never panics, accepts
  exactly what the encoder writes, and reports the first defect it meets.
\<close>

section \<open>protocol.rs\<close>

definition pmp_server_port :: u16 where "pmp_server_port = 5351"

datatype pmp_version = PmpVersionNatPmp

primrec pmp_version_to_u8 :: "pmp_version \<Rightarrow> u8" where
  "pmp_version_to_u8 PmpVersionNatPmp = 0"

definition pmp_version_try_from :: "u8 \<Rightarrow> pmp_version option" where
  "pmp_version_try_from v = (if v = 0 then Some PmpVersionNatPmp else None)"

datatype pmp_opcode = DetermineExternalAddress | MapUdp | MapTcp

primrec pmp_opcode_to_u8 :: "pmp_opcode \<Rightarrow> u8" where
  "pmp_opcode_to_u8 DetermineExternalAddress = 0"
| "pmp_opcode_to_u8 MapUdp = 1"
| "pmp_opcode_to_u8 MapTcp = 2"

definition pmp_opcode_try_from :: "u8 \<Rightarrow> pmp_opcode option" where
  "pmp_opcode_try_from v =
     (if v = 0 then Some DetermineExternalAddress
      else if v = 1 then Some MapUdp else if v = 2 then Some MapTcp else None)"

section \<open>request.rs\<close>

datatype pmp_map_protocol = PmpUdp | PmpTcp

datatype pmp_request =
    PmpExternalAddress
  | PmpMapping (rq_proto: pmp_map_protocol) (rq_local_port: u16) (rq_external_port: u16)
      (rq_lifetime_seconds: u32)

primrec pmp_request_encode :: "pmp_request \<Rightarrow> bytes" where
  "pmp_request_encode PmpExternalAddress =
     [pmp_version_to_u8 PmpVersionNatPmp, pmp_opcode_to_u8 DetermineExternalAddress]"
| "pmp_request_encode (PmpMapping proto local_port external_port lifetime_seconds) =
     (let opcode = (case proto of PmpUdp \<Rightarrow> MapUdp | PmpTcp \<Rightarrow> MapTcp)
      in [pmp_version_to_u8 PmpVersionNatPmp, pmp_opcode_to_u8 opcode, 0, 0]
         @ u16_to_be_bytes local_port @ u16_to_be_bytes external_port
         @ u32_to_be_bytes lifetime_seconds)"

text \<open>The test decoders; an \<^verbatim>\<open>unwrap\<close> of a failed conversion panics.\<close>

definition pmp_request_decode_map :: "bytes \<Rightarrow> pmp_map_protocol \<Rightarrow> (pmp_request, 'e) res" where
  "pmp_request_decode_map buf proto =
     bind_res (read_u16_be 4 buf) (\<lambda>local_port.
     bind_res (read_u16_be 6 buf) (\<lambda>external_port.
     bind_res (read_u32_be 8 buf) (\<lambda>lifetime_seconds.
     Ok (PmpMapping proto local_port external_port lifetime_seconds))))"

definition pmp_request_decode :: "bytes \<Rightarrow> (pmp_request, 'e) res" where
  "pmp_request_decode buf =
     bind_res (idx buf 0) (\<lambda>v. bind_res (expect (pmp_version_try_from v)) (\<lambda>_.
     bind_res (idx buf 1) (\<lambda>o1. bind_res (expect (pmp_opcode_try_from o1)) (\<lambda>opcode.
     case opcode of
       DetermineExternalAddress \<Rightarrow> Ok PmpExternalAddress
     | MapUdp \<Rightarrow> pmp_request_decode_map buf PmpUdp
     | MapTcp \<Rightarrow> pmp_request_decode_map buf PmpTcp))))"

section \<open>response.rs\<close>

datatype pmp_response =
    PmpPublicAddress (rs_epoch_time: u32) (rs_public_ip: ipv4)
  | PmpPortMap (rs_proto: pmp_map_protocol) (rs_epoch_time: u32) (rs_private_port: u16)
      (rs_external_port: u16) (rs_lifetime_seconds: u32)

datatype pmp_result_code =
    PmpSuccess | PmpRcUnsupportedVersion | PmpRcNotAuthorizedOrRefused | PmpRcNetworkFailure
  | PmpRcOutOfResources | PmpRcUnsupportedOpcode

definition pmp_result_code_try_from :: "u16 \<Rightarrow> pmp_result_code option" where
  "pmp_result_code_try_from v =
     (if v = 0 then Some PmpSuccess
      else if v = 1 then Some PmpRcUnsupportedVersion
      else if v = 2 then Some PmpRcNotAuthorizedOrRefused
      else if v = 3 then Some PmpRcNetworkFailure
      else if v = 4 then Some PmpRcOutOfResources
      else if v = 5 then Some PmpRcUnsupportedOpcode
      else None)"

primrec pmp_result_code_to_u16 :: "pmp_result_code \<Rightarrow> u16" where
  "pmp_result_code_to_u16 PmpSuccess = 0"
| "pmp_result_code_to_u16 PmpRcUnsupportedVersion = 1"
| "pmp_result_code_to_u16 PmpRcNotAuthorizedOrRefused = 2"
| "pmp_result_code_to_u16 PmpRcNetworkFailure = 3"
| "pmp_result_code_to_u16 PmpRcOutOfResources = 4"
| "pmp_result_code_to_u16 PmpRcUnsupportedOpcode = 5"

datatype pmp_decode_error =
    PmpMalformed | PmpNotAResponse | PmpInvalidOpcode | PmpInvalidVersion | PmpInvalidResultCode
  | PmpUnsupportedVersion | PmpNotAuthorizedOrRefused | PmpNetworkFailure | PmpOutOfResources
  | PmpUnsupportedOpcode

definition pmp_min_size :: nat where "pmp_min_size = 1 + 1 + 2 + 4 + 4"
definition pmp_max_size :: nat where "pmp_max_size = 1 + 1 + 2 + 4 + 2 + 2 + 4"
definition pmp_response_indicator :: u8 where "pmp_response_indicator = push_bit 7 1"

definition pmp_response_decode_map ::
  "bytes \<Rightarrow> pmp_map_protocol \<Rightarrow> (pmp_response, pmp_decode_error) res" where
  "pmp_response_decode_map buf proto =
     bind_res (ensure (length buf = pmp_max_size) PmpMalformed) (\<lambda>_.
     bind_res (read_u32_be 4 buf) (\<lambda>epoch_time.
     bind_res (read_u16_be 8 buf) (\<lambda>private_port.
     bind_res (read_u16_be 10 buf) (\<lambda>external_port.
     bind_res (read_u32_be 12 buf) (\<lambda>lifetime_seconds.
     Ok (PmpPortMap proto epoch_time private_port external_port lifetime_seconds))))))"

text \<open>The match that turns a result code into \<^verbatim>\<open>Ok(())\<close> or an error.\<close>

primrec pmp_check_result_code :: "pmp_result_code \<Rightarrow> (unit, pmp_decode_error) res" where
  "pmp_check_result_code PmpSuccess = Ok ()"
| "pmp_check_result_code PmpRcUnsupportedVersion = Err PmpUnsupportedVersion"
| "pmp_check_result_code PmpRcNotAuthorizedOrRefused = Err PmpNotAuthorizedOrRefused"
| "pmp_check_result_code PmpRcNetworkFailure = Err PmpNetworkFailure"
| "pmp_check_result_code PmpRcOutOfResources = Err PmpOutOfResources"
| "pmp_check_result_code PmpRcUnsupportedOpcode = Err PmpUnsupportedOpcode"

definition pmp_response_decode :: "bytes \<Rightarrow> (pmp_response, pmp_decode_error) res" where
  "pmp_response_decode buf =
     bind_res (ensure (\<not> (length buf < pmp_min_size \<or> pmp_max_size < length buf)) PmpMalformed) (\<lambda>_.
     bind_res (idx buf 0) (\<lambda>v.
     bind_res (ok_or (pmp_version_try_from v) PmpInvalidVersion) (\<lambda>_.
     bind_res (idx buf 1) (\<lambda>o1.
     bind_res (ensure (o1 AND pmp_response_indicator = pmp_response_indicator) PmpNotAResponse) (\<lambda>_.
     bind_res (ok_or (pmp_opcode_try_from (o1 AND NOT pmp_response_indicator)) PmpInvalidOpcode) (\<lambda>opcode.
     bind_res (read_u16_be 2 buf) (\<lambda>result_bytes.
     bind_res (ok_or (pmp_result_code_try_from result_bytes) PmpInvalidResultCode) (\<lambda>result_code.
     bind_res (pmp_check_result_code result_code) (\<lambda>_.
     case opcode of
       DetermineExternalAddress \<Rightarrow>
         bind_res (read_u32_be 4 buf) (\<lambda>epoch_time.
         bind_res (read_ipv4 8 buf) (\<lambda>public_ip.
         Ok (PmpPublicAddress epoch_time public_ip)))
     | MapUdp \<Rightarrow> pmp_response_decode_map buf PmpUdp
     | MapTcp \<Rightarrow> pmp_response_decode_map buf PmpTcp)))))))))"

text \<open>The test encoder of responses. It ignores the protocol of a port mapping and always
  writes the UDP opcode.\<close>

primrec pmp_response_encode :: "pmp_response \<Rightarrow> bytes" where
  "pmp_response_encode (PmpPublicAddress epoch_time public_ip) =
     [pmp_version_to_u8 PmpVersionNatPmp,
      pmp_response_indicator OR pmp_opcode_to_u8 DetermineExternalAddress]
     @ u16_to_be_bytes (pmp_result_code_to_u16 PmpSuccess)
     @ u32_to_be_bytes epoch_time @ octets4 public_ip"
| "pmp_response_encode (PmpPortMap proto epoch_time private_port external_port lifetime_seconds) =
     [pmp_version_to_u8 PmpVersionNatPmp, pmp_response_indicator OR pmp_opcode_to_u8 MapUdp]
     @ u16_to_be_bytes (pmp_result_code_to_u16 PmpSuccess)
     @ u32_to_be_bytes epoch_time @ u16_to_be_bytes private_port
     @ u16_to_be_bytes external_port @ u32_to_be_bytes lifetime_seconds"

section \<open>Facts\<close>

lemmas pmp_size_defs = pmp_min_size_def pmp_max_size_def

lemma pmp_version_try_from_Some: "pmp_version_try_from v = Some ver \<longleftrightarrow> v = 0"
  by (cases ver) (simp add: pmp_version_try_from_def)

lemma pmp_opcode_try_from_Some: "pmp_opcode_try_from v = Some oc \<longleftrightarrow> v = pmp_opcode_to_u8 oc"
  by (cases oc) (auto simp: pmp_opcode_try_from_def)

lemma pmp_result_code_try_from_Some:
  "pmp_result_code_try_from v = Some rc \<longleftrightarrow> v = pmp_result_code_to_u16 rc"
  by (cases rc) (auto simp: pmp_result_code_try_from_def)

lemmas pmp_try_from_Some =
  pmp_version_try_from_Some pmp_opcode_try_from_Some pmp_result_code_try_from_Some

lemma pmp_check_result_code_Ok: "pmp_check_result_code rc = Ok u \<longleftrightarrow> rc = PmpSuccess"
  by (cases rc) auto

lemma pmp_check_result_code_no_Panic [simp]: "pmp_check_result_code rc \<noteq> Panic"
  by (cases rc) auto

lemma length_pmp_request_encode:
  "length (pmp_request_encode r) = (case r of PmpExternalAddress \<Rightarrow> 2 | PmpMapping _ _ _ _ \<Rightarrow> 12)"
  by (cases r) (auto simp: Let_def)

lemma pmp_response_decode_map_no_Panic: "pmp_response_decode_map buf proto \<noteq> Panic"
  by (auto simp: pmp_response_decode_map_def res_simps pmp_size_defs)

lemma pmp_decode_returns: "pmp_response_decode buf \<noteq> Panic"
  by (auto simp: pmp_response_decode_def res_simps pmp_size_defs pmp_response_decode_map_no_Panic
      split: pmp_opcode.splits)

text \<open>decoding a NAT-PMP response never panics, whatever bytes the server sent: every slice
  taken is within the length checked first.\<close>

theorem pmp_response_decode_no_Panic: "pmp_response_decode buf \<noteq> Panic"
  by (rule pmp_decode_returns)

text \<open>decoding what the encoder wrote gives the response back; for a port mapping the
  protocol comes back as UDP, since the encoder writes the UDP opcode for both.\<close>

theorem pmp_response_decode_encode:
  "pmp_response_decode (pmp_response_encode r) =
     Ok (case r of
           PmpPublicAddress epoch ip \<Rightarrow> PmpPublicAddress epoch ip
         | PmpPortMap proto epoch priv ext life \<Rightarrow> PmpPortMap PmpUdp epoch priv ext life)"
proof (cases r)
  case (PmpPublicAddress epoch ip)
  then show ?thesis
    by (cases ip)
      (simp add: pmp_response_decode_def pmp_size_defs slice_simps ensure_def ok_or_def
        pmp_response_indicator_def pmp_opcode_try_from_def pmp_version_try_from_def
        pmp_result_code_try_from_def u16_to_be_bytes_def u32_to_be_bytes_def codec_simps)
next
  case (PmpPortMap proto epoch priv ext life)
  then show ?thesis
    by (simp add: pmp_response_decode_def pmp_response_decode_map_def pmp_size_defs slice_simps
        ensure_def ok_or_def pmp_response_indicator_def pmp_opcode_try_from_def
        pmp_version_try_from_def pmp_result_code_try_from_def u16_to_be_bytes_def
        u32_to_be_bytes_def codec_simps)
qed

lemma pmp_opcode_indicator:
  "o1 AND pmp_response_indicator = pmp_response_indicator
      \<and> o1 AND NOT pmp_response_indicator = pmp_opcode_to_u8 oc
     \<longleftrightarrow> o1 = pmp_response_indicator OR pmp_opcode_to_u8 oc"
  unfolding pmp_response_indicator_def indicator_split by (cases oc) simp_all

text \<open>The body a decoded packet with opcode \<open>oc\<close> carries.\<close>

definition pmp_body :: "bytes \<Rightarrow> pmp_opcode \<Rightarrow> (pmp_response, pmp_decode_error) res" where
  "pmp_body buf oc =
     (case oc of
        DetermineExternalAddress \<Rightarrow>
          Ok (PmpPublicAddress (u32_from_be (buf ! 4) (buf ! 5) (buf ! 6) (buf ! 7))
                (Ipv4 (buf ! 8) (buf ! 9) (buf ! 10) (buf ! 11)))
      | MapUdp \<Rightarrow> pmp_response_decode_map buf PmpUdp
      | MapTcp \<Rightarrow> pmp_response_decode_map buf PmpTcp)"

lemma pmp_response_decode_header:
  assumes "12 \<le> length buf" "length buf \<le> 16"
  shows "pmp_response_decode buf = Ok r \<longleftrightarrow>
    buf ! 0 = 0 \<and> u16_from_be (buf ! 2) (buf ! 3) = 0 \<and>
    (\<exists>oc. buf ! 1 = pmp_response_indicator OR pmp_opcode_to_u8 oc \<and> pmp_body buf oc = Ok r)"
proof -
  from assms have "buf \<noteq> []" by auto
  have "pmp_response_decode buf = Ok r \<longleftrightarrow>
    (\<exists>oc. buf ! 0 = 0 \<and> (buf ! 1 AND pmp_response_indicator = pmp_response_indicator
      \<and> buf ! 1 AND NOT pmp_response_indicator = pmp_opcode_to_u8 oc)
      \<and> u16_from_be (buf ! 2) (buf ! 3) = 0 \<and> pmp_body buf oc = Ok r)"
    using assms \<open>buf \<noteq> []\<close>
    by (auto simp: pmp_response_decode_def pmp_size_defs bind_res_eq_Ok ensure_eq ok_or_eq
        slice_simps pmp_try_from_Some pmp_check_result_code_Ok pmp_body_def
        split: pmp_opcode.splits)
  then show ?thesis unfolding pmp_opcode_indicator by blast
qed

lemma pmp_response_decode_map_Ok:
  "pmp_response_decode_map buf proto = Ok r \<longleftrightarrow> length buf = 16 \<and>
     r = PmpPortMap proto (u32_from_be (buf ! 4) (buf ! 5) (buf ! 6) (buf ! 7))
           (u16_from_be (buf ! 8) (buf ! 9)) (u16_from_be (buf ! 10) (buf ! 11))
           (u32_from_be (buf ! 12) (buf ! 13) (buf ! 14) (buf ! 15))"
  by (auto simp: pmp_response_decode_map_def bind_res_eq_Ok ensure_eq slice_simps pmp_size_defs)

text \<open>The opcode of a mapping request and of its response.\<close>

abbreviation pmp_map_opcode :: "pmp_map_protocol \<Rightarrow> pmp_opcode" where
  "pmp_map_opcode proto \<equiv> (case proto of PmpUdp \<Rightarrow> MapUdp | PmpTcp \<Rightarrow> MapTcp)"

lemma pmp_body_PublicAddress:
  "pmp_body buf oc = Ok (PmpPublicAddress epoch ip) \<longleftrightarrow> oc = DetermineExternalAddress
     \<and> u32_to_be_bytes epoch = [buf ! 4, buf ! 5, buf ! 6, buf ! 7]
     \<and> octets4 ip = [buf ! 8, buf ! 9, buf ! 10, buf ! 11]"
  by (cases oc; cases ip)
    (auto simp: pmp_body_def pmp_response_decode_map_Ok u32_from_be_eq)

lemma pmp_body_PortMap:
  "pmp_body buf oc = Ok (PmpPortMap proto epoch priv ext life) \<longleftrightarrow> oc = pmp_map_opcode proto
     \<and> length buf = 16
     \<and> u32_to_be_bytes epoch = [buf ! 4, buf ! 5, buf ! 6, buf ! 7]
     \<and> u16_to_be_bytes priv = [buf ! 8, buf ! 9] \<and> u16_to_be_bytes ext = [buf ! 10, buf ! 11]
     \<and> u32_to_be_bytes life = [buf ! 12, buf ! 13, buf ! 14, buf ! 15]"
  by (cases oc; cases proto)
    (auto simp: pmp_body_def pmp_response_decode_map_Ok from_be_eq [symmetric])

text \<open>C27: the decoder accepts exactly the packets of the format: a public address response is the
  encoding followed by at most four more bytes (they are ignored), a port mapping response is
  the encoding with the opcode of its protocol and nothing else.\<close>

theorem pmp_response_decode_Ok_iff:
  "pmp_response_decode buf = Ok r \<longleftrightarrow>
     (case r of
        PmpPublicAddress _ _ \<Rightarrow> take 12 buf = pmp_response_encode r \<and> length buf \<in> {12..16}
      | PmpPortMap proto _ _ _ _ \<Rightarrow>
          buf = (pmp_response_encode r)[1 := pmp_response_indicator OR
            pmp_opcode_to_u8 (pmp_map_opcode proto)])"
  (is "?dec \<longleftrightarrow> ?fmt")
proof (cases "length buf \<in> {12..16}")
  case True
  then have len: "12 \<le> length buf" "length buf \<le> 16" by auto
  from len(1) obtain b0 b1 b2 b3 b4 b5 b6 b7 b8 b9 b10 b11 rest where
    buf: "buf = [b0, b1, b2, b3, b4, b5, b6, b7, b8, b9, b10, b11] @ rest"
    by (auto simp: numeral_eq_Suc Suc_le_length_iff)
  show ?thesis
  proof (cases r)
    case (PmpPublicAddress epoch ip)
    then show ?thesis using len
      unfolding pmp_response_decode_header [OF len]
      by (cases ip) (auto simp: pmp_body_PublicAddress buf u16_from_be_eq to_be_bytes_def)
  next
    case (PmpPortMap proto epoch priv ext life)
    have "length buf = 16 \<longleftrightarrow> (\<exists>b12 b13 b14 b15. rest = [b12, b13, b14, b15])"
      by (auto simp: buf numeral_eq_Suc length_Suc_conv)
    with PmpPortMap show ?thesis using len
      unfolding pmp_response_decode_header [OF len]
      by (auto simp: pmp_body_PortMap buf u16_from_be_eq to_be_bytes_def)
  qed
next
  case False
  then have "\<not> ?dec"
    by (auto simp: pmp_response_decode_def res_simps pmp_size_defs)
  moreover have "\<not> ?fmt" using False by (auto split: pmp_response.splits)
  ultimately show ?thesis by blast
qed

text \<open>a well-formed response header that carries an error result code is reported as that
  error, whatever follows the header.\<close>

theorem pmp_response_decode_error_code:
  assumes "12 \<le> length buf" "length buf \<le> 16"
    and "buf ! 0 = 0" and "buf ! 1 = pmp_response_indicator OR pmp_opcode_to_u8 oc"
    and "u16_from_be (buf ! 2) (buf ! 3) = pmp_result_code_to_u16 rc" and "rc \<noteq> PmpSuccess"
  shows "\<exists>e. pmp_check_result_code rc = Err e \<and> pmp_response_decode buf = Err e"
proof -
  from assms(1) have "buf \<noteq> []" by auto
  moreover have "buf ! 1 AND pmp_response_indicator = pmp_response_indicator
      \<and> buf ! 1 AND NOT pmp_response_indicator = pmp_opcode_to_u8 oc"
    using assms(4) by (simp only: pmp_opcode_indicator)
  moreover have "pmp_opcode_try_from (pmp_opcode_to_u8 oc) = Some oc"
    and "pmp_result_code_try_from (pmp_result_code_to_u16 rc) = Some rc"
    by (simp_all add: pmp_try_from_Some)
  ultimately show ?thesis using assms
    by (cases rc) (simp_all add: pmp_response_decode_def ensure_def ok_or_def slice_simps
        pmp_size_defs pmp_version_try_from_def)
qed

theorem pmp_response_decode_error_code_witness:
  "pmp_response_decode [0, 129, 0, 4, 0, 0, 0, 7, 0, 0, 0, 0] = Err PmpOutOfResources"
  using pmp_response_decode_error_code
    [of "[0, 129, 0, 4, 0, 0, 0, 7, 0, 0, 0, 0]" MapUdp PmpRcOutOfResources]
  by (simp add: pmp_response_indicator_def u16_from_be_def)

text \<open>every request survives encoding and decoding: the layout the client sends is the one
  the protocol defines.\<close>

theorem pmp_request_decode_encode: "pmp_request_decode (pmp_request_encode r) = Ok r"
proof (cases r)
  case PmpExternalAddress
  then show ?thesis
    by (simp add: pmp_request_decode_def idx_def expect_def pmp_version_try_from_def
        pmp_opcode_try_from_def)
next
  case (PmpMapping proto local_port external_port lifetime)
  then show ?thesis
    by (cases proto)
      (simp_all add: pmp_request_decode_def pmp_request_decode_map_def slice_simps expect_def
        pmp_version_try_from_def pmp_opcode_try_from_def to_be_bytes_def codec_simps)
qed

end
