(* ===== verification/Port_Io.thy ===== *)
theory Port_Io
  imports Ip_Addr
begin

text \<open>
  What the port mapping clients share: the transport protocol of a mapping, I/O errors, and the
  interface of \<^verbatim>\<open>netwatch::UdpSocket\<close> as the clients call it. A client is a program that
  extends a log of socket calls; the environment answers each call as a function of the log so
  far, so quantifying over environments covers every behaviour of the socket and the network.
  The locale \<open>udp_env\<close> holds the one law the clients rely on.
\<close>

section \<open>Errors and calls\<close>

text \<open>The kinds of \<^verbatim>\<open>std::io::Error\<close> the sources test for; any other kind is \<open>OtherIo\<close>.\<close>

datatype io_error = TimedOut | NotConnected | BrokenPipe | ConnectionReset | WouldBlock | OtherIo nat

datatype protocol = Udp | Tcp

type_synonym socket_addr = "ip_addr \<times> u16"

datatype io_call =
    CallBind socket_addr
  | CallConnect socket_addr
  | CallSend bytes
  | CallRecv duration nat

type_synonym io_log = "io_call list"

text \<open>
  The answers of the environment. A receive under \<^verbatim>\<open>tokio::time::timeout\<close> either elapses
  (\<open>None\<close>) or returns the socket's result: the count of bytes read and the buffer after the call.
\<close>

record net_env =
  ans_bind :: "io_log \<Rightarrow> socket_addr \<Rightarrow> (unit, io_error) res"
  ans_connect :: "io_log \<Rightarrow> socket_addr \<Rightarrow> (unit, io_error) res"
  ans_send :: "io_log \<Rightarrow> bytes \<Rightarrow> (nat, io_error) res"
  ans_recv :: "io_log \<Rightarrow> nat \<Rightarrow> (nat \<times> bytes, io_error) res option"

text \<open>A datagram received into a zeroed buffer of \<open>n\<close> bytes: what does not fit is discarded.\<close>

definition recv_into :: "bytes \<Rightarrow> nat \<Rightarrow> nat \<times> bytes" where
  "recv_into datagram n =
     (min n (length datagram), take n (datagram @ replicate n 0))"

lemma recv_into_bounds: "recv_into datagram n = (read, buffer) \<Longrightarrow> length buffer = n \<and> read \<le> n"
  by (auto simp: recv_into_def)

lemma recv_into_slice [slice_simps]:
  "recv_into datagram n = (read, buffer) \<Longrightarrow> slice_to read buffer = Ok (take n datagram)"
  by (auto simp: recv_into_def slice_to_in min_def)

section \<open>Programs over the log\<close>

type_synonym ('a, 'e, 'l) io_on = "'l \<Rightarrow> ('a, 'e) res \<times> 'l"

type_synonym ('a, 'e) io = "('a, 'e, io_log) io_on"

definition ret_io :: "('a, 'e) res \<Rightarrow> ('a, 'e, 'l) io_on" where
  "ret_io r log = (r, log)"

definition bind_io ::
  "('a, 'e, 'l) io_on \<Rightarrow> ('a \<Rightarrow> ('b, 'e, 'l) io_on) \<Rightarrow> ('b, 'e, 'l) io_on" where
  "bind_io p f log =
     (case p log of
        (Ok a, log') \<Rightarrow> f a log'
      | (Err e, log') \<Rightarrow> (Err e, log')
      | (Panic, log') \<Rightarrow> (Panic, log'))"

text \<open>\<^verbatim>\<open>?\<close> on a call whose error converts into the caller's error type.\<close>

definition op_bind :: "net_env \<Rightarrow> (io_error \<Rightarrow> 'e) \<Rightarrow> socket_addr \<Rightarrow> (unit, 'e) io" where
  "op_bind env conv a log = (map_err conv (ans_bind env log a), log @ [CallBind a])"

definition op_connect :: "net_env \<Rightarrow> (io_error \<Rightarrow> 'e) \<Rightarrow> socket_addr \<Rightarrow> (unit, 'e) io" where
  "op_connect env conv a log = (map_err conv (ans_connect env log a), log @ [CallConnect a])"

definition op_send :: "net_env \<Rightarrow> (io_error \<Rightarrow> 'e) \<Rightarrow> bytes \<Rightarrow> (nat, 'e) io" where
  "op_send env conv bs log = (map_err conv (ans_send env log bs), log @ [CallSend bs])"

text \<open>\<^verbatim>\<open>timeout(d, socket.recv(&mut buffer)).await.map_err(...)??\<close> and the slice
  \<^verbatim>\<open>&buffer[..read]\<close> of a buffer of \<open>n\<close> bytes.\<close>

definition op_recv :: "net_env \<Rightarrow> (io_error \<Rightarrow> 'e) \<Rightarrow> duration \<Rightarrow> nat \<Rightarrow> (bytes, 'e) io" where
  "op_recv env conv d n log =
     ((case ans_recv env log n of
         None \<Rightarrow> Err (conv TimedOut)
       | Some r \<Rightarrow> bind_res (map_err conv r) (\<lambda>(read, buffer). slice_to read buffer)),
      log @ [CallRecv d n])"

lemmas op_defs = op_bind_def op_connect_def op_send_def op_recv_def ret_io_def

lemma bind_io_eq_Ok [res_simps]:
  "bind_io p f log = (Ok b, log'') \<longleftrightarrow>
     (\<exists>a log'. p log = (Ok a, log') \<and> f a log' = (Ok b, log''))"
  by (auto simp: bind_io_def split: prod.splits res.splits)

lemma bind_io_fst_Panic [res_simps]:
  "fst (bind_io p f log) = Panic \<longleftrightarrow>
     fst (p log) = Panic \<or> (\<exists>a log'. p log = (Ok a, log') \<and> fst (f a log') = Panic)"
  by (auto simp: bind_io_def split: prod.splits res.splits)

lemma ret_io_eq [res_simps]:
  "ret_io r log = (r', log') \<longleftrightarrow> r = r' \<and> log = log'" "fst (ret_io r log) = r"
  by (simp_all add: ret_io_def)

text \<open>A program only extends the log.\<close>

definition extends :: "('a, 'e, 'c list) io_on \<Rightarrow> bool" where
  "extends p \<longleftrightarrow> (\<forall>log. \<exists>calls. snd (p log) = log @ calls)"

lemma extends_ops [intro, simp]:
  "extends (ret_io r)" "extends (op_bind env conv a)" "extends (op_connect env conv a)"
  "extends (op_send env conv bs)" "extends (op_recv env conv d n)"
  by (auto simp: extends_def op_defs)

lemma extends_bind_io [intro]: "extends p \<Longrightarrow> (\<And>a. extends (f a)) \<Longrightarrow> extends (bind_io p f)"
  unfolding extends_def
proof
  fix log
  assume p: "\<forall>log. \<exists>calls. snd (p log) = log @ calls"
    and f: "\<And>a. \<forall>log. \<exists>calls. snd (f a log) = log @ calls"
  obtain r calls where pl: "p log = (r, log @ calls)"
    using p by (metis prod.collapse)
  show "\<exists>calls. snd (bind_io p f log) = log @ calls"
  proof (cases r)
    case (Ok a)
    moreover obtain calls' where "snd (f a (log @ calls)) = (log @ calls) @ calls'"
      using f [of a] by blast
    ultimately show ?thesis by (simp add: bind_io_def pl)
  qed (use pl in \<open>auto simp: bind_io_def\<close>)
qed

section \<open>The contract of the socket\<close>

text \<open>
  What the clients rely on: a receive into a buffer of \<open>n\<close> bytes leaves a buffer of \<open>n\<close>
  bytes and reports at most \<open>n\<close> bytes read, and no call of the socket panics.
\<close>

locale udp_env =
  fixes env :: net_env
  assumes recv_bounded:
      "ans_recv env log n = Some (Ok (read, buffer)) \<Longrightarrow> length buffer = n \<and> read \<le> n"
    and recv_no_Panic: "ans_recv env log n \<noteq> Some Panic"
    and bind_no_Panic: "ans_bind env log a \<noteq> Panic"
    and connect_no_Panic: "ans_connect env log a \<noteq> Panic"
    and send_no_Panic: "ans_send env log bs \<noteq> Panic"
begin

lemma op_recv_length:
  "op_recv env conv d n log = (Ok bs, log') \<Longrightarrow> length bs \<le> n"
  by (auto simp: op_recv_def bind_res_eq_Ok map_err_eq slice_to_in dest!: recv_bounded
      split: option.splits)

lemma op_recv_no_Panic: "fst (op_recv env conv d n log) \<noteq> Panic"
  using recv_no_Panic [of log n]
  by (auto simp: op_recv_def bind_res_eq_Panic map_err_eq slice_eq_Panic dest!: recv_bounded
      split: option.splits)

lemma ops_no_Panic:
  "fst (op_bind env conv a log) \<noteq> Panic" "fst (op_connect env conv a log) \<noteq> Panic"
  "fst (op_send env conv bs log) \<noteq> Panic"
  by (simp_all add: op_defs map_err_eq bind_no_Panic connect_no_Panic send_no_Panic)

lemmas no_Panic = op_recv_no_Panic ops_no_Panic

end

end
