(* ===== verification/Udp_Socket.thy ===== *)
theory Udp_Socket
  imports Port_Io
begin

text \<open>
  The rebinding UDP socket, \<^verbatim>\<open>netwatch/src/udp.rs\<close>. The operating system and the crates
  \<^verbatim>\<open>socket2\<close>, \<^verbatim>\<open>tokio\<close> and \<^verbatim>\<open>noq_udp\<close> are a record of answers, functions of a clock that counts
  the iterations and binds so far, so every behaviour of the system is an instance. The loops may
  run forever, when the system keeps answering with transient errors: they take fuel, and are shown
  to return as soon as the system gives a conclusive answer.
\<close>

section \<open>The operating system\<close>

text \<open>A bound socket, with what \<^verbatim>\<open>noq_udp::UdpSocketState\<close> reports of it.\<close>

record os_socket =
  os_id :: nat
  os_max_gso_segments :: nat
  os_gro_segments :: nat
  os_may_fragment :: bool

datatype lock_answer = LockFree | LockBusy | LockPoisoned

text \<open>\<^verbatim>\<open>Poll<io::Result<()>>\<close> of the readiness polls.\<close>

datatype ready_answer = NotReady | IsReady | ReadyErr io_error

record udp_os =
  os_windows :: bool
  os_new :: "nat \<Rightarrow> domain \<Rightarrow> (unit, io_error) res"
  os_set_buffer_size :: "nat \<Rightarrow> nat \<Rightarrow> (unit, io_error) res"
  os_set_only_v6 :: "nat \<Rightarrow> (unit, io_error) res"
  os_bind :: "nat \<Rightarrow> socket_addr \<Rightarrow> (unit, io_error) res"
  os_set_nonblocking :: "nat \<Rightarrow> (unit, io_error) res"
  os_from_std :: "nat \<Rightarrow> (unit, io_error) res"
  os_socket_state :: "nat \<Rightarrow> (os_socket, io_error) res"
  os_local_addr :: "nat \<Rightarrow> (socket_addr, io_error) res"
  os_connect :: "nat \<Rightarrow> socket_addr \<Rightarrow> (unit, io_error) res"
  os_try_read :: "nat \<Rightarrow> lock_answer"
  os_try_read_again :: "nat \<Rightarrow> lock_answer"
  os_ready :: "nat \<Rightarrow> ready_answer"
  os_recv :: "nat \<Rightarrow> (bytes, io_error) res"
  os_recv_from :: "nat \<Rightarrow> (bytes \<times> socket_addr, io_error) res"
  os_recv_noq :: "nat \<Rightarrow> (nat, io_error) res"
  os_send :: "nat \<Rightarrow> bytes \<Rightarrow> (nat, io_error) res"
  os_send_to :: "nat \<Rightarrow> bytes \<Rightarrow> socket_addr \<Rightarrow> (nat, io_error) res"
  os_send_noq :: "nat \<Rightarrow> (unit, io_error) res"

section \<open>The socket state\<close>

datatype socket_state =
    Connected os_socket socket_addr
  | Closed socket_addr nat nat bool

definition socket_buffer_size :: nat where "socket_buffer_size = 7 * 2 ^ 20"

definition try_get_connected :: "socket_state \<Rightarrow> (os_socket, io_error) res" where
  "try_get_connected s =
     (case s of Connected socket _ \<Rightarrow> Ok socket | Closed _ _ _ _ \<Rightarrow> Err BrokenPipe)"

text \<open>The error of a wrong port has kind \<^verbatim>\<open>Other\<close>.\<close>

definition wrong_port :: io_error where "wrong_port = OtherIo 0"

definition socket_bind :: "udp_os \<Rightarrow> nat \<Rightarrow> socket_addr \<Rightarrow> (socket_state, io_error) res" where
  "socket_bind os n addr =
     (let network = family_of (fst addr) in
      bind_res (os_new os n (family_domain network)) (\<lambda>_.
      let recv_buffer = os_set_buffer_size os n socket_buffer_size;
          send_buffer = os_set_buffer_size os n socket_buffer_size
      in
      bind_res (if network = FamV6 then os_set_only_v6 os n else Ok ()) (\<lambda>_.
      bind_res (os_bind os n addr) (\<lambda>_.
      bind_res (os_set_nonblocking os n) (\<lambda>_.
      bind_res (os_from_std os n) (\<lambda>_.
      bind_res (os_socket_state os n) (\<lambda>socket.
      bind_res (os_local_addr os n) (\<lambda>bound.
      if snd addr \<noteq> 0 \<and> snd bound \<noteq> snd addr then Err wrong_port
      else Ok (Connected socket bound)))))))))"

primrec socket_addr_of :: "socket_state \<Rightarrow> socket_addr" where
  "socket_addr_of (Connected socket addr) = addr"
| "socket_addr_of (Closed addr gso gro frag) = addr"

primrec is_closed :: "socket_state \<Rightarrow> bool" where
  "is_closed (Connected socket addr) = False"
| "is_closed (Closed addr gso gro frag) = True"

text \<open>The transition to \<open>Closed\<close>, which keeps the last reported values.\<close>

primrec to_closed :: "socket_state \<Rightarrow> socket_state" where
  "to_closed (Connected socket addr) =
     Closed addr (os_max_gso_segments socket) (os_gro_segments socket) (os_may_fragment socket)"
| "to_closed (Closed addr gso gro frag) = Closed addr gso gro frag"

definition socket_rebind :: "udp_os \<Rightarrow> nat \<Rightarrow> socket_state \<Rightarrow> (unit, io_error) res \<times> socket_state" where
  "socket_rebind os n s =
     (let addr = socket_addr_of s in
      case socket_bind os n addr of
        Ok new_state \<Rightarrow> (Ok (), new_state)
      | Err err \<Rightarrow> (Err err, to_closed s)
      | Panic \<Rightarrow> (Panic, to_closed s))"

definition socket_close :: "socket_state \<Rightarrow> os_socket option \<times> socket_state" where
  "socket_close s =
     (case s of
        Connected socket addr \<Rightarrow> (Some socket, to_closed s)
      | Closed _ _ _ _ \<Rightarrow> (None, s))"

primrec may_fragment :: "socket_state \<Rightarrow> bool" where
  "may_fragment (Connected socket addr) = os_may_fragment socket"
| "may_fragment (Closed addr gso gro frag) = frag"

primrec max_gso_segments :: "socket_state \<Rightarrow> nat" where
  "max_gso_segments (Connected socket addr) = os_max_gso_segments socket"
| "max_gso_segments (Closed addr gso gro frag) = gso"

primrec gro_segments :: "socket_state \<Rightarrow> nat" where
  "gro_segments (Connected socket addr) = os_gro_segments socket"
| "gro_segments (Closed addr gso gro frag) = gro"

section \<open>The socket\<close>

type_synonym task = nat

record udp_socket =
  us_state :: socket_state
  us_recv_waker :: "task option"
  us_send_waker :: "task option"
  us_broken :: bool
  us_clock :: nat

datatype side = RecvSide | SendSide

definition bind_raw :: "udp_os \<Rightarrow> nat \<Rightarrow> socket_addr \<Rightarrow> (udp_socket, io_error) res" where
  "bind_raw os n addr =
     map_res (\<lambda>s. \<lparr>us_state = s, us_recv_waker = None, us_send_waker = None, us_broken = False,
       us_clock = Suc n\<rparr>) (socket_bind os n addr)"

definition udp_bind :: "udp_os \<Rightarrow> nat \<Rightarrow> ip_family \<Rightarrow> u16 \<Rightarrow> (udp_socket, io_error) res" where
  "udp_bind os n network port = bind_raw os n (unspecified_addr network, port)"

definition udp_bind_local :: "udp_os \<Rightarrow> nat \<Rightarrow> ip_family \<Rightarrow> u16 \<Rightarrow> (udp_socket, io_error) res" where
  "udp_bind_local os n network port = bind_raw os n (local_addr network, port)"

definition bind_v4 :: "udp_os \<Rightarrow> nat \<Rightarrow> u16 \<Rightarrow> (udp_socket, io_error) res" where
  "bind_v4 os n port = udp_bind os n FamV4 port"

definition bind_v6 :: "udp_os \<Rightarrow> nat \<Rightarrow> u16 \<Rightarrow> (udp_socket, io_error) res" where
  "bind_v6 os n port = udp_bind os n FamV6 port"

definition bind_local_v4 :: "udp_os \<Rightarrow> nat \<Rightarrow> u16 \<Rightarrow> (udp_socket, io_error) res" where
  "bind_local_v4 os n port = udp_bind_local os n FamV4 port"

definition bind_local_v6 :: "udp_os \<Rightarrow> nat \<Rightarrow> u16 \<Rightarrow> (udp_socket, io_error) res" where
  "bind_local_v6 os n port = udp_bind_local os n FamV6 port"

definition bind_full :: "udp_os \<Rightarrow> nat \<Rightarrow> socket_addr \<Rightarrow> (udp_socket, io_error) res" where
  "bind_full os n addr = bind_raw os n addr"

definition is_broken :: "udp_socket \<Rightarrow> bool" where "is_broken u = us_broken u"

text \<open>The getters wait for the read lock and panic when it is poisoned.\<close>

definition read_unwrap :: "bool \<Rightarrow> (socket_state \<Rightarrow> 'a) \<Rightarrow> udp_socket \<Rightarrow> ('a, io_error) res" where
  "read_unwrap poisoned get u = (if poisoned then Panic else Ok (get (us_state u)))"

definition udp_may_fragment :: "bool \<Rightarrow> udp_socket \<Rightarrow> (bool, io_error) res" where
  "udp_may_fragment poisoned = read_unwrap poisoned may_fragment"

definition udp_max_gso_segments :: "bool \<Rightarrow> udp_socket \<Rightarrow> (nat, io_error) res" where
  "udp_max_gso_segments poisoned = read_unwrap poisoned max_gso_segments"

definition udp_gro_segments :: "bool \<Rightarrow> udp_socket \<Rightarrow> (nat, io_error) res" where
  "udp_gro_segments poisoned = read_unwrap poisoned gro_segments"

text \<open>Dropping: the socket that is still open is closed by a blocking task of the runtime, in place
  when there is none.\<close>

datatype close_action = CloseInTask os_socket | CloseHere os_socket | NothingToClose | DropPanic

definition udp_drop :: "bool \<Rightarrow> bool \<Rightarrow> udp_socket \<Rightarrow> close_action" where
  "udp_drop poisoned runtime u =
     (if poisoned then DropPanic
      else case fst (socket_close (us_state u)) of
          Some socket \<Rightarrow> if runtime then CloseInTask socket else CloseHere socket
        | None \<Rightarrow> NothingToClose)"

definition mark_broken :: "udp_socket \<Rightarrow> udp_socket" where
  "mark_broken u = u\<lparr>us_broken := True\<rparr>"

text \<open>\<^verbatim>\<open>wake_all\<close> takes both registered wakers and wakes their tasks.\<close>

definition wake_all :: "udp_socket \<Rightarrow> udp_socket \<times> task list" where
  "wake_all u =
     (u\<lparr>us_recv_waker := None, us_send_waker := None\<rparr>,
      (case us_recv_waker u of Some w \<Rightarrow> [w] | None \<Rightarrow> [])
      @ (case us_send_waker u of Some w \<Rightarrow> [w] | None \<Rightarrow> []))"

definition register_waker :: "side \<Rightarrow> task \<Rightarrow> udp_socket \<Rightarrow> udp_socket" where
  "register_waker side cx u =
     (case side of RecvSide \<Rightarrow> u\<lparr>us_recv_waker := Some cx\<rparr> | SendSide \<Rightarrow> u\<lparr>us_send_waker := Some cx\<rparr>)"

definition take_waker :: "side \<Rightarrow> udp_socket \<Rightarrow> udp_socket" where
  "take_waker side u =
     (case side of RecvSide \<Rightarrow> u\<lparr>us_recv_waker := None\<rparr> | SendSide \<Rightarrow> u\<lparr>us_send_waker := None\<rparr>)"

text \<open>The explicit calls wait for the lock and panic when it is poisoned.\<close>

definition lock_poisoned :: "udp_os \<Rightarrow> udp_socket \<Rightarrow> bool" where
  "lock_poisoned os u \<longleftrightarrow> os_try_read os (us_clock u) = LockPoisoned"

definition udp_rebind :: "udp_os \<Rightarrow> udp_socket \<Rightarrow> (unit, io_error) res \<times> udp_socket \<times> task list" where
  "udp_rebind os u =
     (if lock_poisoned os u then (Panic, u, [])
      else case socket_rebind os (us_clock u) (us_state u) of
        (Ok _, s) \<Rightarrow>
          (case wake_all (u\<lparr>us_state := s, us_broken := False, us_clock := Suc (us_clock u)\<rparr>) of
             (u', woken) \<Rightarrow> (Ok (), u', woken))
      | (r, s) \<Rightarrow> (r, u\<lparr>us_state := s, us_clock := Suc (us_clock u)\<rparr>, []))"

definition udp_close :: "udp_os \<Rightarrow> udp_socket \<Rightarrow> (unit, io_error) res \<times> udp_socket \<times> task list" where
  "udp_close os u =
     (if lock_poisoned os u then (Panic, u, [])
      else case socket_close (us_state u) of (_, s) \<Rightarrow> (Ok (), wake_all (u\<lparr>us_state := s\<rparr>)))"

definition udp_connect :: "udp_os \<Rightarrow> socket_addr \<Rightarrow> udp_socket \<Rightarrow> (unit, io_error) res \<times> udp_socket" where
  "udp_connect os addr u =
     (if lock_poisoned os u then (Panic, u)
      else (bind_res (try_get_connected (us_state u)) (\<lambda>_. os_connect os (us_clock u) addr),
            u\<lparr>us_clock := Suc (us_clock u)\<rparr>))"

definition udp_local_addr :: "udp_os \<Rightarrow> udp_socket \<Rightarrow> (socket_addr, io_error) res" where
  "udp_local_addr os u =
     (if lock_poisoned os u then Panic
      else bind_res (try_get_connected (us_state u)) (\<lambda>_. os_local_addr os (us_clock u)))"

text \<open>\<open>windows\<close> is the configuration switch; an error whose kind has no constructor of its own is
  identified by its raw code.\<close>

definition wsaenetreset :: nat where "wsaenetreset = 10052"

definition is_transient_read_error :: "bool \<Rightarrow> io_error \<Rightarrow> bool" where
  "is_transient_read_error windows error \<longleftrightarrow>
     (if error = ConnectionReset then True
      else if windows \<and> error = OtherIo wsaenetreset then True
      else False)"

definition handle_read_error :: "bool \<Rightarrow> io_error \<Rightarrow> udp_socket \<Rightarrow> io_error option \<times> udp_socket" where
  "handle_read_error windows error u =
     (if error = NotConnected then (None, mark_broken u)
      else if is_transient_read_error windows error then (None, u)
      else (Some error, u))"

definition handle_write_error :: "io_error \<Rightarrow> udp_socket \<Rightarrow> io_error option \<times> udp_socket" where
  "handle_write_error error u =
     (if error = BrokenPipe then (None, mark_broken u) else (Some error, u))"

primrec handle_error :: "side \<Rightarrow> bool \<Rightarrow> io_error \<Rightarrow> udp_socket \<Rightarrow> io_error option \<times> udp_socket" where
  "handle_error RecvSide = handle_read_error"
| "handle_error SendSide = (\<lambda>windows. handle_write_error)"

section \<open>Locks, rebinding, loops\<close>

datatype lock_outcome = Locked | LockPending | LockPanic

definition poll_read_socket ::
  "udp_os \<Rightarrow> side \<Rightarrow> task \<Rightarrow> udp_socket \<Rightarrow> lock_outcome \<times> udp_socket" where
  "poll_read_socket os side cx u =
     (case os_try_read os (us_clock u) of
        LockFree \<Rightarrow> (Locked, u)
      | LockPoisoned \<Rightarrow> (LockPanic, u)
      | LockBusy \<Rightarrow>
          let u1 = register_waker side cx u in
          (case os_try_read_again os (us_clock u) of
             LockFree \<Rightarrow> (Locked, take_waker side u1)
           | LockPoisoned \<Rightarrow> (LockPanic, u1)
           | LockBusy \<Rightarrow> (LockPending, u1)))"

text \<open>
  A rebind under the write lock. \<open>guards\<close> is the number of read guards the calling thread itself
  holds: the lock is not reentrant, so with one of them the thread waits forever.
\<close>

datatype rebind_outcome = RebindOk | RebindErr io_error | RebindPanic | RebindBlocked

text \<open>What follows the acquisition of the write lock; the flag is checked again there.\<close>

definition rebind_locked :: "udp_os \<Rightarrow> udp_socket \<Rightarrow> rebind_outcome \<times> udp_socket \<times> task list" where
  "rebind_locked os u =
     (if \<not> us_broken u then (RebindOk, u, [])
      else case socket_rebind os (us_clock u) (us_state u) of
          (Ok _, s) \<Rightarrow>
            (case wake_all (u\<lparr>us_state := s, us_broken := False, us_clock := Suc (us_clock u)\<rparr>) of
               (u', woken) \<Rightarrow> (RebindOk, u', woken))
        | (Err e, s) \<Rightarrow> (RebindErr e, u\<lparr>us_state := s, us_clock := Suc (us_clock u)\<rparr>, [])
        | (Panic, s) \<Rightarrow> (RebindPanic, u\<lparr>us_state := s, us_clock := Suc (us_clock u)\<rparr>, []))"

definition maybe_rebind ::
  "udp_os \<Rightarrow> nat \<Rightarrow> udp_socket \<Rightarrow> rebind_outcome \<times> udp_socket \<times> task list" where
  "maybe_rebind os guards u =
     (if \<not> us_broken u then (RebindOk, u, [])
      else if 0 < guards then (RebindBlocked, u, [])
      else rebind_locked os u)"

datatype 'a polled = PollReady "('a, io_error) res" | PollPending | PollBlocked

text \<open>One iteration of a poll loop: it returns, or the loop goes around again.\<close>

datatype 'a iter = Done "'a polled" | Again

definition after_error :: "bool \<Rightarrow> side \<Rightarrow> io_error \<Rightarrow> udp_socket \<Rightarrow> 'a iter \<times> udp_socket" where
  "after_error windows side e u =
     (case handle_error side windows e u of
        (Some err, u') \<Rightarrow> (Done (PollReady (Err err)), u')
      | (None, u') \<Rightarrow> (Again, u'))"

text \<open>The operation on the inner socket once the lock is held: readiness, then the operation itself.\<close>

definition poll_inner ::
  "udp_os \<Rightarrow> side \<Rightarrow> (nat \<Rightarrow> ('a, io_error) res) \<Rightarrow> task \<Rightarrow> udp_socket \<Rightarrow> 'a iter \<times> udp_socket" where
  "poll_inner os side operation cx u =
     (case try_get_connected (us_state u) of
        Err e \<Rightarrow> (Done (PollReady (Err e)), u)
      | Panic \<Rightarrow> (Done (PollReady Panic), u)
      | Ok _ \<Rightarrow>
          let n = us_clock u; u1 = u\<lparr>us_clock := Suc n\<rparr> in
          (case os_ready os n of
             NotReady \<Rightarrow> (Done PollPending, register_waker side cx u1)
           | ReadyErr e \<Rightarrow> after_error (os_windows os) side e u1
           | IsReady \<Rightarrow>
               (case operation n of
                  Ok a \<Rightarrow> (Done (PollReady (Ok a)), u1)
                | Panic \<Rightarrow> (Done (PollReady Panic), u1)
                | Err e \<Rightarrow> if e = WouldBlock then (Again, u1) else after_error (os_windows os) side e u1)))"

definition poll_iter ::
  "udp_os \<Rightarrow> nat \<Rightarrow> side \<Rightarrow> (nat \<Rightarrow> ('a, io_error) res) \<Rightarrow> task \<Rightarrow> udp_socket
     \<Rightarrow> 'a iter \<times> udp_socket \<times> task list" where
  "poll_iter os guards side operation cx u =
     (case maybe_rebind os guards u of
        (RebindErr e, u1, woken) \<Rightarrow> (Done (PollReady (Err e)), u1, woken)
      | (RebindPanic, u1, woken) \<Rightarrow> (Done (PollReady Panic), u1, woken)
      | (RebindBlocked, u1, woken) \<Rightarrow> (Done PollBlocked, u1, woken)
      | (RebindOk, u1, woken) \<Rightarrow>
          (case poll_read_socket os side cx u1 of
             (LockPending, u2) \<Rightarrow> (Done PollPending, u2, woken)
           | (LockPanic, u2) \<Rightarrow> (Done (PollReady Panic), u2, woken)
           | (Locked, u2) \<Rightarrow>
               (case poll_inner os side operation cx u2 of (r, u3) \<Rightarrow> (r, u3, woken))))"

text \<open>The loop, with fuel; \<open>None\<close> is a loop that has not returned.\<close>

primrec poll_loop ::
  "nat \<Rightarrow> udp_os \<Rightarrow> nat \<Rightarrow> side \<Rightarrow> (nat \<Rightarrow> ('a, io_error) res) \<Rightarrow> task \<Rightarrow> udp_socket
     \<Rightarrow> ('a polled \<times> udp_socket) option" where
  "poll_loop 0 os guards side operation cx u = None"
| "poll_loop (Suc fuel) os guards side operation cx u =
     (case poll_iter os guards side operation cx u of
        (Done r, u', _) \<Rightarrow> Some (r, u')
      | (Again, u', _) \<Rightarrow> poll_loop fuel os guards side operation cx u')"

section \<open>The futures and the sender\<close>

definition recv_fut_poll ::
  "nat \<Rightarrow> udp_os \<Rightarrow> nat \<Rightarrow> task \<Rightarrow> udp_socket \<Rightarrow> ((nat \<times> bytes) polled \<times> udp_socket) option" where
  "recv_fut_poll fuel os len =
     poll_loop fuel os 0 RecvSide (\<lambda>n. map_res (\<lambda>datagram. recv_into datagram len) (os_recv os n))"

definition recv_from_fut_poll ::
  "nat \<Rightarrow> udp_os \<Rightarrow> nat \<Rightarrow> task \<Rightarrow> udp_socket
     \<Rightarrow> (((nat \<times> bytes) \<times> socket_addr) polled \<times> udp_socket) option" where
  "recv_from_fut_poll fuel os len =
     poll_loop fuel os 0 RecvSide
       (\<lambda>n. map_res (\<lambda>(datagram, src). (recv_into datagram len, src)) (os_recv_from os n))"

definition send_fut_poll ::
  "nat \<Rightarrow> udp_os \<Rightarrow> bytes \<Rightarrow> task \<Rightarrow> udp_socket \<Rightarrow> (nat polled \<times> udp_socket) option" where
  "send_fut_poll fuel os buffer = poll_loop fuel os 0 SendSide (\<lambda>n. os_send os n buffer)"

definition send_to_fut_poll ::
  "nat \<Rightarrow> udp_os \<Rightarrow> bytes \<Rightarrow> socket_addr \<Rightarrow> task \<Rightarrow> udp_socket \<Rightarrow> (nat polled \<times> udp_socket) option" where
  "send_to_fut_poll fuel os buffer to = poll_loop fuel os 0 SendSide (\<lambda>n. os_send_to os n buffer to)"

definition poll_recv_noq ::
  "nat \<Rightarrow> udp_os \<Rightarrow> task \<Rightarrow> udp_socket \<Rightarrow> (nat polled \<times> udp_socket) option" where
  "poll_recv_noq fuel os = poll_loop fuel os 0 RecvSide (os_recv_noq os)"

definition poll_send_noq ::
  "nat \<Rightarrow> udp_os \<Rightarrow> task \<Rightarrow> udp_socket \<Rightarrow> (unit polled \<times> udp_socket) option" where
  "poll_send_noq fuel os = poll_loop fuel os 0 SendSide (os_send_noq os)"

text \<open>The same loop again in \<^verbatim>\<open>SendFutNoq\<close>.\<close>

definition send_fut_noq_poll ::
  "nat \<Rightarrow> udp_os \<Rightarrow> task \<Rightarrow> udp_socket \<Rightarrow> (unit polled \<times> udp_socket) option" where
  "send_fut_noq_poll fuel os = poll_loop fuel os 0 SendSide (os_send_noq os)"

text \<open>Polling for writability is the loop without an operation; \<open>guards\<close> are those of its caller.\<close>

definition poll_writable ::
  "nat \<Rightarrow> udp_os \<Rightarrow> nat \<Rightarrow> task \<Rightarrow> udp_socket \<Rightarrow> (unit polled \<times> udp_socket) option" where
  "poll_writable fuel os guards = poll_loop fuel os guards SendSide (\<lambda>n. Ok ())"

text \<open>\<^verbatim>\<open>UdpSender::poll_send\<close> polls for writability while it holds the read guard it took before.\<close>

primrec sender_poll_send ::
  "nat \<Rightarrow> udp_os \<Rightarrow> task \<Rightarrow> udp_socket \<Rightarrow> (unit polled \<times> udp_socket) option" where
  "sender_poll_send 0 os cx u = None"
| "sender_poll_send (Suc fuel) os cx u =
     (case maybe_rebind os 0 u of
        (RebindErr e, u1, woken) \<Rightarrow> Some (PollReady (Err e), u1)
      | (RebindPanic, u1, woken) \<Rightarrow> Some (PollReady Panic, u1)
      | (RebindBlocked, u1, woken) \<Rightarrow> Some (PollBlocked, u1)
      | (RebindOk, u1, woken) \<Rightarrow>
          (case poll_read_socket os SendSide cx u1 of
             (LockPending, u2) \<Rightarrow> Some (PollPending, u2)
           | (LockPanic, u2) \<Rightarrow> Some (PollReady Panic, u2)
           | (Locked, u2) \<Rightarrow>
               (case poll_writable (Suc fuel) os 1 cx u2 of
                  None \<Rightarrow> None
                | Some (PollReady (Ok _), u3) \<Rightarrow>
                    (case try_get_connected (us_state u3) of
                       Err e \<Rightarrow> Some (PollReady (Err e), u3)
                     | Panic \<Rightarrow> Some (PollReady Panic, u3)
                     | Ok _ \<Rightarrow>
                         let u4 = u3\<lparr>us_clock := Suc (us_clock u3)\<rparr> in
                         if os_send_noq os (us_clock u3) = Err WouldBlock
                         then sender_poll_send fuel os cx u4
                         else Some (PollReady (os_send_noq os (us_clock u3)), u4))
                | Some (r, u3) \<Rightarrow> Some (r, u3))))"

text \<open>Sending without waiting: a busy lock is reported as \<^verbatim>\<open>WouldBlock\<close>.\<close>

primrec try_send_noq :: "nat \<Rightarrow> udp_os \<Rightarrow> udp_socket \<Rightarrow> ((unit, io_error) res \<times> udp_socket) option" where
  "try_send_noq 0 os u = None"
| "try_send_noq (Suc fuel) os u =
     (case maybe_rebind os 0 u of
        (RebindErr e, u1, woken) \<Rightarrow> Some (Err e, u1)
      | (RebindPanic, u1, woken) \<Rightarrow> Some (Panic, u1)
      | (RebindBlocked, u1, woken) \<Rightarrow> None
      | (RebindOk, u1, woken) \<Rightarrow>
          (case os_try_read os (us_clock u1) of
             LockPoisoned \<Rightarrow> Some (Panic, u1)
           | LockBusy \<Rightarrow> Some (Err WouldBlock, u1)
           | LockFree \<Rightarrow>
               (case try_get_connected (us_state u1) of
                  Err e \<Rightarrow> Some (Err e, u1)
                | Panic \<Rightarrow> Some (Panic, u1)
                | Ok _ \<Rightarrow>
                    let u2 = u1\<lparr>us_clock := Suc (us_clock u1)\<rparr> in
                    (case os_send_noq os (us_clock u1) of
                       Ok () \<Rightarrow> Some (Ok (), u2)
                     | Panic \<Rightarrow> Some (Panic, u2)
                     | Err err \<Rightarrow>
                         (case handle_write_error err u2 of
                            (Some e, u3) \<Rightarrow> Some (Err e, u3)
                          | (None, u3) \<Rightarrow> try_send_noq fuel os u3)))))"

definition sender_try_send :: "udp_os \<Rightarrow> udp_socket \<Rightarrow> (unit, io_error) res \<times> udp_socket" where
  "sender_try_send os u =
     (case maybe_rebind os 0 u of
        (RebindErr e, u1, woken) \<Rightarrow> (Err e, u1)
      | (RebindPanic, u1, woken) \<Rightarrow> (Panic, u1)
      | (RebindBlocked, u1, woken) \<Rightarrow> (Panic, u1)
      | (RebindOk, u1, woken) \<Rightarrow>
          (case os_try_read os (us_clock u1) of
             LockPoisoned \<Rightarrow> (Panic, u1)
           | LockBusy \<Rightarrow> (Err WouldBlock, u1)
           | LockFree \<Rightarrow>
               (bind_res (try_get_connected (us_state u1)) (\<lambda>_. os_send_noq os (us_clock u1)),
                u1\<lparr>us_clock := Suc (us_clock u1)\<rparr>)))"

section \<open>Facts\<close>

lemma maybe_rebind_unguarded: "maybe_rebind os 0 u = rebind_locked os u"
  by (simp add: maybe_rebind_def rebind_locked_def)

lemma rebind_locked_not_blocked: "fst (rebind_locked os u) \<noteq> RebindBlocked"
  by (auto simp: rebind_locked_def split: prod.splits res.splits)

lemma wake_all_fields [simp]:
  "us_state (fst (wake_all u)) = us_state u" "us_broken (fst (wake_all u)) = us_broken u"
  "us_clock (fst (wake_all u)) = us_clock u"
  by (simp_all add: wake_all_def)

text \<open>What a rebind under the lock does, by its outcome.\<close>

lemma rebind_locked_cases:
  obtains (not_needed) "\<not> us_broken u" "rebind_locked os u = (RebindOk, u, [])"
    | (rebound) s u' woken where "us_broken u" "socket_bind os (us_clock u) (socket_addr_of (us_state u)) = Ok s"
        "rebind_locked os u = (RebindOk, u', woken)" "us_state u' = s" "\<not> us_broken u'"
        "us_clock u' = Suc (us_clock u)" "us_recv_waker u' = None" "us_send_waker u' = None"
        "woken = snd (wake_all u)"
    | (failed) r u' where "us_broken u" "rebind_locked os u = (r, u', [])" "r \<noteq> RebindOk"
        "us_state u' = to_closed (us_state u)" "us_broken u'" "us_clock u' = Suc (us_clock u)"
        "r = (case socket_bind os (us_clock u) (socket_addr_of (us_state u)) of
            Err e \<Rightarrow> RebindErr e | _ \<Rightarrow> RebindPanic)"
proof (cases "us_broken u")
  case broken: True
  show thesis
  proof (cases "socket_bind os (us_clock u) (socket_addr_of (us_state u))")
    case (Ok s)
    let ?v = "fst (wake_all (u\<lparr>us_state := s, us_broken := False, us_clock := Suc (us_clock u)\<rparr>))"
    show thesis
      by (rule rebound [of s ?v "snd (wake_all u)"])
        (use broken Ok in \<open>simp_all add: rebind_locked_def socket_rebind_def wake_all_def\<close>)
  next
    case (Err e)
    let ?v = "u\<lparr>us_state := to_closed (us_state u), us_clock := Suc (us_clock u)\<rparr>"
    show thesis
      by (rule failed [of "RebindErr e" ?v])
        (use broken Err in \<open>simp_all add: rebind_locked_def socket_rebind_def\<close>)
  next
    case Panic
    let ?v = "u\<lparr>us_state := to_closed (us_state u), us_clock := Suc (us_clock u)\<rparr>"
    show thesis
      by (rule failed [of RebindPanic ?v])
        (use broken Panic in \<open>simp_all add: rebind_locked_def socket_rebind_def\<close>)
  qed
next
  case False
  then show thesis by (intro not_needed) (simp_all add: rebind_locked_def)
qed

lemma handle_error_fields:
  assumes "handle_error side windows e u = (r, u')"
  shows "us_state u' = us_state u" "us_clock u' = us_clock u"
  using assms
  by (cases side; auto simp: handle_read_error_def handle_write_error_def mark_broken_def split: if_splits)+

lemma register_waker_fields [simp]:
  "us_state (register_waker side cx u) = us_state u" "us_clock (register_waker side cx u) = us_clock u"
  "us_broken (register_waker side cx u) = us_broken u"
  by (cases side; simp add: register_waker_def)+

lemma take_waker_fields [simp]:
  "us_state (take_waker side u) = us_state u" "us_clock (take_waker side u) = us_clock u"
  "us_broken (take_waker side u) = us_broken u"
  by (cases side; simp add: take_waker_def)+

lemma poll_read_socket_fields:
  assumes "poll_read_socket os side cx u = (r, u')"
  shows "us_state u' = us_state u \<and> us_clock u' = us_clock u \<and> us_broken u' = us_broken u"
  using assms by (auto simp: poll_read_socket_def Let_def split: lock_answer.splits)

lemma after_error_state:
  assumes "after_error windows side e u = (r, u')"
  shows "us_state u' = us_state u"
  using assms by (auto simp: after_error_def split: prod.splits option.splits dest: handle_error_fields(1))

lemma poll_inner_state:
  assumes "poll_inner os side operation cx u = (r, u')"
  shows "us_state u' = us_state u"
  using assms
  by (auto simp: poll_inner_def Let_def split: res.splits ready_answer.splits if_splits dest!: after_error_state)

text \<open>Outside a rebind the socket state does not change; a rebind keeps the port.\<close>

lemma socket_bind_port:
  assumes "socket_bind os n addr = Ok s" and "snd addr \<noteq> 0"
  shows "snd (socket_addr_of s) = snd addr \<and> \<not> is_closed s"
  using assms by (auto simp: socket_bind_def Let_def bind_res_eq_Ok split: if_splits)

lemma to_closed_simps [simp]:
  "socket_addr_of (to_closed s) = socket_addr_of s" "is_closed (to_closed s)"
  "may_fragment (to_closed s) = may_fragment s" "max_gso_segments (to_closed s) = max_gso_segments s"
  "gro_segments (to_closed s) = gro_segments s"
  by (cases s; simp)+

definition bound_port :: "udp_socket \<Rightarrow> u16" where
  "bound_port u = snd (socket_addr_of (us_state u))"

lemma rebind_locked_port:
  assumes "rebind_locked os u = (r, u', woken)" and "bound_port u \<noteq> 0"
  shows "bound_port u' = bound_port u"
proof (cases rule: rebind_locked_cases [where os = os and u = u])
  case (rebound s v w)
  then show ?thesis using assms socket_bind_port by (auto simp: bound_port_def)
qed (use assms in \<open>auto simp: bound_port_def\<close>)

lemma maybe_rebind_port:
  assumes "maybe_rebind os guards u = (r, u', woken)" and "bound_port u \<noteq> 0"
  shows "bound_port u' = bound_port u"
  using assms rebind_locked_port by (auto simp: maybe_rebind_def split: if_splits)

lemma poll_iter_port:
  assumes "poll_iter os guards side operation cx u = (r, u', woken)" and "bound_port u \<noteq> 0"
  shows "bound_port u' = bound_port u"
proof -
  obtain o1 u1 w where mr: "maybe_rebind os guards u = (o1, u1, w)" by (metis prod_cases3)
  then have p1: "bound_port u1 = bound_port u" using assms(2) by (rule maybe_rebind_port)
  obtain l u2 where rs: "poll_read_socket os side cx u1 = (l, u2)" by force
  then have p2: "bound_port u2 = bound_port u1" by (simp add: bound_port_def poll_read_socket_fields)
  obtain i u3 where pi: "poll_inner os side operation cx u2 = (i, u3)" by force
  then have p3: "bound_port u3 = bound_port u2" by (simp add: bound_port_def poll_inner_state)
  show ?thesis using assms(1) mr rs pi p1 p2 p3
    by (auto simp: poll_iter_def split: rebind_outcome.splits lock_outcome.splits)
qed

lemma poll_loop_port:
  assumes "poll_loop fuel os guards side operation cx u = Some (r, u')" and "bound_port u \<noteq> 0"
  shows "bound_port u' = bound_port u"
  using assms
proof (induction fuel arbitrary: u)
  case (Suc fuel)
  obtain i v w where it: "poll_iter os guards side operation cx u = (i, v, w)" by (metis prod_cases3)
  then have "bound_port v = bound_port u" using Suc.prems(2) by (rule poll_iter_port)
  with Suc it show ?case by (cases i) auto
qed simp

text \<open>With no guard of its own, a poll never waits for itself.\<close>

lemma poll_iter_not_blocked: "fst (poll_iter os 0 side operation cx u) \<noteq> Done PollBlocked"
proof -
  obtain o1 u1 w where mr: "maybe_rebind os 0 u = (o1, u1, w)" by (metis prod_cases3)
  then have "o1 \<noteq> RebindBlocked" using rebind_locked_not_blocked [of os u]
    by (simp add: maybe_rebind_unguarded)
  moreover have "fst (poll_inner os side operation cx v) \<noteq> Done PollBlocked" for v
    by (auto simp: poll_inner_def after_error_def Let_def
        split: res.splits ready_answer.splits prod.splits option.splits)
  ultimately show ?thesis
    by (auto simp: poll_iter_def mr split: rebind_outcome.splits lock_outcome.splits prod.splits)
      (metis fst_conv)
qed

text \<open>An answer of the system that ends a poll: not ready, success, or an error the loop does not
  retry.\<close>

primrec retried :: "side \<Rightarrow> bool \<Rightarrow> io_error \<Rightarrow> bool" where
  "retried RecvSide windows e \<longleftrightarrow>
     e = NotConnected \<or> e = ConnectionReset \<or> (windows \<and> e = OtherIo wsaenetreset)"
| "retried SendSide windows e \<longleftrightarrow> e = BrokenPipe"

definition conclusive :: "udp_os \<Rightarrow> side \<Rightarrow> (nat \<Rightarrow> ('a, io_error) res) \<Rightarrow> nat \<Rightarrow> bool" where
  "conclusive os side operation n \<longleftrightarrow>
     (case os_ready os n of
        NotReady \<Rightarrow> True
      | ReadyErr e \<Rightarrow> \<not> retried side (os_windows os) e
      | IsReady \<Rightarrow> (case operation n of Err e \<Rightarrow> e \<noteq> WouldBlock \<and> \<not> retried side (os_windows os) e | _ \<Rightarrow> True))"

lemma handle_error_retried: "fst (handle_error side windows e u) = (if retried side windows e then None else Some e)"
  by (cases side) (auto simp: handle_read_error_def handle_write_error_def is_transient_read_error_def)

lemma after_error_Again:
  "after_error windows side e u = (Again, u') \<Longrightarrow> retried side windows e \<and> us_clock u' = us_clock u"
  using handle_error_retried [of side windows e u] handle_error_fields(2) [of side windows e u]
  by (auto simp: after_error_def split: prod.splits option.splits if_splits)

lemma after_error_Done:
  "after_error windows side e u = (Done r, u') \<Longrightarrow> \<not> retried side windows e \<and> r = PollReady (Err e)"
  using handle_error_retried [of side windows e u]
  by (auto simp: after_error_def split: prod.splits option.splits if_splits)

lemma poll_inner_again:
  assumes "poll_inner os side operation cx u = (Again, u')"
  shows "us_clock u' = Suc (us_clock u) \<and> \<not> conclusive os side operation (us_clock u)"
  using assms
  by (auto simp: poll_inner_def conclusive_def Let_def dest!: after_error_Again
      split: res.splits ready_answer.splits if_splits)

lemma maybe_rebind_clock:
  assumes "maybe_rebind os guards u = (r, u', woken)"
  shows "us_clock u \<le> us_clock u'"
proof (cases "us_broken u \<and> guards = 0")
  case True
  then have "rebind_locked os u = (r, u', woken)" using assms by (simp add: maybe_rebind_def)
  then show ?thesis by (cases rule: rebind_locked_cases [where os = os and u = u]) auto
qed (use assms in \<open>auto simp: maybe_rebind_def split: if_splits\<close>)

lemma poll_iter_again:
  assumes "poll_iter os guards side operation cx u = (Again, u', woken)"
  shows "\<exists>n. us_clock u \<le> n \<and> us_clock u' = Suc n \<and> \<not> conclusive os side operation n"
proof -
  obtain o1 u1 w where mr: "maybe_rebind os guards u = (o1, u1, w)" by (metis prod_cases3)
  obtain l u2 where rs: "poll_read_socket os side cx u1 = (l, u2)" by force
  obtain i u3 where pi: "poll_inner os side operation cx u2 = (i, u3)" by force
  have "i = Again" "u' = u3" using assms mr rs pi
    by (auto simp: poll_iter_def split: rebind_outcome.splits lock_outcome.splits)
  with poll_inner_again [of os side operation cx u2 u3] pi
  have "us_clock u' = Suc (us_clock u2) \<and> \<not> conclusive os side operation (us_clock u2)" by simp
  moreover have "us_clock u \<le> us_clock u2"
    using maybe_rebind_clock [OF mr] poll_read_socket_fields [OF rs] by simp
  ultimately show ?thesis by blast
qed

lemma poll_loop_fuel:
  assumes "\<forall>n\<ge>N. conclusive os side operation n" and "N - us_clock u < fuel"
  shows "\<exists>r u'. poll_loop fuel os guards side operation cx u = Some (r, u')"
  using assms(2)
proof (induction fuel arbitrary: u)
  case (Suc fuel)
  obtain i v w where it: "poll_iter os guards side operation cx u = (i, v, w)" by (metis prod_cases3)
  show ?case
  proof (cases i)
    case Again
    then obtain n where n: "us_clock u \<le> n" "us_clock v = Suc n" "\<not> conclusive os side operation n"
      using poll_iter_again it by blast
    then have "n < N" using assms(1) by (meson not_le)
    then have "N - us_clock v < fuel" using n Suc.prems by linarith
    from Suc.IH [OF this] show ?thesis by (simp add: it Again)
  qed (simp add: it)
qed simp

text \<open>What a socket reports of the system survives closing and failed rebinds, and closing it leaves
  nothing for the drop.\<close>

lemma closed_capabilities [simp]:
  "may_fragment (to_closed s) = may_fragment s" "max_gso_segments (to_closed s) = max_gso_segments s"
  "gro_segments (to_closed s) = gro_segments s"
  by (cases s; simp)+

lemma socket_rebind_capabilities:
  assumes "socket_rebind os n s = (r, s')" and "r \<noteq> Ok ()"
  shows "may_fragment s' = may_fragment s" "max_gso_segments s' = max_gso_segments s"
    "gro_segments s' = gro_segments s"
  using assms by (auto simp: socket_rebind_def Let_def split: res.splits)

lemma drop_after_close: "udp_close os u = (Ok (), u', woken) \<Longrightarrow> udp_drop False runtime u' = NothingToClose"
  by (cases "us_state u") (auto simp: udp_drop_def udp_close_def socket_close_def wake_all_def split: if_splits)

text \<open>
  Calls of the system return results or errors, and no thread panicked while it held the lock. Then
  no poll panics.
\<close>

definition os_no_panic :: "udp_os \<Rightarrow> bool" where
  "os_no_panic os \<longleftrightarrow> (\<forall>n.
     (\<forall>d. os_new os n d \<noteq> Panic) \<and> os_set_only_v6 os n \<noteq> Panic \<and> (\<forall>addr. os_bind os n addr \<noteq> Panic)
     \<and> os_set_nonblocking os n \<noteq> Panic \<and> os_from_std os n \<noteq> Panic \<and> os_socket_state os n \<noteq> Panic
     \<and> os_local_addr os n \<noteq> Panic \<and> (\<forall>addr. os_connect os n addr \<noteq> Panic)
     \<and> os_try_read os n \<noteq> LockPoisoned \<and> os_try_read_again os n \<noteq> LockPoisoned
     \<and> os_recv os n \<noteq> Panic \<and> os_recv_from os n \<noteq> Panic \<and> os_recv_noq os n \<noteq> Panic
     \<and> (\<forall>bs. os_send os n bs \<noteq> Panic) \<and> (\<forall>bs to. os_send_to os n bs to \<noteq> Panic) \<and> os_send_noq os n \<noteq> Panic)"

lemma socket_bind_no_Panic: "os_no_panic os \<Longrightarrow> socket_bind os n addr \<noteq> Panic"
  by (auto simp: os_no_panic_def socket_bind_def Let_def bind_res_eq_Panic simp del: split_paired_All
      split: if_splits)

lemma poll_read_socket_no_Panic: "os_no_panic os \<Longrightarrow> fst (poll_read_socket os side cx u) \<noteq> LockPanic"
  by (auto simp: os_no_panic_def poll_read_socket_def Let_def split: lock_answer.split)

lemma after_error_not_Panic: "fst (after_error windows side e u) \<noteq> Done (PollReady Panic)"
  by (simp add: after_error_def split: prod.split option.split)

lemma poll_iter_no_Panic:
  assumes "os_no_panic os" and "\<And>n. operation n \<noteq> Panic"
  shows "fst (poll_iter os guards side operation cx u) \<noteq> Done (PollReady Panic)"
proof -
  obtain o1 u1 w where mr: "maybe_rebind os guards u = (o1, u1, w)" by (metis prod_cases3)
  have "o1 \<noteq> RebindPanic"
    using mr socket_bind_no_Panic [OF assms(1)]
    by (auto simp: maybe_rebind_def rebind_locked_def socket_rebind_def Let_def simp del: split_paired_All
        split: if_splits prod.splits res.splits)
  moreover obtain l u2 where rs: "poll_read_socket os side cx u1 = (l, u2)" by force
  then have "l \<noteq> LockPanic" using poll_read_socket_no_Panic [OF assms(1), of side cx u1] by simp
  moreover have "fst (poll_inner os side operation cx v) \<noteq> Done (PollReady Panic)" for v
    using assms(2)
    by (auto simp: poll_inner_def after_error_not_Panic try_get_connected_def Let_def
        split: socket_state.splits res.splits ready_answer.splits)
  ultimately show ?thesis
    by (auto simp: poll_iter_def mr rs split: rebind_outcome.splits lock_outcome.splits prod.splits)
      (metis fst_conv)
qed

text \<open>A poll that returns: with a result or an error, or to be polled again; it neither panics nor waits
  for itself.\<close>

definition returns :: "('a polled \<times> udp_socket) option \<Rightarrow> bool" where
  "returns x \<longleftrightarrow>
     (case x of
        None \<Rightarrow> False
      | Some (r, u') \<Rightarrow> (case r of PollReady a \<Rightarrow> a \<noteq> Panic | PollPending \<Rightarrow> True | PollBlocked \<Rightarrow> False))"

lemma poll_loop_result:
  assumes "os_no_panic os" and "\<And>n. operation n \<noteq> Panic"
    and "poll_loop fuel os 0 side operation cx u = Some (r, u')"
  shows "r \<noteq> PollBlocked" and "r \<noteq> PollReady Panic"
proof -
  have "r \<noteq> PollBlocked \<and> r \<noteq> PollReady Panic"
    using assms(3)
  proof (induction fuel arbitrary: u)
    case (Suc fuel)
    then show ?case
      using poll_iter_not_blocked [of os side operation cx u]
        poll_iter_no_Panic [OF assms(1), where operation = operation, OF assms(2), of 0 side cx u]
      by (auto split: prod.splits iter.splits)
  qed simp
  then show "r \<noteq> PollBlocked" and "r \<noteq> PollReady Panic" by simp_all
qed

lemma poll_loop_returns_conclusive:
  assumes "os_no_panic os" and "\<And>n. operation n \<noteq> Panic" and "\<forall>n\<ge>N. conclusive os side operation n"
  shows "returns (poll_loop (Suc (N - us_clock u)) os 0 side operation cx u)"
proof -
  obtain r u' where "poll_loop (Suc (N - us_clock u)) os 0 side operation cx u = Some (r, u')"
    using poll_loop_fuel [OF assms(3) lessI] by blast
  with poll_loop_result [OF assms(1,2) this] show ?thesis
    by (cases r) (auto simp: returns_def simp del: poll_loop.simps)
qed

lemma conclusive_map_res [simp]:
  "conclusive os side (\<lambda>n. map_res f (operation n)) n = conclusive os side operation n"
  by (cases "operation n") (simp_all add: conclusive_def split: ready_answer.split)

section \<open>Properties\<close>

text \<open>C16: the polls of the socket return. Suppose the calls of the system do not panic, and from some
  instant on it answers the operation conclusively: not ready, a success, or an error that is not
  retried. Then a poll of any of the receive and send futures, of the \<^verbatim>\<open>noq\<close> operations, and for
  writability by a caller that holds no guard, returns a result, an error or pending within that many
  iterations, however many transient errors and rebinds come before; it neither panics nor waits for
  the lock it holds itself. (\<^verbatim>\<open>UdpSender::poll_send\<close>, which polls while it holds a guard, is not
  among them.)\<close>

theorem poll_loop_returns:
  fixes N :: nat and u :: udp_socket
  assumes "os_no_panic os"
  defines "fuel \<equiv> Suc (N - us_clock u)"
  shows "((\<forall>n\<ge>N. conclusive os RecvSide (os_recv os) n) \<longrightarrow> returns (recv_fut_poll fuel os len cx u))
    \<and> ((\<forall>n\<ge>N. conclusive os RecvSide (os_recv_from os) n) \<longrightarrow> returns (recv_from_fut_poll fuel os len cx u))
    \<and> ((\<forall>n\<ge>N. conclusive os SendSide (\<lambda>n. os_send os n buffer) n)
        \<longrightarrow> returns (send_fut_poll fuel os buffer cx u))
    \<and> ((\<forall>n\<ge>N. conclusive os SendSide (\<lambda>n. os_send_to os n buffer to) n)
        \<longrightarrow> returns (send_to_fut_poll fuel os buffer to cx u))
    \<and> ((\<forall>n\<ge>N. conclusive os RecvSide (os_recv_noq os) n) \<longrightarrow> returns (poll_recv_noq fuel os cx u))
    \<and> ((\<forall>n\<ge>N. conclusive os SendSide (os_send_noq os) n)
        \<longrightarrow> returns (poll_send_noq fuel os cx u) \<and> returns (send_fut_noq_poll fuel os cx u))
    \<and> ((\<forall>n\<ge>N. conclusive os SendSide (\<lambda>n. Ok ()) n) \<longrightarrow> returns (poll_writable fuel os 0 cx u))"
  unfolding fuel_def recv_fut_poll_def recv_from_fut_poll_def send_fut_poll_def send_to_fut_poll_def
    poll_recv_noq_def poll_send_noq_def send_fut_noq_poll_def poll_writable_def
  by (intro conjI impI; rule poll_loop_returns_conclusive [OF assms(1)])
    (use assms(1) in \<open>simp_all add: os_no_panic_def map_res_eq del: split_paired_All\<close>)

text \<open>A system that resets the connection three times and then delivers a datagram.\<close>

definition sample_os :: udp_os where
  "sample_os =
     \<lparr>os_windows = False, os_new = (\<lambda>_ _. Ok ()), os_set_buffer_size = (\<lambda>_ _. Ok ()), os_set_only_v6 = (\<lambda>_. Ok ()),
      os_bind = (\<lambda>_ _. Ok ()), os_set_nonblocking = (\<lambda>_. Ok ()), os_from_std = (\<lambda>_. Ok ()),
      os_socket_state = (\<lambda>n. Ok \<lparr>os_id = n, os_max_gso_segments = 1, os_gro_segments = 1,
        os_may_fragment = False\<rparr>),
      os_local_addr = (\<lambda>_. Ok (V4 (Ipv4 10 0 0 2), 4000)), os_connect = (\<lambda>_ _. Ok ()),
      os_try_read = (\<lambda>_. LockFree), os_try_read_again = (\<lambda>_. LockFree), os_ready = (\<lambda>_. IsReady),
      os_recv = (\<lambda>n. if n < 3 then Err ConnectionReset else Ok [1, 2, 3]),
      os_recv_from = (\<lambda>n. Err (OtherIo 1)), os_recv_noq = (\<lambda>n. Ok 0),
      os_send = (\<lambda>_ bs. Ok (length bs)), os_send_to = (\<lambda>_ bs _. Ok (length bs)),
      os_send_noq = (\<lambda>_. Ok ())\<rparr>"

definition sample_socket :: udp_socket where
  "sample_socket =
     \<lparr>us_state = Connected \<lparr>os_id = 0, os_max_gso_segments = 1, os_gro_segments = 1,
        os_may_fragment = False\<rparr> (V4 (Ipv4 10 0 0 2), 4000),
      us_recv_waker = None, us_send_waker = None, us_broken = False, us_clock = 0\<rparr>"

lemma sample_os_no_panic: "os_no_panic sample_os"
  by (simp add: os_no_panic_def sample_os_def)

theorem poll_loop_returns_witness:
  "\<exists>r u'. recv_fut_poll 4 sample_os 16 7 sample_socket = Some (r, u') \<and> r \<noteq> PollBlocked"
proof -
  have "\<forall>n\<ge>3. conclusive sample_os RecvSide (os_recv sample_os) n"
    by (simp add: conclusive_def sample_os_def)
  then have "returns (recv_fut_poll (Suc (3 - us_clock sample_socket)) sample_os 16 7 sample_socket)"
    using poll_loop_returns [OF sample_os_no_panic, of 3 sample_socket 16 7] by blast
  moreover have "Suc (3 - us_clock sample_socket) = 4" by (simp add: sample_socket_def)
  ultimately show ?thesis by (auto simp: returns_def split: option.splits prod.splits polled.splits)
qed

lemma poll_iter_recv_error:
  assumes "poll_iter os guards RecvSide operation cx u = (Done (PollReady (Err e)), u', woken)"
  shows "\<not> retried RecvSide (os_windows os) e \<or> (\<exists>n addr. socket_bind os n addr = Err e)"
proof -
  obtain o1 u1 w where mr: "maybe_rebind os guards u = (o1, u1, w)" by (metis prod_cases3)
  have rebind: "\<exists>n addr. socket_bind os n addr = Err e'" if "o1 = RebindErr e'" for e'
    using mr that
    by (cases rule: rebind_locked_cases [where os = os and u = u])
      (auto simp: maybe_rebind_def simp del: split_paired_Ex split: if_splits res.splits)
  have inner: "\<not> retried RecvSide (os_windows os) e" if "poll_inner os RecvSide operation cx v = (Done (PollReady (Err e)), v')"
    for v v'
    using that
    by (auto simp: poll_inner_def try_get_connected_def Let_def dest!: after_error_Done
        split: socket_state.splits ready_answer.splits res.splits if_splits)
  show ?thesis using assms mr rebind inner
    by (auto simp: poll_iter_def split: rebind_outcome.splits lock_outcome.splits prod.splits)
qed

lemma poll_loop_recv_error:
  assumes "poll_loop fuel os guards RecvSide operation cx u = Some (PollReady (Err e), u')"
  shows "\<not> retried RecvSide (os_windows os) e \<or> (\<exists>n addr. socket_bind os n addr = Err e)"
  using assms
proof (induction fuel arbitrary: u)
  case (Suc fuel)
  obtain i v w where it: "poll_iter os guards RecvSide operation cx u = (i, v, w)" by (metis prod_cases3)
  show ?case
  proof (cases i)
    case Again
    then show ?thesis using Suc it by simp
  next
    case (Done r)
    then have "r = PollReady (Err e)" using Suc.prems it by simp
    then show ?thesis using poll_iter_recv_error it Done by blast
  qed
qed simp

text \<open>a receive never fails because of a reset, a disconnected socket or, on Windows, a network reset: an
  error of one of these kinds reaches the caller of a receive only if rebinding the socket failed with it.\<close>

theorem recv_error_not_transient:
  assumes "recv_fut_poll fuel os len cx u = Some (PollReady (Err e), u')"
    and "e = ConnectionReset \<or> e = NotConnected \<or> (os_windows os \<and> e = OtherIo wsaenetreset)"
  shows "\<exists>n addr. socket_bind os n addr = Err e"
proof -
  have "\<not> retried RecvSide (os_windows os) e \<or> (\<exists>n addr. socket_bind os n addr = Err e)"
    using assms(1) unfolding recv_fut_poll_def by (rule poll_loop_recv_error)
  then show ?thesis using assms(2) by auto
qed

theorem recv_error_not_transient_witness:
  "recv_fut_poll 1 (sample_os\<lparr>os_bind := (\<lambda>_ _. Err NotConnected)\<rparr>) 16 7 (mark_broken sample_socket)
     = Some (PollReady (Err NotConnected),
         mark_broken (sample_socket\<lparr>us_state := to_closed (us_state sample_socket), us_clock := 1\<rparr>))
   \<and> (\<exists>n addr. socket_bind (sample_os\<lparr>os_bind := (\<lambda>_ _. Err NotConnected)\<rparr>) n addr = Err NotConnected)"
proof -
  have "recv_fut_poll 1 (sample_os\<lparr>os_bind := (\<lambda>_ _. Err NotConnected)\<rparr>) 16 7 (mark_broken sample_socket)
      = Some (PollReady (Err NotConnected),
          mark_broken (sample_socket\<lparr>us_state := to_closed (us_state sample_socket), us_clock := 1\<rparr>))"
    by (simp add: recv_fut_poll_def poll_iter_def maybe_rebind_def rebind_locked_def socket_rebind_def
        socket_bind_def sample_os_def sample_socket_def mark_broken_def Let_def)
  with recv_error_not_transient [OF this] show ?thesis by simp
qed

text \<open>The operations of a socket in any order.\<close>

inductive udp_step :: "udp_socket \<Rightarrow> udp_socket \<Rightarrow> bool" where
  rebind: "udp_rebind os u = (r, u', woken) \<Longrightarrow> udp_step u u'"
| close: "udp_close os u = (r, u', woken) \<Longrightarrow> udp_step u u'"
| connect: "udp_connect os addr u = (r, u') \<Longrightarrow> udp_step u u'"
| recv: "recv_fut_poll fuel os len cx u = Some (r, u') \<Longrightarrow> udp_step u u'"
| recv_from: "recv_from_fut_poll fuel os len cx u = Some (r, u') \<Longrightarrow> udp_step u u'"
| send: "send_fut_poll fuel os buffer cx u = Some (r, u') \<Longrightarrow> udp_step u u'"
| send_to: "send_to_fut_poll fuel os buffer to cx u = Some (r, u') \<Longrightarrow> udp_step u u'"
| recv_noq: "poll_recv_noq fuel os cx u = Some (r, u') \<Longrightarrow> udp_step u u'"
| send_noq: "poll_send_noq fuel os cx u = Some (r, u') \<Longrightarrow> udp_step u u'"
| writable: "poll_writable fuel os guards cx u = Some (r, u') \<Longrightarrow> udp_step u u'"

lemmas poll_defs = recv_fut_poll_def recv_from_fut_poll_def send_fut_poll_def send_to_fut_poll_def
  poll_recv_noq_def poll_send_noq_def poll_writable_def

lemma udp_step_port:
  assumes "udp_step u u'" and "bound_port u \<noteq> 0"
  shows "bound_port u' = bound_port u"
  using assms
proof cases
  case (rebind os r woken)
  show ?thesis
  proof (cases "socket_bind os (us_clock u) (socket_addr_of (us_state u))")
    case (Ok s)
    then show ?thesis using rebind assms(2) socket_bind_port [OF Ok]
      by (auto simp: udp_rebind_def socket_rebind_def bound_port_def wake_all_def split: if_splits)
  qed (use rebind in \<open>auto simp: udp_rebind_def socket_rebind_def bound_port_def split: if_splits\<close>)
next
  case (close os r woken)
  then show ?thesis
    by (auto simp: udp_close_def socket_close_def wake_all_def bound_port_def split: socket_state.splits if_splits)
next
  case (connect os addr r)
  then show ?thesis by (auto simp: udp_connect_def bound_port_def split: if_splits)
qed (use assms(2) in \<open>simp_all add: poll_defs poll_loop_port\<close>)

text \<open>C4: a socket keeps its port: whatever the system answers, after any number of rebinds, closes,
  connects and polls the address a socket is, or is to be, bound to has the port of the first bind:
  the requested one, unless that was zero.\<close>

theorem udp_port_stable:
  assumes "bind_raw os n addr = Ok u" and "bound_port u \<noteq> 0" and "udp_step\<^sup>*\<^sup>* u u'"
  shows "bound_port u' = bound_port u \<and> (snd addr \<noteq> 0 \<longrightarrow> bound_port u' = snd addr)"
proof -
  have "bound_port u' = bound_port u"
    using assms(3,2) by (induction rule: rtranclp_induct) (auto simp: udp_step_port)
  moreover have "bound_port u = snd addr" if "snd addr \<noteq> 0"
    using assms(1) socket_bind_port [OF _ that] by (auto simp: bind_raw_def bound_port_def map_res_eq)
  ultimately show ?thesis by simp
qed

theorem udp_port_stable_witness:
  "\<exists>u u'. bind_raw sample_os 0 (V4 (Ipv4 10 0 0 2), 0) = Ok u \<and> udp_step\<^sup>*\<^sup>* u u' \<and> is_closed (us_state u')
     \<and> bound_port u' = 4000"
proof -
  obtain u where u: "bind_raw sample_os 0 (V4 (Ipv4 10 0 0 2), 0) = Ok u" and port: "bound_port u = 4000"
    and conn: "\<not> is_closed (us_state u)"
    by (auto simp: bind_raw_def socket_bind_def sample_os_def bound_port_def Let_def)
  obtain r u' woken where close: "udp_close sample_os u = (r, u', woken)" by (metis prod_cases3)
  then have "is_closed (us_state u')"
    by (auto simp: udp_close_def lock_poisoned_def sample_os_def socket_close_def wake_all_def split: socket_state.splits)
  moreover have step: "udp_step\<^sup>*\<^sup>* u u'" using udp_step.close [OF close] by blast
  ultimately show ?thesis using udp_port_stable [OF u _ step] port u by auto
qed

text \<open>C23: a broken socket recovers at the next poll: it is rebound to its own address, the flag is
  cleared, and both waiting tasks are woken; if that fails it is closed but stays marked, so that the
  next poll tries again. A second caller that waited for the lock meanwhile does nothing.\<close>

theorem maybe_rebind_recovers:
  assumes "us_broken u" and "maybe_rebind os 0 u = (r, u', woken)"
  shows "(r = RebindOk \<longleftrightarrow> is_ok (socket_bind os (us_clock u) (socket_addr_of (us_state u))))
    \<and> (r = RebindOk \<longrightarrow> \<not> us_broken u'
        \<and> socket_bind os (us_clock u) (socket_addr_of (us_state u)) = Ok (us_state u')
        \<and> set woken = set_option (us_recv_waker u) \<union> set_option (us_send_waker u)
        \<and> rebind_locked os' u' = (RebindOk, u', []))
    \<and> (r \<noteq> RebindOk \<longrightarrow> us_broken u' \<and> is_closed (us_state u')
        \<and> socket_addr_of (us_state u') = socket_addr_of (us_state u))"
proof -
  have rl: "rebind_locked os u = (r, u', woken)" using assms by (simp add: maybe_rebind_def)
  show ?thesis
  proof (cases rule: rebind_locked_cases [where os = os and u = u])
    case (rebound s v w)
    moreover have "set (snd (wake_all u)) = set_option (us_recv_waker u) \<union> set_option (us_send_waker u)"
      by (auto simp: wake_all_def split: option.splits)
    ultimately show ?thesis using rl by (auto simp: rebind_locked_def)
  next
    case (failed r2 v)
    have "\<not> is_ok (socket_bind os (us_clock u) (socket_addr_of (us_state u)))"
      using failed rl by (auto simp: is_ok_iff rebind_locked_def socket_rebind_def wake_all_def)
    then show ?thesis using failed rl by auto
  qed (use assms in auto)
qed

theorem maybe_rebind_recovers_witness:
  "\<exists>u' woken. maybe_rebind sample_os 0 (mark_broken (register_waker RecvSide 7 sample_socket))
     = (RebindOk, u', woken) \<and> \<not> us_broken u'"
proof -
  let ?u = "mark_broken (register_waker RecvSide 7 sample_socket)"
  have broken: "us_broken ?u" by (simp add: mark_broken_def)
  obtain u' woken where r: "maybe_rebind sample_os 0 ?u = (RebindOk, u', woken)"
    by (simp add: maybe_rebind_def rebind_locked_def socket_rebind_def socket_bind_def sample_os_def
        sample_socket_def mark_broken_def register_waker_def wake_all_def Let_def)
  from maybe_rebind_recovers [OF broken r] r show ?thesis by blast
qed

text \<open>C37: the sender can wait for itself: when the readiness poll reports a broken pipe,
  \<^verbatim>\<open>UdpSender::poll_send\<close> still holds its read guard while the nested poll for writability, which has
  just marked the socket broken, takes the write lock to rebind it.\<close>

theorem sender_poll_send_deadlock:
  assumes "\<not> us_broken u" and "\<not> is_closed (us_state u)"
    and "os_try_read os (us_clock u) = LockFree" and "os_ready os (us_clock u) = ReadyErr BrokenPipe"
  shows "\<exists>u'. sender_poll_send (Suc (Suc fuel)) os cx u = Some (PollBlocked, u')"
proof -
  obtain socket addr where s: "us_state u = Connected socket addr"
    using assms(2) by (cases "us_state u") simp_all
  let ?v = "u\<lparr>us_broken := True, us_clock := Suc (us_clock u)\<rparr>"
  have "poll_iter os 1 SendSide (\<lambda>n. Ok ()) cx u = (Again, ?v, [])"
    using assms s by (simp add: poll_iter_def maybe_rebind_def poll_read_socket_def poll_inner_def
        try_get_connected_def after_error_def handle_write_error_def mark_broken_def Let_def)
  moreover have "poll_iter os 1 SendSide (\<lambda>n. Ok ()) cx ?v = (Done PollBlocked, ?v, [])"
    by (simp add: poll_iter_def maybe_rebind_def)
  ultimately have "poll_writable (Suc (Suc fuel)) os 1 cx u = Some (PollBlocked, ?v)"
    by (simp add: poll_writable_def)
  then show ?thesis
    using assms by (simp add: maybe_rebind_def poll_read_socket_def)
qed

theorem sender_poll_send_deadlock_witness:
  "\<exists>u'. sender_poll_send 2 (sample_os\<lparr>os_ready := (\<lambda>_. ReadyErr BrokenPipe)\<rparr>) 7 sample_socket
     = Some (PollBlocked, u')"
proof -
  let ?os = "sample_os\<lparr>os_ready := (\<lambda>_. ReadyErr BrokenPipe)\<rparr>"
  have "\<not> us_broken sample_socket" "\<not> is_closed (us_state sample_socket)"
    "os_try_read ?os (us_clock sample_socket) = LockFree"
    "os_ready ?os (us_clock sample_socket) = ReadyErr BrokenPipe"
    by (simp_all add: sample_socket_def sample_os_def)
  from sender_poll_send_deadlock [OF this, of 0 7] show ?thesis by (simp add: numeral_2_eq_2)
qed

text \<open>a failed explicit rebind of a healthy socket is never retried: it leaves the socket closed and
  not marked broken, so every later poll that gets the lock fails with a broken pipe at once.\<close>

theorem failed_rebind_not_retried:
  assumes "\<not> us_broken u" and "udp_rebind os u = (Err e, u', woken)"
    and "os_try_read os' (us_clock u') = LockFree"
  shows "poll_loop (Suc fuel) os' guards side operation cx u' = Some (PollReady (Err BrokenPipe), u')"
proof -
  have "\<not> us_broken u'" and "is_closed (us_state u')"
    using assms(1,2) by (auto simp: udp_rebind_def socket_rebind_def wake_all_def split: res.splits if_splits)
  then show ?thesis using assms(3)
    by (cases "us_state u'") (simp_all add: poll_iter_def maybe_rebind_def poll_read_socket_def
        poll_inner_def try_get_connected_def)
qed

theorem failed_rebind_not_retried_witness:
  "\<exists>u'. udp_rebind (sample_os\<lparr>os_bind := (\<lambda>_ _. Err (OtherIo 98))\<rparr>) sample_socket = (Err (OtherIo 98), u', [])
     \<and> send_fut_poll 1 sample_os [1, 2, 3] 7 u' = Some (PollReady (Err BrokenPipe), u')"
proof -
  let ?os = "sample_os\<lparr>os_bind := (\<lambda>_ _. Err (OtherIo 98))\<rparr>"
  obtain u' where u': "udp_rebind ?os sample_socket = (Err (OtherIo 98), u', [])"
    by (simp add: udp_rebind_def lock_poisoned_def socket_rebind_def socket_bind_def sample_os_def sample_socket_def Let_def)
  have "poll_loop (Suc 0) sample_os 0 SendSide (\<lambda>n. os_send sample_os n [1, 2, 3]) 7 u'
      = Some (PollReady (Err BrokenPipe), u')"
    by (rule failed_rebind_not_retried [OF _ u']) (simp_all add: sample_socket_def sample_os_def)
  then show ?thesis using u' by (auto simp: send_fut_poll_def)
qed

text \<open>Closing a socket that is marked broken is not final: the next rebind check binds it again.\<close>

lemma close_of_broken_not_final:
  assumes "us_broken u" and "udp_close os' u = (Ok (), u1, woken)"
    and "socket_bind os (us_clock u) (socket_addr_of (us_state u)) = Ok s" and "bound_port u \<noteq> 0"
  shows "\<exists>u2 woken'. maybe_rebind os 0 u1 = (RebindOk, u2, woken') \<and> \<not> is_closed (us_state u2)"
proof -
  have u1: "us_broken u1" "us_clock u1 = us_clock u" "socket_addr_of (us_state u1) = socket_addr_of (us_state u)"
    using assms(1,2)
    by (auto simp: udp_close_def socket_close_def wake_all_def split: socket_state.splits if_splits)
  moreover have "\<not> is_closed s" using socket_bind_port [OF assms(3)] assms(4) by (simp add: bound_port_def)
  ultimately show ?thesis using assms(3)
    by (simp add: maybe_rebind_def rebind_locked_def socket_rebind_def wake_all_def)
qed

section \<open>The contract the port mapping clients rely on\<close>

text \<open>
  The socket as the clients use it: each call of a client is the operation of this theory on the
  socket that the calls before it left behind. A call is polled until it is ready, for at most
  \<open>fuel\<close> polls. For a receive this is the timeout of the caller; a send has no timeout, and one that
  does not complete gives the client no answer to go on with, which is \<open>Panic\<close> here: a claim about
  what the clients do needs the hypothesis that sends complete.
\<close>

primrec await :: "nat \<Rightarrow> (udp_socket \<Rightarrow> ('a polled \<times> udp_socket) option) \<Rightarrow> udp_socket
    \<Rightarrow> ('a, io_error) res option \<times> udp_socket" where
  "await 0 poll u = (None, u)"
| "await (Suc fuel) poll u =
     (case poll u of
        Some (PollReady r, u') \<Rightarrow> (Some r, u')
      | Some (PollPending, u') \<Rightarrow> await fuel poll u'
      | Some (PollBlocked, u') \<Rightarrow> (None, u')
      | None \<Rightarrow> (None, u))"

definition unbound_socket :: udp_socket where
  "unbound_socket =
     \<lparr>us_state = Closed (V4 ipv4_unspecified, 0) 1 1 False, us_recv_waker = None, us_send_waker = None,
      us_broken = False, us_clock = 0\<rparr>"

fun after_call :: "udp_os \<Rightarrow> nat \<Rightarrow> io_call \<Rightarrow> udp_socket \<Rightarrow> udp_socket" where
  "after_call os fuel (CallBind addr) u =
     (case bind_raw os (us_clock u) addr of Ok u' \<Rightarrow> u' | _ \<Rightarrow> u\<lparr>us_clock := Suc (us_clock u)\<rparr>)"
| "after_call os fuel (CallConnect addr) u = snd (udp_connect os addr u)"
| "after_call os fuel (CallSend bs) u = snd (await fuel (send_fut_poll fuel os bs 0) u)"
| "after_call os fuel (CallRecv d n) u = snd (await fuel (recv_fut_poll fuel os n 0) u)"

definition socket_after :: "udp_os \<Rightarrow> nat \<Rightarrow> io_log \<Rightarrow> udp_socket" where
  "socket_after os fuel log = fold (after_call os fuel) log unbound_socket"

definition udp_net_env :: "udp_os \<Rightarrow> nat \<Rightarrow> net_env" where
  "udp_net_env os fuel =
     (let u = socket_after os fuel in
      \<lparr>ans_bind = (\<lambda>log addr. map_res (\<lambda>_. ()) (bind_raw os (us_clock (u log)) addr)),
       ans_connect = (\<lambda>log addr. fst (udp_connect os addr (u log))),
       ans_send = (\<lambda>log bs. case fst (await fuel (send_fut_poll fuel os bs 0) (u log)) of
           Some r \<Rightarrow> r | None \<Rightarrow> Panic),
       ans_recv = (\<lambda>log n. fst (await fuel (recv_fut_poll fuel os n 0) (u log)))\<rparr>)"

definition sends_complete :: "udp_os \<Rightarrow> nat \<Rightarrow> bool" where
  "sends_complete os fuel \<longleftrightarrow> (\<forall>u bs. fst (await fuel (send_fut_poll fuel os bs 0) u) \<noteq> None)"

lemma poll_loop_Ok:
  assumes "poll_loop fuel os guards side operation cx u = Some (PollReady (Ok a), u')"
  shows "\<exists>n. operation n = Ok a"
  using assms
proof (induction fuel arbitrary: u)
  case (Suc fuel)
  obtain i v w where it: "poll_iter os guards side operation cx u = (i, v, w)" by (metis prod_cases3)
  show ?case
  proof (cases i)
    case Again
    then show ?thesis using Suc it by simp
  next
    case (Done r)
    then have r: "r = PollReady (Ok a)" using Suc.prems it by simp
    obtain o1 u1 w1 where mr: "maybe_rebind os guards u = (o1, u1, w1)" by (metis prod_cases3)
    obtain l u2 where rs: "poll_read_socket os side cx u1 = (l, u2)" by force
    obtain j u3 where pi: "poll_inner os side operation cx u2 = (j, u3)" by force
    have "j = Done (PollReady (Ok a))"
      using it Done r mr rs pi
      by (auto simp: poll_iter_def split: rebind_outcome.splits lock_outcome.splits)
    with pi show ?thesis
      by (auto simp: poll_inner_def Let_def dest!: after_error_Done
          split: res.splits ready_answer.splits if_splits)
  qed
qed simp

lemma await_result:
  assumes "fst (await fuel poll u) = Some r"
  shows "\<exists>v u'. poll v = Some (PollReady r, u')"
  using assms
  by (induction fuel arbitrary: u) (auto split: option.splits prod.splits polled.splits)

lemma recv_fut_poll_Ok:
  "recv_fut_poll fuel os n cx v = Some (PollReady (Ok (read, buffer)), u') \<Longrightarrow> length buffer = n \<and> read \<le> n"
  by (auto simp: recv_fut_poll_def map_res_eq dest!: poll_loop_Ok recv_into_bounds [OF sym])

lemma await_no_Panic:
  assumes "os_no_panic os"
  shows "fst (await fuel (send_fut_poll fuel os bs cx) u) \<noteq> Some Panic"
    and "fst (await fuel (recv_fut_poll fuel os n cx) u) \<noteq> Some Panic"
proof -
  have send: "\<And>k. os_send os k bs \<noteq> Panic"
    and recv: "\<And>k. map_res (\<lambda>datagram. recv_into datagram n) (os_recv os k) \<noteq> Panic"
    using assms by (simp_all add: os_no_panic_def map_res_eq)
  show "fst (await fuel (send_fut_poll fuel os bs cx) u) \<noteq> Some Panic"
    using poll_loop_result(2) [OF assms, where operation = "\<lambda>k. os_send os k bs", OF send] await_result
    unfolding send_fut_poll_def by blast
  show "fst (await fuel (recv_fut_poll fuel os n cx) u) \<noteq> Some Panic"
    using poll_loop_result(2) [OF assms, where operation =
        "\<lambda>k. map_res (\<lambda>datagram. recv_into datagram n) (os_recv os k)", OF recv] await_result
    unfolding recv_fut_poll_def by blast
qed

text \<open>Over a system whose calls do not panic, and with sends that complete, the socket keeps the contract
  of the clients.\<close>

locale udp_over_os =
  fixes os :: udp_os and fuel :: nat
  assumes no_panic: "os_no_panic os" and sends: "sends_complete os fuel"

sublocale udp_over_os \<subseteq> udp_env "udp_net_env os fuel"
proof
  fix log n read buffer
  assume "ans_recv (udp_net_env os fuel) log n = Some (Ok (read, buffer))"
  then show "length buffer = n \<and> read \<le> n"
    by (auto simp: udp_net_env_def Let_def dest!: await_result recv_fut_poll_Ok)
next
  fix log bs
  show "ans_send (udp_net_env os fuel) log bs \<noteq> Panic"
    using sends await_no_Panic(1) [OF no_panic, of fuel bs 0]
    by (auto simp: udp_net_env_def sends_complete_def Let_def split: option.split)
next
  fix log n
  show "ans_recv (udp_net_env os fuel) log n \<noteq> Some Panic"
    using await_no_Panic(2) [OF no_panic] by (simp add: udp_net_env_def Let_def)
next
  fix log addr
  show "ans_bind (udp_net_env os fuel) log addr \<noteq> Panic"
    using socket_bind_no_Panic [OF no_panic] by (simp add: udp_net_env_def bind_raw_def map_res_eq Let_def)
  show "ans_connect (udp_net_env os fuel) log addr \<noteq> Panic"
    using no_panic by (simp add: udp_net_env_def udp_connect_def lock_poisoned_def os_no_panic_def try_get_connected_def
        bind_res_eq_Panic Let_def del: split_paired_All split: socket_state.split)
qed

context udp_over_os
begin

lemma clients_env: "udp_env (udp_net_env os fuel)"
  by unfold_locales

end

text \<open>The system of the examples answers every send at once, also when the socket has to be rebound or
  is closed.\<close>

lemma sample_sends_complete: "sends_complete sample_os 1"
  unfolding sends_complete_def
proof (intro allI)
  fix u bs
  have "\<exists>r u'. send_fut_poll 1 sample_os bs 0 u = Some (PollReady r, u')"
    by (cases "us_state u") (auto simp: send_fut_poll_def poll_iter_def maybe_rebind_def rebind_locked_def
        socket_rebind_def socket_bind_def wake_all_def poll_read_socket_def poll_inner_def
        try_get_connected_def sample_os_def Let_def split: prod.split)
  then show "fst (await 1 (send_fut_poll 1 sample_os bs 0) u) \<noteq> None" by auto
qed

interpretation udp_clients: udp_over_os sample_os 1
  by unfold_locales (rule sample_os_no_panic, rule sample_sends_complete)

end
