(* ===== verification/Nat_Pmp.thy ===== *)
theory Nat_Pmp
  imports Nat_Pmp_Protocol Udp_Socket
begin

text \<open>
  The NAT-PMP client, \<^verbatim>\<open>portmapper/src/nat_pmp.rs\<close>: registering a mapping (a mapping request
  and an external address request), releasing it, and probing a gateway.
\<close>

section \<open>nat\_pmp.rs\<close>

definition nat_pmp_recv_timeout :: duration where "nat_pmp_recv_timeout = from_millis 500"

definition pmp_requested_lifetime_seconds :: u32 where "pmp_requested_lifetime_seconds = 60 * 60 * 2"

record pmp_mapping =
  pm_local_ip :: ipv4
  pm_local_port :: nzu16
  pm_gateway :: ipv4
  pm_external_port :: nzu16
  pm_external_addr :: ipv4
  pm_lifetime_seconds :: u32

datatype pmp_error =
    PmpUnexpectedServerResponse
  | PmpZeroExternalPort
  | PmpIo io_error
  | PmpProtocol pmp_decode_error

definition pmp_external :: "pmp_mapping \<Rightarrow> ipv4 \<times> nzu16" where
  "pmp_external m = (pm_external_addr m, pm_external_port m)"

definition pmp_half_lifetime :: "pmp_mapping \<Rightarrow> duration" where
  "pmp_half_lifetime m = from_secs (unat (pm_lifetime_seconds m div 2))"

text \<open>The transport protocol as a NAT-PMP protocol.\<close>

primrec pmp_proto :: "protocol \<Rightarrow> pmp_map_protocol" where
  "pmp_proto Udp = PmpUdp"
| "pmp_proto Tcp = PmpTcp"

text \<open>Bind to the local address, connect to the gateway; receive and decode one response.\<close>

definition pmp_open :: "net_env \<Rightarrow> ipv4 \<Rightarrow> ipv4 \<Rightarrow> (unit, pmp_error) io" where
  "pmp_open env local_ip gateway =
     bind_io (op_bind env PmpIo (V4 local_ip, 0)) (\<lambda>_.
     op_connect env PmpIo (V4 gateway, pmp_server_port))"

definition pmp_recv_response :: "net_env \<Rightarrow> (pmp_response, pmp_error) io" where
  "pmp_recv_response env =
     bind_io (op_recv env PmpIo nat_pmp_recv_timeout pmp_max_size) (\<lambda>bs.
     ret_io (map_err PmpProtocol (pmp_response_decode bs)))"

text \<open>The two matches on the responses of a mapping attempt.\<close>

definition pmp_match_port_map ::
  "pmp_map_protocol \<Rightarrow> nzu16 \<Rightarrow> pmp_response \<Rightarrow> (u16 \<times> u32, pmp_error) res" where
  "pmp_match_port_map proto local_port response =
     (case response of
        PmpPortMap proto_rcvd _ private_port external_port lifetime_seconds \<Rightarrow>
          if private_port = nz_get local_port \<and> proto = proto_rcvd
          then Ok (external_port, lifetime_seconds)
          else Err PmpUnexpectedServerResponse
      | PmpPublicAddress _ _ \<Rightarrow> Err PmpUnexpectedServerResponse)"

definition pmp_match_public_address :: "pmp_response \<Rightarrow> (ipv4, pmp_error) res" where
  "pmp_match_public_address response =
     (case response of
        PmpPublicAddress _ public_ip \<Rightarrow> Ok public_ip
      | PmpPortMap _ _ _ _ _ \<Rightarrow> Err PmpUnexpectedServerResponse)"

definition pmp_mapping_new ::
  "net_env \<Rightarrow> protocol \<Rightarrow> ipv4 \<Rightarrow> nzu16 \<Rightarrow> ipv4 \<Rightarrow> nzu16 option \<Rightarrow> (pmp_mapping, pmp_error) io" where
  "pmp_mapping_new env protocol local_ip local_port gateway external_port =
     bind_io (pmp_open env local_ip gateway) (\<lambda>_.
     let proto = pmp_proto protocol;
         req = PmpMapping proto (nz_get local_port)
                 (case external_port of Some p \<Rightarrow> nz_get p | None \<Rightarrow> 0)
                 pmp_requested_lifetime_seconds
     in
     bind_io (op_send env PmpIo (pmp_request_encode req)) (\<lambda>_.
     bind_io (pmp_recv_response env) (\<lambda>response.
     bind_io (ret_io (pmp_match_port_map proto local_port response))
       (\<lambda>(external_port, lifetime_seconds).
     bind_io (ret_io (ok_or (nz_try_from external_port) PmpZeroExternalPort)) (\<lambda>external_port.
     bind_io (op_send env PmpIo (pmp_request_encode PmpExternalAddress)) (\<lambda>_.
     bind_io (pmp_recv_response env) (\<lambda>response.
     bind_io (ret_io (pmp_match_public_address response)) (\<lambda>external_addr.
     ret_io (Ok \<lparr>pm_local_ip = local_ip, pm_local_port = local_port, pm_gateway = gateway,
       pm_external_port = external_port, pm_external_addr = external_addr,
       pm_lifetime_seconds = lifetime_seconds\<rparr>)))))))))"

definition pmp_mapping_release :: "net_env \<Rightarrow> pmp_mapping \<Rightarrow> (unit, pmp_error) io" where
  "pmp_mapping_release env m =
     bind_io (pmp_open env (pm_local_ip m) (pm_gateway m)) (\<lambda>_.
     bind_io (op_send env PmpIo
                (pmp_request_encode (PmpMapping PmpUdp (nz_get (pm_local_port m)) 0 0))) (\<lambda>_.
     ret_io (Ok ())))"

definition pmp_probe_available_fallible ::
  "net_env \<Rightarrow> ipv4 \<Rightarrow> ipv4 \<Rightarrow> (pmp_response, pmp_error) io" where
  "pmp_probe_available_fallible env local_ip gateway =
     bind_io (pmp_open env local_ip gateway) (\<lambda>_.
     bind_io (op_send env PmpIo (pmp_request_encode PmpExternalAddress)) (\<lambda>_.
     pmp_recv_response env))"

text \<open>The probe maps every error to \<open>False\<close>; only a panic would leave it.\<close>

definition pmp_probe_available :: "net_env \<Rightarrow> ipv4 \<Rightarrow> ipv4 \<Rightarrow> (bool, 'e) io" where
  "pmp_probe_available env local_ip gateway log =
     (case pmp_probe_available_fallible env local_ip gateway log of
        (Ok response, log') \<Rightarrow>
          (Ok (case response of PmpPublicAddress _ _ \<Rightarrow> True | PmpPortMap _ _ _ _ _ \<Rightarrow> False), log')
      | (Err e, log') \<Rightarrow> (Ok False, log')
      | (Panic, log') \<Rightarrow> (Panic, log'))"

section \<open>Facts\<close>

text \<open>The requests a mapping attempt sends, in order.\<close>

definition pmp_mapping_request :: "protocol \<Rightarrow> nzu16 \<Rightarrow> nzu16 option \<Rightarrow> pmp_request" where
  "pmp_mapping_request protocol local_port external_port =
     PmpMapping (pmp_proto protocol) (nz_get local_port)
       (case external_port of Some p \<Rightarrow> nz_get p | None \<Rightarrow> 0) pmp_requested_lifetime_seconds"

definition pmp_opening_calls :: "ipv4 \<Rightarrow> ipv4 \<Rightarrow> io_log" where
  "pmp_opening_calls local_ip gateway =
     [CallBind (V4 local_ip, 0), CallConnect (V4 gateway, pmp_server_port)]"

lemma pmp_open_Ok:
  "pmp_open env local_ip gateway log = (Ok u, log') \<Longrightarrow>
     log' = log @ pmp_opening_calls local_ip gateway"
  by (auto simp: pmp_open_def bind_io_eq_Ok op_defs pmp_opening_calls_def)

text \<open>The packet a receive returned, decoded.\<close>

definition pmp_received :: "net_env \<Rightarrow> io_log \<Rightarrow> pmp_response \<Rightarrow> bool" where
  "pmp_received env log response \<longleftrightarrow> (\<exists>read buffer. read \<le> length buffer \<and>
     ans_recv env log pmp_max_size = Some (Ok (read, buffer)) \<and>
     pmp_response_decode (take read buffer) = Ok response)"

lemma pmp_recv_response_Ok:
  "pmp_recv_response env log = (Ok response, log') \<longleftrightarrow>
     pmp_received env log response \<and> log' = log @ [CallRecv nat_pmp_recv_timeout pmp_max_size]"
  by (auto simp: pmp_recv_response_def bind_io_eq_Ok op_defs bind_res_eq_Ok map_err_eq slice_eq_Ok
      pmp_received_def split: option.splits)

lemma pmp_match_Ok:
  "pmp_match_port_map proto local_port response = Ok (ext, life) \<longleftrightarrow>
     (\<exists>epoch. response = PmpPortMap proto epoch (nz_get local_port) ext life)"
  "pmp_match_public_address response = Ok ip \<longleftrightarrow> (\<exists>epoch. response = PmpPublicAddress epoch ip)"
  by (auto simp: pmp_match_port_map_def pmp_match_public_address_def
      split: pmp_response.splits if_splits)

lemma pmp_match_no_Panic:
  "pmp_match_port_map proto local_port response \<noteq> Panic"
  "pmp_match_public_address response \<noteq> Panic"
  by (auto simp: pmp_match_port_map_def pmp_match_public_address_def
      split: pmp_response.splits if_splits)

lemma extends_pmp [intro, simp]:
  "extends (pmp_open env a b)" "extends (pmp_recv_response env)"
  by (auto simp: pmp_open_def pmp_recv_response_def)

text \<open>A gateway that answers every mapping request for UDP port 1234 and every address request;
  the environment at which the properties are exercised.\<close>

definition pmp_sample_env :: net_env where
  "pmp_sample_env =
     \<lparr>ans_bind = (\<lambda>_ _. Ok ()), ans_connect = (\<lambda>_ _. Ok ()), ans_send = (\<lambda>_ bs. Ok (length bs)),
      ans_recv = (\<lambda>log n.
        if last log = CallSend (pmp_request_encode PmpExternalAddress)
        then Some (Ok (recv_into [0, 128, 0, 0, 0, 0, 0, 7, 203, 0, 113, 9] n))
        else Some (Ok (recv_into [0, 129, 0, 0, 0, 0, 0, 7, 4, 210, 19, 136, 0, 0, 28, 32] n)))\<rparr>"

lemma pmp_sample_env_udp: "udp_env pmp_sample_env"
  by unfold_locales (auto simp: pmp_sample_env_def dest: recv_into_bounds split: if_splits)

lemmas pmp_decode_eval =
  pmp_response_decode_def pmp_response_decode_map_def pmp_size_defs slice_simps ensure_def ok_or_def
  pmp_response_indicator_def pmp_opcode_try_from_def pmp_version_try_from_def
  pmp_result_code_try_from_def u16_from_be_def u32_from_be_def

lemma pmp_sample_packets:
  "pmp_response_decode [0, 128, 0, 0, 0, 0, 0, 7, 203, 0, 113, 9] =
     Ok (PmpPublicAddress 7 (Ipv4 203 0 113 9))"
  "pmp_response_decode [0, 129, 0, 0, 0, 0, 0, 7, 4, 210, 19, 136, 0, 0, 28, 32] =
     Ok (PmpPortMap PmpUdp 7 1234 5000 7200)"
  by (simp_all add: pmp_decode_eval)

lemma pmp_sample_mapping:
  "fst (pmp_mapping_new pmp_sample_env Udp (Ipv4 10 0 0 2) (Abs_nzu16 1234) (Ipv4 10 0 0 1) None [])
     = Ok \<lparr>pm_local_ip = Ipv4 10 0 0 2, pm_local_port = Abs_nzu16 1234, pm_gateway = Ipv4 10 0 0 1,
          pm_external_port = Abs_nzu16 5000, pm_external_addr = Ipv4 203 0 113 9,
          pm_lifetime_seconds = 7200\<rparr>"
  by (simp add: pmp_mapping_new_def bind_io_def pmp_open_def op_defs pmp_recv_response_def
      pmp_sample_env_def pmp_max_size_def recv_into_def slice_simps pmp_sample_packets pmp_match_port_map_def
      pmp_match_public_address_def ok_or_def nz_try_from_def u16_to_be_bytes_def)

text \<open>Under the socket contract a mapping attempt, a release and a probe never panic, whatever the
  gateway answers.\<close>

context udp_env
begin

lemma pmp_open_no_Panic: "fst (pmp_open env a b log) \<noteq> Panic"
  by (simp add: pmp_open_def bind_io_fst_Panic no_Panic)

lemma pmp_recv_no_Panic: "fst (pmp_recv_response env log) \<noteq> Panic"
  by (simp add: pmp_recv_response_def bind_io_fst_Panic ret_io_eq map_err_eq pmp_decode_returns no_Panic)

lemma pmp_mapping_new_no_Panic:
  "fst (pmp_mapping_new env protocol local_ip local_port gateway external_port log) \<noteq> Panic"
  by (auto simp: pmp_mapping_new_def Let_def bind_io_fst_Panic ret_io_eq ok_or_eq pmp_match_no_Panic
      pmp_open_no_Panic pmp_recv_no_Panic no_Panic)

lemma pmp_mapping_release_no_Panic: "fst (pmp_mapping_release env m log) \<noteq> Panic"
  by (simp add: pmp_mapping_release_def bind_io_fst_Panic ret_io_eq pmp_open_no_Panic no_Panic)

lemma pmp_probe_available_no_Panic: "fst (pmp_probe_available env local_ip gateway log) \<noteq> Panic"
proof -
  have "fst (pmp_probe_available_fallible env local_ip gateway log) \<noteq> Panic"
    by (simp add: pmp_probe_available_fallible_def bind_io_fst_Panic pmp_open_no_Panic
        pmp_recv_no_Panic no_Panic)
  then show ?thesis by (auto simp: pmp_probe_available_def split: prod.splits res.splits)
qed

end

section \<open>Properties\<close>

text \<open>C7: a mapping is registered only on a consistent dialogue. If the attempt returns a
  mapping, the client sent exactly the mapping request and then the external address request to
  port 5351 of the gateway, the first response was a port mapping for the requested protocol and
  local port whose external port and lifetime the mapping carries, the second was the public
  address it carries, and the local address, port and gateway are the requested ones.\<close>

theorem pmp_mapping_new_Ok:
  assumes "pmp_mapping_new env protocol local_ip local_port gateway external_port log = (Ok m, log')"
  defines "log1 \<equiv> log @ pmp_opening_calls local_ip gateway
      @ [CallSend (pmp_request_encode (pmp_mapping_request protocol local_port external_port))]"
  defines "log2 \<equiv> log1 @ [CallRecv nat_pmp_recv_timeout pmp_max_size,
      CallSend (pmp_request_encode PmpExternalAddress)]"
  shows "pm_local_ip m = local_ip \<and> pm_local_port m = local_port \<and> pm_gateway m = gateway
    \<and> (\<exists>epoch. pmp_received env log1
          (PmpPortMap (pmp_proto protocol) epoch (nz_get local_port)
             (nz_get (pm_external_port m)) (pm_lifetime_seconds m)))
    \<and> (\<exists>epoch. pmp_received env log2 (PmpPublicAddress epoch (pm_external_addr m)))
    \<and> log' = log2 @ [CallRecv nat_pmp_recv_timeout pmp_max_size]"
  using assms(1) unfolding log1_def log2_def pmp_mapping_new_def Let_def
  by (auto simp: bind_io_eq_Ok ret_io_eq ok_or_eq nz_try_from_Some op_send_def pmp_match_Ok
      pmp_recv_response_Ok pmp_mapping_request_def simp del: pmp_request_encode.simps
      dest!: pmp_open_Ok)

theorem pmp_mapping_new_Ok_witness:
  "\<exists>m log'. pmp_mapping_new pmp_sample_env Udp (Ipv4 10 0 0 2) (Abs_nzu16 1234) (Ipv4 10 0 0 1)
      None [] = (Ok m, log') \<and> pm_gateway m = Ipv4 10 0 0 1"
proof -
  obtain m log' where *: "pmp_mapping_new pmp_sample_env Udp (Ipv4 10 0 0 2) (Abs_nzu16 1234)
      (Ipv4 10 0 0 1) None [] = (Ok m, log')"
    using pmp_sample_mapping by (metis prod.collapse)
  then show ?thesis using pmp_mapping_new_Ok [OF *] by blast
qed

text \<open>releasing a mapping sends one request to the gateway that registered it, for its local
  port, with lifetime and external port zero; the request is always a UDP one, so a mapping
  registered for TCP is not the one the request deletes.\<close>

theorem pmp_release_request:
  assumes "pmp_mapping_release env m log = (Ok u, log')"
  shows "log' = log @ pmp_opening_calls (pm_local_ip m) (pm_gateway m)
    @ [CallSend (pmp_request_encode (PmpMapping PmpUdp (nz_get (pm_local_port m)) 0 0))]"
  using assms
  by (auto simp: pmp_mapping_release_def bind_io_eq_Ok ret_io_eq op_send_def
      simp del: pmp_request_encode.simps dest!: pmp_open_Ok)

theorem pmp_release_request_witness:
  "\<exists>m log'. pmp_mapping_release pmp_sample_env m [] = (Ok (), log')
    \<and> last log' = CallSend (pmp_request_encode (PmpMapping PmpUdp 1234 0 0))"
proof -
  let ?m = "\<lparr>pm_local_ip = Ipv4 10 0 0 2, pm_local_port = Abs_nzu16 1234, pm_gateway = Ipv4 10 0 0 1,
    pm_external_port = Abs_nzu16 5000, pm_external_addr = Ipv4 203 0 113 9, pm_lifetime_seconds = 7200\<rparr>"
  obtain log' where *: "pmp_mapping_release pmp_sample_env ?m [] = (Ok (), log')"
    by (simp add: pmp_mapping_release_def bind_io_def pmp_open_def op_defs pmp_sample_env_def)
  show ?thesis
    using pmp_release_request [OF *] * by (intro exI [of _ ?m] exI [of _ log']) simp
qed

text \<open>a probe reports NAT-PMP available exactly when the gateway answered the address request
  with a well-formed public address response in time.\<close>

theorem pmp_probe_available_iff:
  assumes "pmp_probe_available env local_ip gateway log = (Ok b, log')"
  shows "b \<longleftrightarrow> (\<exists>log2 epoch ip. pmp_open env local_ip gateway log = (Ok (), log2)
      \<and> is_ok (ans_send env log2 (pmp_request_encode PmpExternalAddress))
      \<and> pmp_received env (log2 @ [CallSend (pmp_request_encode PmpExternalAddress)])
            (PmpPublicAddress epoch ip))"
proof -
  have "b \<longleftrightarrow> (\<exists>epoch ip log'. pmp_probe_available_fallible env local_ip gateway log
      = (Ok (PmpPublicAddress epoch ip), log'))"
    using assms by (auto simp: pmp_probe_available_def split: prod.splits res.splits
        pmp_response.splits)
  also have "\<dots> \<longleftrightarrow> (\<exists>log2 epoch ip. pmp_open env local_ip gateway log = (Ok (), log2)
      \<and> is_ok (ans_send env log2 (pmp_request_encode PmpExternalAddress))
      \<and> pmp_received env (log2 @ [CallSend (pmp_request_encode PmpExternalAddress)])
            (PmpPublicAddress epoch ip))"
    by (auto simp: pmp_probe_available_fallible_def bind_io_eq_Ok op_send_def map_err_eq is_ok_iff
        pmp_recv_response_Ok simp del: pmp_request_encode.simps)
  finally show ?thesis .
qed

theorem pmp_probe_available_iff_witness:
  "pmp_received pmp_sample_env (pmp_opening_calls (Ipv4 10 0 0 2) (Ipv4 10 0 0 1)
      @ [CallSend (pmp_request_encode PmpExternalAddress)]) (PmpPublicAddress 7 (Ipv4 203 0 113 9))
   \<and> fst (pmp_probe_available pmp_sample_env (Ipv4 10 0 0 2) (Ipv4 10 0 0 1) []) = (Ok True :: (bool, unit) res)"
proof -
  have rcv: "pmp_received pmp_sample_env (pmp_opening_calls (Ipv4 10 0 0 2) (Ipv4 10 0 0 1)
      @ [CallSend (pmp_request_encode PmpExternalAddress)]) (PmpPublicAddress 7 (Ipv4 203 0 113 9))"
    by (simp add: pmp_received_def pmp_sample_env_def recv_into_def pmp_max_size_def
        pmp_sample_packets)
  have opened: "pmp_open pmp_sample_env (Ipv4 10 0 0 2) (Ipv4 10 0 0 1) []
      = (Ok (), pmp_opening_calls (Ipv4 10 0 0 2) (Ipv4 10 0 0 1))"
    by (simp add: pmp_open_def bind_io_def op_defs pmp_sample_env_def pmp_opening_calls_def)
  have sends: "ans_send pmp_sample_env log bs = Ok (length bs)" for log bs
    by (simp add: pmp_sample_env_def)
  obtain log' where "pmp_probe_available_fallible pmp_sample_env (Ipv4 10 0 0 2) (Ipv4 10 0 0 1) []
      = (Ok (PmpPublicAddress 7 (Ipv4 203 0 113 9)), log')"
    by (simp add: pmp_probe_available_fallible_def bind_io_eq_Ok opened op_send_def sends
        pmp_recv_response_Ok rcv del: pmp_request_encode.simps)
  then obtain b where *: "pmp_probe_available pmp_sample_env (Ipv4 10 0 0 2) (Ipv4 10 0 0 1) []
      = (Ok b :: (bool, unit) res, log')"
    by (simp add: pmp_probe_available_def)
  have "is_ok (ans_send pmp_sample_env log bs)" for log bs
    by (simp add: sends)
  then have b
    using pmp_probe_available_iff [OF *] opened rcv by blast
  then show ?thesis using * rcv by simp
qed

end
