(* ===== verification/Pcp_Protocol.thy ===== *)
theory Pcp_Protocol
  imports Ip_Addr
begin

text \<open>
  The PCP wire format, \<^verbatim>\<open>portmapper/src/pcp/protocol.rs\<close> and its submodules
  \<^verbatim>\<open>opcode_data.rs\<close>, \<^verbatim>\<open>request.rs\<close> and \<^verbatim>\<open>response.rs\<close>. A fixed-size array
  \<^verbatim>\<open>[u8; 12]\<close> is a byte list with the invariant \<open>wf_map_data\<close> on its length. The decoder
  of responses is characterised on every input, including the one shape on which it panics.
\<close>

section \<open>protocol.rs\<close>

definition pcp_server_port :: u16 where "pcp_server_port = 5351"

datatype pcp_version = PcpVersionPcp

primrec pcp_version_to_u8 :: "pcp_version \<Rightarrow> u8" where
  "pcp_version_to_u8 PcpVersionPcp = 2"

definition pcp_version_try_from :: "u8 \<Rightarrow> pcp_version option" where
  "pcp_version_try_from v = (if v = 2 then Some PcpVersionPcp else None)"

datatype pcp_opcode = OpAnnounce | OpMap

primrec pcp_opcode_to_u8 :: "pcp_opcode \<Rightarrow> u8" where
  "pcp_opcode_to_u8 OpAnnounce = 0"
| "pcp_opcode_to_u8 OpMap = 1"

definition pcp_opcode_try_from :: "u8 \<Rightarrow> pcp_opcode option" where
  "pcp_opcode_try_from v = (if v = 0 then Some OpAnnounce else if v = 1 then Some OpMap else None)"

section \<open>opcode\_data.rs\<close>

datatype pcp_map_protocol = PcpUdp | PcpTcp

primrec pcp_map_protocol_to_u8 :: "pcp_map_protocol \<Rightarrow> u8" where
  "pcp_map_protocol_to_u8 PcpUdp = 17"
| "pcp_map_protocol_to_u8 PcpTcp = 6"

definition pcp_map_protocol_try_from :: "u8 \<Rightarrow> pcp_map_protocol option" where
  "pcp_map_protocol_try_from v =
     (if v = 17 then Some PcpUdp else if v = 6 then Some PcpTcp else None)"

record map_data =
  md_nonce :: bytes
  md_protocol :: pcp_map_protocol
  md_local_port :: u16
  md_external_port :: u16
  md_external_address :: ipv6

definition wf_map_data :: "map_data \<Rightarrow> bool" where
  "wf_map_data md \<longleftrightarrow> length (md_nonce md) = 12"

datatype opcode_data = Announce | MapData map_data

primrec wf_opcode_data :: "opcode_data \<Rightarrow> bool" where
  "wf_opcode_data Announce = True"
| "wf_opcode_data (MapData md) = wf_map_data md"

datatype invalid_opcode_data = InvalidOpcodeData

definition map_data_encoded_size :: nat where
  "map_data_encoded_size = 12 + 1 + 3 + 2 + 2 + 16"

definition map_data_encode :: "map_data \<Rightarrow> bytes" where
  "map_data_encode md =
     md_nonce md @ [pcp_map_protocol_to_u8 (md_protocol md)] @ [0, 0, 0]
     @ u16_to_be_bytes (md_local_port md) @ u16_to_be_bytes (md_external_port md)
     @ octets6 (md_external_address md)"

text \<open>The conversion of \<^verbatim>\<open>buf[20..]\<close> into \<^verbatim>\<open>[u8; 16]\<close> panics unless exactly sixteen
  bytes are left; the length test before it only excludes fewer.\<close>

definition map_data_decode :: "bytes \<Rightarrow> (map_data, invalid_opcode_data) res" where
  "map_data_decode buf =
     bind_res (ensure (\<not> length buf < map_data_encoded_size) InvalidOpcodeData) (\<lambda>_.
     bind_res (slice_to 12 buf) (\<lambda>nonce.
     bind_res (idx buf 12) (\<lambda>p.
     bind_res (ok_or (pcp_map_protocol_try_from p) InvalidOpcodeData) (\<lambda>protocol.
     bind_res (read_u16_be 16 buf) (\<lambda>local_port.
     bind_res (read_u16_be 18 buf) (\<lambda>external_port.
     bind_res (slice_from 20 buf) (\<lambda>external_addr_bytes.
     bind_res (ipv6_from_octets external_addr_bytes) (\<lambda>external_address.
     Ok \<lparr>md_nonce = nonce, md_protocol = protocol, md_local_port = local_port,
         md_external_port = external_port, md_external_address = external_address\<rparr>))))))))"

primrec opcode_data_opcode :: "opcode_data \<Rightarrow> pcp_opcode" where
  "opcode_data_opcode Announce = OpAnnounce"
| "opcode_data_opcode (MapData md) = OpMap"

primrec opcode_data_encode_into :: "opcode_data \<Rightarrow> bytes \<Rightarrow> bytes" where
  "opcode_data_encode_into Announce buf = buf"
| "opcode_data_encode_into (MapData md) buf = buf @ map_data_encode md"

primrec opcode_data_encoded_size :: "opcode_data \<Rightarrow> nat" where
  "opcode_data_encoded_size Announce = 0"
| "opcode_data_encoded_size (MapData md) = map_data_encoded_size"

primrec opcode_data_decode :: "pcp_opcode \<Rightarrow> bytes \<Rightarrow> (opcode_data, invalid_opcode_data) res" where
  "opcode_data_decode OpAnnounce buf = Ok Announce"
| "opcode_data_decode OpMap buf = map_res MapData (map_data_decode buf)"

section \<open>request.rs\<close>

record pcp_request =
  prq_version :: pcp_version
  prq_lifetime_seconds :: u32
  prq_client_addr :: ipv6
  prq_opcode_data :: opcode_data

definition pcp_request_min_size :: nat where "pcp_request_min_size = 1 + 1 + 2 + 4 + 16"

definition pcp_request_encode :: "pcp_request \<Rightarrow> bytes" where
  "pcp_request_encode r =
     opcode_data_encode_into (prq_opcode_data r)
       ([pcp_version_to_u8 (prq_version r),
         pcp_opcode_to_u8 (opcode_data_opcode (prq_opcode_data r)), 0, 0]
        @ u32_to_be_bytes (prq_lifetime_seconds r) @ octets6 (prq_client_addr r))"

definition pcp_request_announce :: "ipv6 \<Rightarrow> pcp_request" where
  "pcp_request_announce client_addr =
     \<lparr>prq_version = PcpVersionPcp, prq_lifetime_seconds = 0, prq_client_addr = client_addr,
      prq_opcode_data = Announce\<rparr>"

definition pcp_request_mapping ::
  "bytes \<Rightarrow> pcp_map_protocol \<Rightarrow> u16 \<Rightarrow> ipv4 \<Rightarrow> u16 option \<Rightarrow> ipv4 option \<Rightarrow> u32 \<Rightarrow> pcp_request" where
  "pcp_request_mapping nonce protocol local_port local_ip preferred_external_port
     preferred_external_address lifetime_seconds =
     \<lparr>prq_version = PcpVersionPcp, prq_lifetime_seconds = lifetime_seconds,
      prq_client_addr = to_ipv6_mapped local_ip,
      prq_opcode_data = MapData
        \<lparr>md_nonce = nonce, md_protocol = protocol, md_local_port = local_port,
         md_external_port = (case preferred_external_port of Some p \<Rightarrow> p | None \<Rightarrow> 0),
         md_external_address = to_ipv6_mapped
           (case preferred_external_address of Some a \<Rightarrow> a | None \<Rightarrow> ipv4_unspecified)\<rparr>\<rparr>"

text \<open>The test decoder of requests; its \<^verbatim>\<open>unwrap\<close>s panic.\<close>

definition pcp_request_decode :: "bytes \<Rightarrow> (pcp_request, invalid_opcode_data) res" where
  "pcp_request_decode buf =
     bind_res (idx buf 0) (\<lambda>v. bind_res (expect (pcp_version_try_from v)) (\<lambda>version.
     bind_res (idx buf 1) (\<lambda>o1. bind_res (expect (pcp_opcode_try_from o1)) (\<lambda>opcode.
     bind_res (read_u32_be 4 buf) (\<lambda>lifetime_seconds.
     bind_res (bind_res (slice 8 24 buf) ipv6_from_octets) (\<lambda>client_addr.
     bind_res (slice_from 24 buf) (\<lambda>rest.
     (case opcode_data_decode opcode rest of
        Ok data \<Rightarrow> Ok \<lparr>prq_version = version, prq_lifetime_seconds = lifetime_seconds,
                      prq_client_addr = client_addr, prq_opcode_data = data\<rparr>
      | Err _ \<Rightarrow> Panic
      | Panic \<Rightarrow> Panic))))))))"

section \<open>response.rs\<close>

datatype pcp_error_code =
    UnsuppVersion | NotAuthorized | MalformedRequest | UnsuppOpcode | UnsuppOption
  | MalformedOption | NetworkFailure | NoResources | UnsuppProtocol | UserExQuota
  | CannotProvideExternal | AddressMismatch | ExcessiveRemotePeers

primrec pcp_error_code_to_u8 :: "pcp_error_code \<Rightarrow> u8" where
  "pcp_error_code_to_u8 UnsuppVersion = 1"
| "pcp_error_code_to_u8 NotAuthorized = 2"
| "pcp_error_code_to_u8 MalformedRequest = 3"
| "pcp_error_code_to_u8 UnsuppOpcode = 4"
| "pcp_error_code_to_u8 UnsuppOption = 5"
| "pcp_error_code_to_u8 MalformedOption = 6"
| "pcp_error_code_to_u8 NetworkFailure = 7"
| "pcp_error_code_to_u8 NoResources = 8"
| "pcp_error_code_to_u8 UnsuppProtocol = 9"
| "pcp_error_code_to_u8 UserExQuota = 10"
| "pcp_error_code_to_u8 CannotProvideExternal = 11"
| "pcp_error_code_to_u8 AddressMismatch = 12"
| "pcp_error_code_to_u8 ExcessiveRemotePeers = 13"

definition pcp_error_code_try_from :: "u8 \<Rightarrow> pcp_error_code option" where
  "pcp_error_code_try_from v =
     find (\<lambda>c. pcp_error_code_to_u8 c = v)
       [UnsuppVersion, NotAuthorized, MalformedRequest, UnsuppOpcode, UnsuppOption,
        MalformedOption, NetworkFailure, NoResources, UnsuppProtocol, UserExQuota,
        CannotProvideExternal, AddressMismatch, ExcessiveRemotePeers]"

datatype pcp_success_code = SuccessCodeSuccess

definition pcp_success_code_try_from :: "u8 \<Rightarrow> pcp_success_code option" where
  "pcp_success_code_try_from v = (if v = 0 then Some SuccessCodeSuccess else None)"

datatype pcp_result_code = PcpSuccess | PcpError pcp_error_code

definition pcp_result_code_try_from :: "u8 \<Rightarrow> pcp_result_code option" where
  "pcp_result_code_try_from v =
     (case pcp_success_code_try_from v of
        Some SuccessCodeSuccess \<Rightarrow> Some PcpSuccess
      | None \<Rightarrow> map_option PcpError (pcp_error_code_try_from v))"

primrec pcp_result_code_to_u8 :: "pcp_result_code \<Rightarrow> u8" where
  "pcp_result_code_to_u8 PcpSuccess = 0"
| "pcp_result_code_to_u8 (PcpError e) = pcp_error_code_to_u8 e"

record pcp_response =
  prs_lifetime_seconds :: u32
  prs_epoch_time :: u32
  prs_data :: opcode_data

datatype pcp_decode_error =
    PcpMalformed | PcpNotAResponse | PcpInvalidOpcode | PcpInvalidVersion | PcpInvalidResultCode
  | PcpInvalidOpcodeData

datatype pcp_protocol_error = PcpDecodeError pcp_decode_error | PcpErrorCode pcp_error_code

definition pcp_max_size :: nat where "pcp_max_size = 1100"
definition pcp_min_size :: nat where "pcp_min_size = 1 + 1 + 1 + 1 + 4 + 4 + 12"
definition pcp_response_indicator :: u8 where "pcp_response_indicator = push_bit 7 1"

definition pcp_response_decode :: "bytes \<Rightarrow> (pcp_response, pcp_protocol_error) res" where
  "pcp_response_decode buf =
     bind_res (ensure (pcp_min_size \<le> length buf \<and> length buf \<le> pcp_max_size)
                 (PcpDecodeError PcpMalformed)) (\<lambda>_.
     bind_res (idx buf 0) (\<lambda>v.
     bind_res (ok_or (pcp_version_try_from v) (PcpDecodeError PcpInvalidVersion)) (\<lambda>_.
     bind_res (idx buf 1) (\<lambda>o1.
     bind_res (ensure (o1 AND pcp_response_indicator = pcp_response_indicator)
                 (PcpDecodeError PcpNotAResponse)) (\<lambda>_.
     bind_res (ok_or (pcp_opcode_try_from (o1 AND NOT pcp_response_indicator))
                 (PcpDecodeError PcpInvalidOpcode)) (\<lambda>opcode.
     bind_res (idx buf 3) (\<lambda>rc.
     bind_res (ok_or (pcp_result_code_try_from rc) (PcpDecodeError PcpInvalidResultCode)) (\<lambda>result_code.
     bind_res (case result_code of PcpSuccess \<Rightarrow> Ok () | PcpError c \<Rightarrow> Err (PcpErrorCode c)) (\<lambda>_.
     bind_res (read_u32_be 4 buf) (\<lambda>lifetime_seconds.
     bind_res (read_u32_be 8 buf) (\<lambda>epoch_time.
     bind_res (slice_from 24 buf) (\<lambda>rest.
     bind_res (map_err (\<lambda>_. PcpDecodeError PcpInvalidOpcodeData) (opcode_data_decode opcode rest)) (\<lambda>data.
     Ok \<lparr>prs_lifetime_seconds = lifetime_seconds, prs_epoch_time = epoch_time, prs_data = data\<rparr>)))))))))))))"

text \<open>The test encoder of responses.\<close>

definition pcp_response_encode :: "pcp_response \<Rightarrow> bytes" where
  "pcp_response_encode r =
     opcode_data_encode_into (prs_data r)
       ([pcp_version_to_u8 PcpVersionPcp,
         pcp_response_indicator OR pcp_opcode_to_u8 (opcode_data_opcode (prs_data r)), 0,
         pcp_result_code_to_u8 PcpSuccess]
        @ u32_to_be_bytes (prs_lifetime_seconds r) @ u32_to_be_bytes (prs_epoch_time r)
        @ replicate (pcp_min_size - 12) 0)"

section \<open>Facts\<close>

lemmas pcp_size_defs = pcp_min_size_def pcp_max_size_def map_data_encoded_size_def

lemma pcp_version_try_from_Some: "pcp_version_try_from v = Some ver \<longleftrightarrow> v = 2"
  by (cases ver) (simp add: pcp_version_try_from_def)

lemma pcp_opcode_try_from_Some: "pcp_opcode_try_from v = Some oc \<longleftrightarrow> v = pcp_opcode_to_u8 oc"
  by (cases oc) (auto simp: pcp_opcode_try_from_def)

lemma pcp_map_protocol_try_from_Some:
  "pcp_map_protocol_try_from v = Some p \<longleftrightarrow> v = pcp_map_protocol_to_u8 p"
  by (cases p) (auto simp: pcp_map_protocol_try_from_def)

lemma pcp_result_code_try_from_Success:
  "pcp_result_code_try_from v = Some PcpSuccess \<longleftrightarrow> v = 0"
  by (auto simp: pcp_result_code_try_from_def pcp_success_code_try_from_def
      split: option.splits pcp_success_code.splits)

lemma pcp_error_code_try_from_to [simp]:
  "pcp_error_code_try_from (pcp_error_code_to_u8 c) = Some c"
  by (cases c) (simp_all add: pcp_error_code_try_from_def)

lemma pcp_result_code_try_from_to [simp]:
  "pcp_result_code_try_from (pcp_result_code_to_u8 rc) = Some rc"
proof (cases rc)
  case PcpSuccess
  then show ?thesis by (simp add: pcp_result_code_try_from_Success)
next
  case (PcpError c)
  moreover have "pcp_error_code_to_u8 c \<noteq> 0" by (cases c) simp_all
  ultimately show ?thesis
    by (simp add: pcp_result_code_try_from_def pcp_success_code_try_from_def)
qed

lemmas pcp_try_from_Some =
  pcp_version_try_from_Some pcp_opcode_try_from_Some pcp_map_protocol_try_from_Some

lemma pcp_opcode_indicator:
  "o1 AND pcp_response_indicator = pcp_response_indicator
      \<and> o1 AND NOT pcp_response_indicator = pcp_opcode_to_u8 oc
     \<longleftrightarrow> o1 = pcp_response_indicator OR pcp_opcode_to_u8 oc"
  unfolding pcp_response_indicator_def indicator_split by (cases oc) simp_all

lemma length_map_data_encode: "wf_map_data md \<Longrightarrow> length (map_data_encode md) = map_data_encoded_size"
  by (simp add: wf_map_data_def map_data_encode_def map_data_encoded_size_def)


text \<open>The map data a buffer of the right size holds.\<close>

lemma map_data_decode_Ok:
  "map_data_decode buf = Ok md \<longleftrightarrow> length buf = 36 \<and> wf_map_data md
     \<and> md_nonce md = take 12 buf \<and> buf ! 12 = pcp_map_protocol_to_u8 (md_protocol md)
     \<and> u16_to_be_bytes (md_local_port md) = [buf ! 16, buf ! 17]
     \<and> u16_to_be_bytes (md_external_port md) = [buf ! 18, buf ! 19]
     \<and> octets6 (md_external_address md) = drop 20 buf"
proof (cases "length buf = 36")
  case True
  then show ?thesis
    by (cases md)
      (auto simp: map_data_decode_def map_data_encoded_size_def bind_res_eq_Ok ensure_eq ok_or_eq
        slice_simps pcp_try_from_Some wf_map_data_def u16_from_be_eq [symmetric]
        octets6_from_octets ipv6_from_octets6 dest: sym [of "octets6 _"])
next
  case False
  then show ?thesis
    by (auto simp: map_data_decode_def map_data_encoded_size_def bind_res_eq_Ok ensure_eq
        ok_or_eq slice_simps ipv6_from_octets_def split: if_splits)
qed

lemma map_data_decode_Panic:
  "map_data_decode buf = Panic \<longleftrightarrow>
     36 < length buf \<and> (buf ! 12 = 17 \<or> buf ! 12 = 6)"
  by (auto simp: map_data_decode_def map_data_encoded_size_def bind_res_eq_Panic ensure_eq
      ok_or_eq idx_eq slice_simps slice_eq_Panic read_be_eq from_octets_Panic
      pcp_map_protocol_try_from_def split: if_splits)

lemma map_data_decode_encode [codec_simps]:
  "wf_map_data md \<Longrightarrow> map_data_decode (map_data_encode md) = Ok md"
  by (auto simp: map_data_decode_Ok map_data_encode_def wf_map_data_def nth_append
      to_be_bytes_def)

text \<open>A packet of acceptable length with a success header for opcode \<open>oc\<close>.\<close>

definition pcp_success_header :: "pcp_opcode \<Rightarrow> bytes \<Rightarrow> bool" where
  "pcp_success_header oc buf \<longleftrightarrow> length buf \<in> {24..1100} \<and> buf ! 0 = 2
     \<and> buf ! 1 = pcp_response_indicator OR pcp_opcode_to_u8 oc \<and> buf ! 3 = 0"

lemma pcp_result_case_Ok:
  "(case rc of PcpSuccess \<Rightarrow> Ok () | PcpError c \<Rightarrow> Err (PcpErrorCode c)) = Ok u \<longleftrightarrow> rc = PcpSuccess"
  "(case rc of PcpSuccess \<Rightarrow> Ok () | PcpError c \<Rightarrow> Err (PcpErrorCode c)) \<noteq> Panic"
  by (cases rc; simp)+

lemma pcp_response_decode_Ok_header:
  "pcp_response_decode buf = Ok r \<longleftrightarrow>
     (\<exists>oc. pcp_success_header oc buf \<and> opcode_data_decode oc (drop 24 buf) = Ok (prs_data r)
       \<and> u32_to_be_bytes (prs_lifetime_seconds r) = [buf ! 4, buf ! 5, buf ! 6, buf ! 7]
       \<and> u32_to_be_bytes (prs_epoch_time r) = [buf ! 8, buf ! 9, buf ! 10, buf ! 11])"
proof (cases "length buf \<in> {24..1100}")
  case True
  then have ne: "buf \<noteq> []" by auto
  have "pcp_response_decode buf = Ok r \<longleftrightarrow>
    (\<exists>oc. buf ! 0 = 2 \<and> (buf ! 1 AND pcp_response_indicator = pcp_response_indicator
        \<and> buf ! 1 AND NOT pcp_response_indicator = pcp_opcode_to_u8 oc) \<and> buf ! 3 = 0
      \<and> opcode_data_decode oc (drop 24 buf) = Ok (prs_data r)
      \<and> u32_from_be (buf ! 4) (buf ! 5) (buf ! 6) (buf ! 7) = prs_lifetime_seconds r
      \<and> u32_from_be (buf ! 8) (buf ! 9) (buf ! 10) (buf ! 11) = prs_epoch_time r)"
    using True ne
    by (cases r) (auto simp: pcp_response_decode_def pcp_size_defs bind_res_eq_Ok ensure_eq ok_or_eq
        map_err_eq slice_simps pcp_try_from_Some pcp_result_case_Ok
        pcp_result_code_try_from_Success)
  then show ?thesis
    unfolding pcp_opcode_indicator using True by (simp add: pcp_success_header_def u32_from_be_eq)
next
  case False
  then show ?thesis
    by (auto simp: pcp_response_decode_def pcp_size_defs res_simps pcp_success_header_def)
qed

lemma pcp_response_decode_Panic_header:
  "pcp_response_decode buf = Panic \<longleftrightarrow>
     (\<exists>oc. pcp_success_header oc buf \<and> opcode_data_decode oc (drop 24 buf) = Panic)"
proof (cases "length buf \<in> {24..1100}")
  case True
  then have ne: "buf \<noteq> []" by auto
  have "pcp_response_decode buf = Panic \<longleftrightarrow>
    (\<exists>oc. buf ! 0 = 2 \<and> (buf ! 1 AND pcp_response_indicator = pcp_response_indicator
        \<and> buf ! 1 AND NOT pcp_response_indicator = pcp_opcode_to_u8 oc) \<and> buf ! 3 = 0
      \<and> opcode_data_decode oc (drop 24 buf) = Panic)"
    using True ne
    by (auto simp: pcp_response_decode_def pcp_size_defs bind_res_eq_Panic ensure_eq ok_or_eq
        map_err_eq slice_simps pcp_try_from_Some pcp_result_case_Ok
        pcp_result_code_try_from_Success)
  then show ?thesis
    unfolding pcp_opcode_indicator using True by (simp add: pcp_success_header_def)
next
  case False
  then show ?thesis
    by (auto simp: pcp_response_decode_def pcp_size_defs res_simps pcp_success_header_def)
qed

lemma opcode_data_decode_Panic:
  "opcode_data_decode oc buf = Panic \<longleftrightarrow> oc = OpMap \<and> map_data_decode buf = Panic"
  by (cases oc) (simp_all add: map_res_eq)

lemma pcp_decode_encoded:
  assumes "wf_opcode_data (prs_data r)"
  shows "pcp_response_decode (pcp_response_encode r) = Ok r"
proof (cases "prs_data r")
  case Announce
  then show ?thesis
    by (auto simp: pcp_response_decode_Ok_header pcp_response_encode_def pcp_success_header_def
        pcp_min_size_def to_be_bytes_def intro!: exI [of _ OpAnnounce])
next
  case (MapData md)
  with assms have wf: "wf_map_data md" by simp
  then show ?thesis using MapData length_map_data_encode [OF wf]
    by (auto simp: pcp_response_decode_Ok_header pcp_response_encode_def pcp_success_header_def
        pcp_size_defs to_be_bytes_def codec_simps intro!: exI [of _ OpMap])
qed

section \<open>Properties\<close>

text \<open>C26: decoding a PCP response panics on exactly one shape of packet: a successful MAP
  response for a known protocol that is longer than the sixty bytes of header and map data, for
  instance because the server appended an option. On every other input it returns.\<close>

theorem pcp_response_decode_Panic_iff:
  "pcp_response_decode buf = Panic \<longleftrightarrow>
     60 < length buf \<and> length buf \<le> 1100 \<and> buf ! 0 = 2 \<and> buf ! 1 = 129 \<and> buf ! 3 = 0
     \<and> (buf ! 36 = 17 \<or> buf ! 36 = 6)"
proof -
  have "pcp_response_decode buf = Panic \<longleftrightarrow>
      pcp_success_header OpMap buf \<and> map_data_decode (drop 24 buf) = Panic"
    by (auto simp: pcp_response_decode_Panic_header opcode_data_decode_Panic)
  then show ?thesis
    by (auto simp: pcp_success_header_def map_data_decode_Panic pcp_response_indicator_def)
qed

text \<open>C28: decoding an encoded response gives the response back, for every opcode, protocol and
  external address.\<close>

theorem pcp_response_decode_encode:
  assumes "wf_opcode_data (prs_data r)"
  shows "pcp_response_decode (pcp_response_encode r) = Ok r"
  using assms by (rule pcp_decode_encoded)

theorem pcp_response_decode_encode_witness:
  "\<exists>r. wf_opcode_data (prs_data r) \<and> prs_data r \<noteq> Announce
     \<and> pcp_response_decode (pcp_response_encode r) = Ok r"
proof -
  let ?r = "\<lparr>prs_lifetime_seconds = 7200, prs_epoch_time = 5,
    prs_data = MapData \<lparr>md_nonce = replicate 12 1, md_protocol = PcpUdp, md_local_port = 1234,
      md_external_port = 1234, md_external_address = Ipv6 0 0 0 0 0 0xffff 0x87b4 0xaff6\<rparr>\<rparr>"
  have "wf_opcode_data (prs_data ?r)" by (simp add: wf_map_data_def)
  then show ?thesis using pcp_response_decode_encode [of ?r]
    by (intro exI [of _ ?r]) simp
qed

text \<open>a response that carries one of the thirteen PCP error codes is reported as that code,
  whatever its opcode data.\<close>

theorem pcp_response_decode_error_code:
  assumes "length buf \<in> {24..1100}" and "buf ! 0 = 2"
    and "buf ! 1 = pcp_response_indicator OR pcp_opcode_to_u8 oc"
    and "buf ! 3 = pcp_error_code_to_u8 c"
  shows "pcp_response_decode buf = Err (PcpErrorCode c)"
proof -
  from assms(1) have "buf \<noteq> []" by auto
  moreover have "buf ! 1 AND pcp_response_indicator = pcp_response_indicator
      \<and> buf ! 1 AND NOT pcp_response_indicator = pcp_opcode_to_u8 oc"
    using assms(3) by (simp only: pcp_opcode_indicator)
  moreover have "pcp_opcode_try_from (pcp_opcode_to_u8 oc) = Some oc"
    by (simp add: pcp_try_from_Some)
  moreover have "pcp_result_code_try_from (pcp_error_code_to_u8 c) = Some (PcpError c)"
    using pcp_result_code_try_from_to [of "PcpError c"] by simp
  ultimately show ?thesis using assms
    by (simp add: pcp_response_decode_def ensure_def ok_or_def slice_simps pcp_size_defs
        pcp_version_try_from_def)
qed

theorem pcp_response_decode_error_code_witness:
  "pcp_response_decode ([2, 129, 0, 8] @ replicate 56 0) = Err (PcpErrorCode NoResources)"
  using pcp_response_decode_error_code [of "[2, 129, 0, 8] @ replicate 56 0" OpMap NoResources]
  by (simp add: pcp_response_indicator_def)

text \<open>a request survives encoding and decoding, and its encoding has the size announced by
  \<^verbatim>\<open>MIN_SIZE + encoded_size()\<close>.\<close>

theorem pcp_request_decode_encode:
  assumes "wf_opcode_data (prq_opcode_data r)"
  shows "pcp_request_decode (pcp_request_encode r) = Ok r
    \<and> length (pcp_request_encode r) =
        pcp_request_min_size + opcode_data_encoded_size (prq_opcode_data r)"
proof (cases r)
  case (fields version lifetime client_addr data)
  show ?thesis
  proof (cases data)
    case Announce
    with fields show ?thesis
      by (cases version)
        (simp add: pcp_request_decode_def pcp_request_encode_def slice_simps expect_def
          pcp_version_try_from_def pcp_opcode_try_from_def to_be_bytes_def codec_simps
          pcp_request_min_size_def)
  next
    case (MapData md)
    with assms fields have wf: "wf_map_data md" by simp
    from fields MapData show ?thesis using length_map_data_encode [OF wf]
      by (cases version)
        (simp add: pcp_request_decode_def pcp_request_encode_def slice_simps expect_def
          pcp_version_try_from_def pcp_opcode_try_from_def to_be_bytes_def codec_simps wf
          pcp_request_min_size_def map_data_encoded_size_def)
  qed
qed

theorem pcp_request_decode_encode_witness:
  "pcp_request_decode (pcp_request_encode (pcp_request_mapping (replicate 12 3) PcpTcp 80
       (Ipv4 10 0 0 2) None None 3600))
     = Ok (pcp_request_mapping (replicate 12 3) PcpTcp 80 (Ipv4 10 0 0 2) None None 3600)"
proof -
  have "wf_opcode_data (prq_opcode_data (pcp_request_mapping (replicate 12 3) PcpTcp 80
       (Ipv4 10 0 0 2) None None 3600))"
    by (simp add: pcp_request_mapping_def wf_map_data_def)
  then show ?thesis by (rule pcp_request_decode_encode [THEN conjunct1])
qed

end
