(* ===== verification/Pcp.thy ===== *)
theory Pcp
  imports Pcp_Protocol Udp_Socket
begin

text \<open>
  The PCP client, \<^verbatim>\<open>portmapper/src/pcp.rs\<close>: registering a mapping, releasing it, and probing
  a gateway with an announce request. The nonce a mapping attempt draws from
  \<^verbatim>\<open>rand::rng()\<close> is an argument.
\<close>

section \<open>pcp.rs\<close>

definition pcp_recv_timeout :: duration where "pcp_recv_timeout = from_millis 500"

definition pcp_requested_lifetime_seconds :: u32 where "pcp_requested_lifetime_seconds = 60 * 60"

record pcp_mapping =
  cm_protocol :: pcp_map_protocol
  cm_local_ip :: ipv4
  cm_local_port :: nzu16
  cm_gateway :: ipv4
  cm_external_port :: nzu16
  cm_external_address :: ipv4
  cm_lifetime_seconds :: u32
  cm_nonce :: bytes

datatype pcp_error =
    NonceMissmatch | ProtocolMissmatch | PortMissmatch | PcpZeroExternalPort | PcpNotIpv4
  | InvalidAnnounce
  | PcpIo io_error
  | PcpProtocol pcp_protocol_error

definition pcp_external :: "pcp_mapping \<Rightarrow> ipv4 \<times> nzu16" where
  "pcp_external m = (cm_external_address m, cm_external_port m)"

definition pcp_half_lifetime :: "pcp_mapping \<Rightarrow> duration" where
  "pcp_half_lifetime m = from_secs (unat (cm_lifetime_seconds m div 2))"

primrec pcp_proto :: "protocol \<Rightarrow> pcp_map_protocol" where
  "pcp_proto Udp = PcpUdp"
| "pcp_proto Tcp = PcpTcp"

definition pcp_open :: "net_env \<Rightarrow> ipv4 \<Rightarrow> ipv4 \<Rightarrow> (unit, pcp_error) io" where
  "pcp_open env local_ip gateway =
     bind_io (op_bind env PcpIo (V4 local_ip, 0)) (\<lambda>_.
     op_connect env PcpIo (V4 gateway, pcp_server_port))"

definition pcp_recv_response :: "net_env \<Rightarrow> (pcp_response, pcp_error) io" where
  "pcp_recv_response env =
     bind_io (op_recv env PcpIo pcp_recv_timeout pcp_max_size) (\<lambda>bs.
     ret_io (map_err PcpProtocol (pcp_response_decode bs)))"

text \<open>The checks on the response of a mapping attempt, in the order of the code.\<close>

definition pcp_check_response ::
  "bytes \<Rightarrow> pcp_map_protocol \<Rightarrow> ipv4 \<Rightarrow> nzu16 \<Rightarrow> ipv4 \<Rightarrow> pcp_response \<Rightarrow> (pcp_mapping, pcp_error) res"
where
  "pcp_check_response nonce protocol local_ip local_port gateway response =
     (case prs_data response of
        MapData md \<Rightarrow>
          if nonce \<noteq> md_nonce md then Err NonceMissmatch
          else if md_protocol md \<noteq> protocol then Err ProtocolMissmatch
          else if md_local_port md \<noteq> nz_get local_port then Err PortMissmatch
          else
            bind_res (ok_or (nz_try_from (md_external_port md)) PcpZeroExternalPort) (\<lambda>external_port.
            bind_res (ok_or (to_ipv4_mapped (md_external_address md)) PcpNotIpv4) (\<lambda>external_address.
            Ok \<lparr>cm_protocol = md_protocol md, cm_local_ip = local_ip, cm_local_port = local_port,
                cm_gateway = gateway, cm_external_port = external_port,
                cm_external_address = external_address,
                cm_lifetime_seconds = prs_lifetime_seconds response, cm_nonce = nonce\<rparr>))
      | Announce \<Rightarrow> Err InvalidAnnounce)"

definition pcp_mapping_new ::
  "net_env \<Rightarrow> bytes \<Rightarrow> protocol \<Rightarrow> ipv4 \<Rightarrow> nzu16 \<Rightarrow> ipv4 \<Rightarrow> (ipv4 \<times> nzu16) option
     \<Rightarrow> (pcp_mapping, pcp_error) io" where
  "pcp_mapping_new env nonce protocol local_ip local_port gateway preferred =
     bind_io (pcp_open env local_ip gateway) (\<lambda>_.
     let (requested_address, requested_port) =
           (case preferred of
              Some (ip, port) \<Rightarrow> (Some ip, Some (nz_get port))
            | None \<Rightarrow> (None, None));
         proto = pcp_proto protocol;
         req = pcp_request_mapping nonce proto (nz_get local_port) local_ip requested_port
                 requested_address pcp_requested_lifetime_seconds
     in
     bind_io (op_send env PcpIo (pcp_request_encode req)) (\<lambda>_.
     bind_io (pcp_recv_response env) (\<lambda>response.
     ret_io (pcp_check_response nonce proto local_ip local_port gateway response))))"

definition pcp_mapping_release :: "net_env \<Rightarrow> pcp_mapping \<Rightarrow> (unit, pcp_error) io" where
  "pcp_mapping_release env m =
     bind_io (pcp_open env (cm_local_ip m) (cm_gateway m)) (\<lambda>_.
     bind_io (op_send env PcpIo (pcp_request_encode
                (pcp_request_mapping (cm_nonce m) (cm_protocol m) (nz_get (cm_local_port m))
                   (cm_local_ip m) None None 0))) (\<lambda>_.
     ret_io (Ok ())))"

definition pcp_probe_available_fallible ::
  "net_env \<Rightarrow> ipv4 \<Rightarrow> ipv4 \<Rightarrow> (pcp_response, pcp_error) io" where
  "pcp_probe_available_fallible env local_ip gateway =
     bind_io (pcp_open env local_ip gateway) (\<lambda>_.
     bind_io (op_send env PcpIo
                (pcp_request_encode (pcp_request_announce (to_ipv6_mapped local_ip)))) (\<lambda>_.
     pcp_recv_response env))"

definition pcp_probe_available :: "net_env \<Rightarrow> ipv4 \<Rightarrow> ipv4 \<Rightarrow> (bool, 'e) io" where
  "pcp_probe_available env local_ip gateway log =
     (case pcp_probe_available_fallible env local_ip gateway log of
        (Ok response, log') \<Rightarrow>
          (Ok (case prs_data response of Announce \<Rightarrow> True | MapData _ \<Rightarrow> False), log')
      | (Err e, log') \<Rightarrow> (Ok False, log')
      | (Panic, log') \<Rightarrow> (Panic, log'))"

section \<open>Facts\<close>

definition pcp_mapping_request ::
  "bytes \<Rightarrow> protocol \<Rightarrow> ipv4 \<Rightarrow> nzu16 \<Rightarrow> (ipv4 \<times> nzu16) option \<Rightarrow> pcp_request" where
  "pcp_mapping_request nonce protocol local_ip local_port preferred =
     pcp_request_mapping nonce (pcp_proto protocol) (nz_get local_port) local_ip
       (map_option (nz_get \<circ> snd) preferred) (map_option fst preferred)
       pcp_requested_lifetime_seconds"

definition pcp_opening_calls :: "ipv4 \<Rightarrow> ipv4 \<Rightarrow> io_log" where
  "pcp_opening_calls local_ip gateway =
     [CallBind (V4 local_ip, 0), CallConnect (V4 gateway, pcp_server_port)]"

lemma pcp_open_Ok:
  "pcp_open env local_ip gateway log = (Ok u, log') \<Longrightarrow>
     log' = log @ pcp_opening_calls local_ip gateway"
  by (auto simp: pcp_open_def bind_io_eq_Ok op_defs pcp_opening_calls_def)

text \<open>The packet a receive returned, and its decoding.\<close>

definition pcp_packet :: "net_env \<Rightarrow> io_log \<Rightarrow> bytes \<Rightarrow> bool" where
  "pcp_packet env log packet \<longleftrightarrow> (\<exists>read buffer. read \<le> length buffer \<and>
     ans_recv env log pcp_max_size = Some (Ok (read, buffer)) \<and> packet = take read buffer)"

definition pcp_received :: "net_env \<Rightarrow> io_log \<Rightarrow> pcp_response \<Rightarrow> bool" where
  "pcp_received env log response \<longleftrightarrow>
     (\<exists>packet. pcp_packet env log packet \<and> pcp_response_decode packet = Ok response)"

lemma pcp_recv_response_Ok:
  "pcp_recv_response env log = (Ok response, log') \<longleftrightarrow>
     pcp_received env log response \<and> log' = log @ [CallRecv pcp_recv_timeout pcp_max_size]"
  by (auto simp: pcp_recv_response_def bind_io_eq_Ok op_defs bind_res_eq_Ok map_err_eq slice_eq_Ok
      pcp_received_def pcp_packet_def split: option.splits)

text \<open>The checks pass exactly on a map response with the nonce, protocol and port of the request, a
  nonzero external port and an IPv4 external address; an IPv4 address travels in its IPv6-mapped
  form.\<close>

lemma pcp_check_response_Ok:
  "pcp_check_response nonce proto local_ip local_port gateway response = Ok m \<longleftrightarrow>
     (\<exists>md. prs_data response = MapData md \<and> md_nonce md = nonce \<and> md_protocol md = proto
        \<and> md_local_port md = nz_get local_port
        \<and> md_external_port md = nz_get (cm_external_port m)
        \<and> to_ipv4_mapped (md_external_address md) = Some (cm_external_address m)
        \<and> m = \<lparr>cm_protocol = proto, cm_local_ip = local_ip, cm_local_port = local_port,
                cm_gateway = gateway, cm_external_port = cm_external_port m,
                cm_external_address = cm_external_address m,
                cm_lifetime_seconds = prs_lifetime_seconds response, cm_nonce = nonce\<rparr>)"
  by (auto simp: pcp_check_response_def bind_res_eq_Ok ok_or_eq nz_try_from_Some
      split: opcode_data.splits if_splits)

lemma pcp_check_response_no_Panic:
  "pcp_check_response nonce proto local_ip local_port gateway response \<noteq> Panic"
  by (auto simp: pcp_check_response_def bind_res_eq_Panic ok_or_eq split: opcode_data.splits)

lemma pcp_decode_Panic_shape:
  assumes "pcp_response_decode packet = Panic"
  shows "60 < length packet \<and> packet ! 1 = 129"
  using assms
  by (auto simp: pcp_response_decode_Panic_header opcode_data_decode_Panic map_data_decode_Panic
      pcp_success_header_def pcp_response_indicator_def)

context udp_env
begin

lemma pcp_open_no_Panic: "fst (pcp_open env a b log) \<noteq> Panic"
  by (simp add: pcp_open_def bind_io_fst_Panic no_Panic)

text \<open>A receive panics only when the decoder does, on a packet that came from the gateway.\<close>

lemma pcp_recv_Panic:
  "fst (pcp_recv_response env log) = Panic \<longleftrightarrow>
     (\<exists>packet. pcp_packet env log packet \<and> pcp_response_decode packet = Panic)"
proof -
  have "fst (pcp_recv_response env log) = Panic \<longleftrightarrow>
      (\<exists>bs log'. op_recv env PcpIo pcp_recv_timeout pcp_max_size log = (Ok bs, log')
        \<and> pcp_response_decode bs = Panic)"
    by (simp add: pcp_recv_response_def bind_io_fst_Panic no_Panic ret_io_eq map_err_eq)
  then show ?thesis
    by (fastforce simp: op_recv_def bind_res_eq_Ok slice_eq_Ok pcp_packet_def map_err_eq
        split: option.splits)
qed

end

text \<open>A mapping attempt up to its receive: the log after the request was sent, if it was.\<close>

definition pcp_request_log ::
  "bytes \<Rightarrow> protocol \<Rightarrow> ipv4 \<Rightarrow> nzu16 \<Rightarrow> ipv4 \<Rightarrow> (ipv4 \<times> nzu16) option \<Rightarrow> io_log \<Rightarrow> io_log" where
  "pcp_request_log nonce protocol local_ip local_port gateway preferred log =
     log @ pcp_opening_calls local_ip gateway
     @ [CallSend (pcp_request_encode
          (pcp_mapping_request nonce protocol local_ip local_port preferred))]"

definition pcp_request_sent ::
  "net_env \<Rightarrow> ipv4 \<Rightarrow> ipv4 \<Rightarrow> bytes \<Rightarrow> io_log \<Rightarrow> bool" where
  "pcp_request_sent env local_ip gateway request log \<longleftrightarrow>
     is_ok (ans_bind env log (V4 local_ip, 0))
     \<and> is_ok (ans_connect env (log @ [CallBind (V4 local_ip, 0)]) (V4 gateway, pcp_server_port))
     \<and> is_ok (ans_send env (log @ pcp_opening_calls local_ip gateway) request)"

lemma pcp_mapping_new_unfold:
  "pcp_mapping_new env nonce protocol local_ip local_port gateway preferred =
     bind_io (pcp_open env local_ip gateway) (\<lambda>_.
     bind_io (op_send env PcpIo (pcp_request_encode
        (pcp_mapping_request nonce protocol local_ip local_port preferred))) (\<lambda>_.
     bind_io (pcp_recv_response env) (\<lambda>response.
     ret_io (pcp_check_response nonce (pcp_proto protocol) local_ip local_port gateway response))))"
  by (auto simp: pcp_mapping_new_def pcp_mapping_request_def Let_def split: option.splits)

lemma pcp_open_Ok_iff:
  "pcp_open env local_ip gateway log = (Ok u, log') \<longleftrightarrow>
     is_ok (ans_bind env log (V4 local_ip, 0))
     \<and> is_ok (ans_connect env (log @ [CallBind (V4 local_ip, 0)]) (V4 gateway, pcp_server_port))
     \<and> log' = log @ pcp_opening_calls local_ip gateway"
  by (auto simp: pcp_open_def bind_io_eq_Ok op_defs pcp_opening_calls_def map_err_eq is_ok_iff)

lemma pcp_new_eq_Ok:
  "pcp_mapping_new env nonce protocol local_ip local_port gateway preferred log = (Ok m, log') \<longleftrightarrow>
     pcp_request_sent env local_ip gateway (pcp_request_encode
        (pcp_mapping_request nonce protocol local_ip local_port preferred)) log
     \<and> (\<exists>response. pcp_received env
          (pcp_request_log nonce protocol local_ip local_port gateway preferred log) response
        \<and> pcp_check_response nonce (pcp_proto protocol) local_ip local_port gateway response = Ok m)
     \<and> log' = pcp_request_log nonce protocol local_ip local_port gateway preferred log
         @ [CallRecv pcp_recv_timeout pcp_max_size]"
  by (auto simp: pcp_mapping_new_unfold bind_io_eq_Ok ret_io_eq pcp_open_Ok_iff op_send_def map_err_eq
      pcp_recv_response_Ok pcp_request_sent_def pcp_request_log_def is_ok_iff)

lemma pcp_new_eq_Panic:
  assumes "udp_env env"
  shows "fst (pcp_mapping_new env nonce protocol local_ip local_port gateway preferred log) = Panic \<longleftrightarrow>
     pcp_request_sent env local_ip gateway (pcp_request_encode
        (pcp_mapping_request nonce protocol local_ip local_port preferred)) log
     \<and> (\<exists>packet. pcp_packet env
          (pcp_request_log nonce protocol local_ip local_port gateway preferred log) packet
        \<and> pcp_response_decode packet = Panic)"
  by (auto simp: pcp_mapping_new_unfold bind_io_fst_Panic ret_io_eq pcp_open_Ok_iff op_send_def
      map_err_eq pcp_check_response_no_Panic udp_env.pcp_recv_Panic [OF assms]
      udp_env.pcp_open_no_Panic [OF assms] udp_env.send_no_Panic [OF assms]
      pcp_request_sent_def pcp_request_log_def is_ok_iff)

text \<open>An environment in which every call succeeds and every receive yields one packet; the reply of
  a server to a request for UDP port 1234 with the nonce of twelve ones.\<close>

definition pcp_replying_env :: "bytes \<Rightarrow> net_env" where
  "pcp_replying_env packet =
     \<lparr>ans_bind = (\<lambda>_ _. Ok ()), ans_connect = (\<lambda>_ _. Ok ()), ans_send = (\<lambda>_ bs. Ok (length bs)),
      ans_recv = (\<lambda>log n. Some (Ok (recv_into packet n)))\<rparr>"

definition pcp_sample_response :: pcp_response where
  "pcp_sample_response =
     \<lparr>prs_lifetime_seconds = 3600, prs_epoch_time = 5,
      prs_data = MapData \<lparr>md_nonce = replicate 12 1, md_protocol = PcpUdp, md_local_port = 1234,
        md_external_port = 5000, md_external_address = to_ipv6_mapped (Ipv4 203 0 113 9)\<rparr>\<rparr>"

lemma pcp_replying_env_udp: "udp_env (pcp_replying_env packet)"
  by unfold_locales (auto simp: pcp_replying_env_def dest: recv_into_bounds)

lemma pcp_replying_env_sent: "pcp_request_sent (pcp_replying_env packet) local_ip gateway req log"
  by (simp add: pcp_request_sent_def pcp_replying_env_def)

lemma pcp_replying_env_packet:
  assumes "length packet \<le> pcp_max_size"
  shows "pcp_packet (pcp_replying_env packet) log packet"
  using assms by (auto simp: pcp_packet_def pcp_replying_env_def recv_into_def)

lemma pcp_sample_length: "length (pcp_response_encode pcp_sample_response) = 60"
  by (simp add: pcp_response_encode_def pcp_sample_response_def map_data_encode_def pcp_min_size_def)

lemma pcp_sample_received:
  "pcp_received (pcp_replying_env (pcp_response_encode pcp_sample_response)) log pcp_sample_response"
  unfolding pcp_received_def
proof (intro exI conjI)
  show "pcp_packet (pcp_replying_env (pcp_response_encode pcp_sample_response)) log
      (pcp_response_encode pcp_sample_response)"
    by (rule pcp_replying_env_packet) (simp add: pcp_sample_length pcp_max_size_def)
  have "wf_opcode_data (prs_data pcp_sample_response)"
    by (simp add: pcp_sample_response_def wf_map_data_def)
  then show "pcp_response_decode (pcp_response_encode pcp_sample_response) = Ok pcp_sample_response"
    by (rule pcp_decode_encoded)
qed

section \<open>Properties\<close>

text \<open>C6: a PCP mapping attempt yields a mapping exactly when the socket could be bound, connected
  to port 5351 of the gateway and the mapping request sent, and the packet received next decodes
  to a map response with the nonce, the protocol and the local port of the request, a nonzero
  external port and an IPv4-mapped external address; the mapping carries exactly these, with the
  lifetime the server granted.\<close>

theorem pcp_mapping_new_Ok_iff:
  "pcp_mapping_new env nonce protocol local_ip local_port gateway preferred log = (Ok m, log') \<longleftrightarrow>
     pcp_request_sent env local_ip gateway (pcp_request_encode
        (pcp_mapping_request nonce protocol local_ip local_port preferred)) log
     \<and> (\<exists>response md. pcp_received env
          (pcp_request_log nonce protocol local_ip local_port gateway preferred log) response
        \<and> prs_data response = MapData md \<and> md_nonce md = nonce
        \<and> md_protocol md = pcp_proto protocol \<and> md_local_port md = nz_get local_port
        \<and> md_external_port md = nz_get (cm_external_port m)
        \<and> to_ipv4_mapped (md_external_address md) = Some (cm_external_address m)
        \<and> cm_lifetime_seconds m = prs_lifetime_seconds response)
     \<and> cm_protocol m = pcp_proto protocol \<and> cm_local_ip m = local_ip
     \<and> cm_local_port m = local_port \<and> cm_gateway m = gateway \<and> cm_nonce m = nonce
     \<and> log' = pcp_request_log nonce protocol local_ip local_port gateway preferred log
         @ [CallRecv pcp_recv_timeout pcp_max_size]"
  by (cases m) (fastforce simp: pcp_new_eq_Ok pcp_check_response_Ok)

text \<open>under the socket contract, releasing never panics, and a mapping attempt panics exactly when
  the gateway answers the request with a packet the decoder panics on: a successful map response
  with more than sixty bytes.\<close>

theorem pcp_client_Panic_iff:
  assumes "udp_env env"
  shows "fst (pcp_mapping_release env m log) \<noteq> Panic
    \<and> (fst (pcp_mapping_new env nonce protocol local_ip local_port gateway preferred log) = Panic \<longleftrightarrow>
        pcp_request_sent env local_ip gateway (pcp_request_encode
          (pcp_mapping_request nonce protocol local_ip local_port preferred)) log
        \<and> (\<exists>packet. pcp_packet env
              (pcp_request_log nonce protocol local_ip local_port gateway preferred log) packet
            \<and> pcp_success_header OpMap packet \<and> 60 < length packet
            \<and> (packet ! 36 = 17 \<or> packet ! 36 = 6)))"
proof -
  have shape: "pcp_response_decode packet = Panic \<longleftrightarrow> pcp_success_header OpMap packet
      \<and> 60 < length packet \<and> (packet ! 36 = 17 \<or> packet ! 36 = 6)" for packet
    by (auto simp: pcp_response_decode_Panic_header opcode_data_decode_Panic map_data_decode_Panic
        pcp_success_header_def)
  have "fst (pcp_mapping_release env m log) \<noteq> Panic"
    by (simp add: pcp_mapping_release_def bind_io_fst_Panic ret_io_eq udp_env.no_Panic [OF assms]
        udp_env.pcp_open_no_Panic [OF assms])
  then show ?thesis
    by (simp add: pcp_new_eq_Panic [OF assms] shape)
qed

theorem pcp_client_Panic_iff_witness:
  "fst (pcp_mapping_new (pcp_replying_env (pcp_response_encode pcp_sample_response @ [0]))
      (replicate 12 1) Udp (Ipv4 10 0 0 2) (Abs_nzu16 1234) (Ipv4 10 0 0 1) None []) = Panic"
proof -
  let ?p = "pcp_response_encode pcp_sample_response @ [0]"
  have "pcp_packet (pcp_replying_env ?p) log ?p" for log
    by (rule pcp_replying_env_packet) (simp add: pcp_sample_length pcp_max_size_def)
  moreover have "pcp_success_header OpMap ?p \<and> 60 < length ?p \<and> ?p ! 36 = 17"
    by (simp add: pcp_success_header_def pcp_response_encode_def pcp_sample_response_def
        map_data_encode_def to_be_bytes_def pcp_min_size_def nth_append)
  ultimately show ?thesis
    using pcp_client_Panic_iff [OF pcp_replying_env_udp [of ?p]] pcp_replying_env_sent by blast
qed

text \<open>releasing a mapping that an attempt registered sends one request to the same gateway: the
  deletion (lifetime zero, no preferred address or port) of the mapping with its own nonce,
  protocol and local port.\<close>

theorem pcp_release_request:
  assumes "pcp_mapping_new env nonce protocol local_ip local_port gateway preferred log = (Ok m, log')"
    and "pcp_mapping_release env' m log1 = (Ok u, log2)"
  shows "log2 = log1 @ pcp_opening_calls local_ip gateway
    @ [CallSend (pcp_request_encode (pcp_request_mapping nonce (pcp_proto protocol)
         (nz_get local_port) local_ip None None 0))]"
  using assms(2) assms(1) [unfolded pcp_new_eq_Ok pcp_check_response_Ok]
  by (cases m) (auto simp: pcp_mapping_release_def bind_io_eq_Ok ret_io_eq op_send_def pcp_open_Ok_iff)

theorem pcp_release_request_witness:
  "\<exists>m log'. pcp_mapping_release (pcp_replying_env []) m [] = (Ok (), log')
    \<and> last log' = CallSend (pcp_request_encode (pcp_request_mapping (replicate 12 1) PcpUdp 1234
         (Ipv4 10 0 0 2) None None 0))"
proof -
  let ?env = "pcp_replying_env (pcp_response_encode pcp_sample_response)"
  let ?m = "\<lparr>cm_protocol = PcpUdp, cm_local_ip = Ipv4 10 0 0 2, cm_local_port = Abs_nzu16 1234,
    cm_gateway = Ipv4 10 0 0 1, cm_external_port = Abs_nzu16 5000,
    cm_external_address = Ipv4 203 0 113 9, cm_lifetime_seconds = 3600, cm_nonce = replicate 12 1\<rparr>"
  have "pcp_check_response (replicate 12 1) PcpUdp (Ipv4 10 0 0 2) (Abs_nzu16 1234) (Ipv4 10 0 0 1)
      pcp_sample_response = Ok ?m"
    by (simp add: pcp_check_response_Ok pcp_sample_response_def del: to_ipv6_mapped.simps)
  then have new: "pcp_mapping_new ?env (replicate 12 1) Udp (Ipv4 10 0 0 2) (Abs_nzu16 1234)
      (Ipv4 10 0 0 1) None [] = (Ok ?m, pcp_request_log (replicate 12 1) Udp (Ipv4 10 0 0 2)
        (Abs_nzu16 1234) (Ipv4 10 0 0 1) None [] @ [CallRecv pcp_recv_timeout pcp_max_size])"
    using pcp_sample_received by (auto simp: pcp_new_eq_Ok pcp_replying_env_sent)
  obtain log' where rel: "pcp_mapping_release (pcp_replying_env []) ?m [] = (Ok (), log')"
    by (simp add: pcp_mapping_release_def bind_io_def pcp_open_def op_defs pcp_replying_env_def)
  show ?thesis
    using pcp_release_request [OF new rel] rel by (intro exI [of _ ?m] exI [of _ log']) simp
qed

end
