(* ===== verification/Port_Metrics.thy ===== *)
theory Port_Metrics
  imports Port_Io
begin

text \<open>
  The counters of \<^verbatim>\<open>portmapper/src/metrics.rs\<close>. The sources share one \<^verbatim>\<open>Arc<Metrics>\<close> between
  the service, the current mapping and the UPnP probe and only ever increment; the model threads
  the record through the operations.
\<close>

record metrics =
  probes_started :: nat
  local_port_updates :: nat
  mapping_attempts :: nat
  mapping_failures :: nat
  external_address_updated :: nat
  upnp_probes :: nat
  upnp_probes_failed :: nat
  upnp_available :: nat
  upnp_gateway_updated :: nat
  pcp_probes :: nat
  pcp_available :: nat

definition metrics_default :: metrics where
  "metrics_default =
     \<lparr>probes_started = 0, local_port_updates = 0, mapping_attempts = 0, mapping_failures = 0,
      external_address_updated = 0, upnp_probes = 0, upnp_probes_failed = 0, upnp_available = 0,
      upnp_gateway_updated = 0, pcp_probes = 0, pcp_available = 0\<rparr>"

end
