(* ===== verification/Upnp.thy ===== *)
theory Upnp
  imports Port_Metrics
begin

text \<open>
  The UPnP client, \<^verbatim>\<open>portmapper/src/upnp.rs\<close>. The gateway is a value of the third-party crate
  \<^verbatim>\<open>igd_next\<close>: its type is a parameter \<open>'g\<close>, its operations are the fields of an environment
  record, answered as functions of the log of the calls made so far, and its errors are opaque.
\<close>

section \<open>The gateway device\<close>

text \<open>\<^verbatim>\<open>igd_next::PortMappingProtocol\<close>.\<close>

datatype igd_protocol = IgdUdp | IgdTcp

type_synonym igd_error = nat

datatype 'g igd_call =
    IgdSearch duration
  | IgdGetExternalIp 'g
  | IgdAddPort 'g igd_protocol u16 socket_addr u32 string
  | IgdAddAnyPort 'g igd_protocol socket_addr u32 string
  | IgdRemovePort 'g igd_protocol u16

type_synonym 'g igd_log = "'g igd_call list"

text \<open>A search under \<^verbatim>\<open>tokio::time::timeout\<close> elapses (\<open>None\<close>) or returns.\<close>

record 'g igd_env =
  ans_search :: "'g igd_log \<Rightarrow> ('g, igd_error) res option"
  ans_external_ip :: "'g igd_log \<Rightarrow> 'g \<Rightarrow> (ip_addr, igd_error) res"
  ans_add_port :: "'g igd_log \<Rightarrow> 'g \<Rightarrow> igd_protocol \<Rightarrow> u16 \<Rightarrow> socket_addr \<Rightarrow> (unit, igd_error) res"
  ans_add_any_port :: "'g igd_log \<Rightarrow> 'g \<Rightarrow> igd_protocol \<Rightarrow> socket_addr \<Rightarrow> (u16, igd_error) res"
  ans_remove_port :: "'g igd_log \<Rightarrow> 'g \<Rightarrow> igd_protocol \<Rightarrow> u16 \<Rightarrow> (unit, igd_error) res"

section \<open>upnp.rs\<close>

definition upnp_search_timeout :: duration where "upnp_search_timeout = from_secs 1"

definition port_mapping_lease_duration_seconds :: u32 where
  "port_mapping_lease_duration_seconds = 2 * 60 * 60"

definition upnp_half_lifetime_const :: duration where "upnp_half_lifetime_const = from_secs (60 * 60)"

definition port_mapping_description :: string where
  "port_mapping_description = ''iroh-portmap''"

record 'g upnp_mapping =
  um_protocol :: igd_protocol
  um_gateway :: 'g
  um_external_ip :: ipv4
  um_external_port :: nzu16

datatype upnp_error =
    UpnpZeroExternalPort
  | UpnpNotIpv4
  | UpnpRemovePort igd_error
  | UpnpSearch igd_error
  | UpnpGetExternalIp igd_error
  | UpnpAddAnyPort igd_error
  | UpnpIo io_error

type_synonym ('a, 'g) igd_io = "('a, upnp_error, 'g igd_log) io_on"

text \<open>The calls on the gateway, with the error conversions of \<^verbatim>\<open>?\<close>.\<close>

definition igd_search :: "'g igd_env \<Rightarrow> ('g, 'g) igd_io" where
  "igd_search igd log =
     ((case ans_search igd log of
         None \<Rightarrow> Err (UpnpIo TimedOut)
       | Some r \<Rightarrow> map_err UpnpSearch r),
      log @ [IgdSearch upnp_search_timeout])"

definition igd_get_external_ip :: "'g igd_env \<Rightarrow> 'g \<Rightarrow> (ip_addr, 'g) igd_io" where
  "igd_get_external_ip igd g log =
     (map_err UpnpGetExternalIp (ans_external_ip igd log g), log @ [IgdGetExternalIp g])"

text \<open>\<^verbatim>\<open>gateway.add_port(...).await.is_ok()\<close>: an error only selects the fallback.\<close>

definition igd_add_port_is_ok ::
  "'g igd_env \<Rightarrow> 'g \<Rightarrow> igd_protocol \<Rightarrow> u16 \<Rightarrow> socket_addr \<Rightarrow> (bool, 'g) igd_io" where
  "igd_add_port_is_ok igd g protocol external_port addr log =
     ((case ans_add_port igd log g protocol external_port addr of
         Ok _ \<Rightarrow> Ok True
       | Err e \<Rightarrow> Ok False
       | Panic \<Rightarrow> Panic),
      log @ [IgdAddPort g protocol external_port addr port_mapping_lease_duration_seconds
               port_mapping_description])"

definition igd_add_any_port ::
  "'g igd_env \<Rightarrow> 'g \<Rightarrow> igd_protocol \<Rightarrow> socket_addr \<Rightarrow> (u16, 'g) igd_io" where
  "igd_add_any_port igd g protocol addr log =
     (map_err UpnpAddAnyPort (ans_add_any_port igd log g protocol addr),
      log @ [IgdAddAnyPort g protocol addr port_mapping_lease_duration_seconds
               port_mapping_description])"

definition igd_remove_port :: "'g igd_env \<Rightarrow> 'g \<Rightarrow> igd_protocol \<Rightarrow> u16 \<Rightarrow> (unit, 'g) igd_io" where
  "igd_remove_port igd g protocol external_port log =
     (map_err UpnpRemovePort (ans_remove_port igd log g protocol external_port),
      log @ [IgdRemovePort g protocol external_port])"

primrec upnp_proto :: "protocol \<Rightarrow> igd_protocol" where
  "upnp_proto Udp = IgdUdp"
| "upnp_proto Tcp = IgdTcp"

text \<open>Obtaining the external port: the preferred one first, then any.\<close>

definition upnp_request_port ::
  "'g igd_env \<Rightarrow> 'g \<Rightarrow> igd_protocol \<Rightarrow> socket_addr \<Rightarrow> nzu16 option \<Rightarrow> (nzu16, 'g) igd_io" where
  "upnp_request_port igd gateway protocol addr preferred_port =
     (let any_port =
            bind_io (igd_add_any_port igd gateway protocol addr) (\<lambda>p.
            ret_io (ok_or (nz_try_from p) UpnpZeroExternalPort))
      in case preferred_port of
           Some external_port \<Rightarrow>
             bind_io (igd_add_port_is_ok igd gateway protocol (nz_get external_port) addr) (\<lambda>added.
             if added then ret_io (Ok external_port) else any_port)
         | None \<Rightarrow> any_port)"

definition upnp_mapping_new ::
  "'g igd_env \<Rightarrow> protocol \<Rightarrow> ipv4 \<Rightarrow> nzu16 \<Rightarrow> 'g option \<Rightarrow> nzu16 option \<Rightarrow> ('g upnp_mapping, 'g) igd_io"
where
  "upnp_mapping_new igd protocol local_ip port gateway preferred_port =
     (let addr = (V4 local_ip, nz_get port) in
     bind_io (case gateway of Some known \<Rightarrow> ret_io (Ok known) | None \<Rightarrow> igd_search igd) (\<lambda>gateway.
     bind_io (igd_get_external_ip igd gateway) (\<lambda>ip.
     case ip of
       V6 _ \<Rightarrow> ret_io (Err UpnpNotIpv4)
     | V4 external_ip \<Rightarrow>
         let protocol = upnp_proto protocol in
         bind_io (upnp_request_port igd gateway protocol addr preferred_port) (\<lambda>external_port.
         ret_io (Ok \<lparr>um_protocol = protocol, um_gateway = gateway, um_external_ip = external_ip,
           um_external_port = external_port\<rparr>)))))"

definition upnp_half_lifetime :: "'g upnp_mapping \<Rightarrow> duration" where
  "upnp_half_lifetime m = upnp_half_lifetime_const"

definition upnp_mapping_release :: "'g igd_env \<Rightarrow> 'g upnp_mapping \<Rightarrow> (unit, 'g) igd_io" where
  "upnp_mapping_release igd m =
     bind_io (igd_remove_port igd (um_gateway m) (um_protocol m) (nz_get (um_external_port m))) (\<lambda>_.
     ret_io (Ok ()))"

definition upnp_external :: "'g upnp_mapping \<Rightarrow> ipv4 \<times> nzu16" where
  "upnp_external m = (um_external_ip m, um_external_port m)"

definition upnp_probe_available ::
  "'g igd_env \<Rightarrow> metrics \<Rightarrow> ('g option \<times> metrics, unit, 'g igd_log) io_on" where
  "upnp_probe_available igd metrics log =
     (let metrics = metrics\<lparr>upnp_probes := Suc (upnp_probes metrics)\<rparr>;
          failed = metrics\<lparr>upnp_probes_failed := Suc (upnp_probes_failed metrics)\<rparr>;
          log' = log @ [IgdSearch upnp_search_timeout]
      in case ans_search igd log of
           Some (Ok gateway) \<Rightarrow> (Ok (Some gateway, metrics), log')
         | None \<Rightarrow> (Ok (None, failed), log')
         | Some (Err e) \<Rightarrow> (Ok (None, failed), log')
         | Some Panic \<Rightarrow> (Panic, log'))"

lemmas igd_call_defs =
  igd_search_def igd_get_external_ip_def igd_add_port_is_ok_def igd_add_any_port_def
  igd_remove_port_def

section \<open>Properties\<close>

text \<open>The gateway a mapping attempt uses and the log once it has it: the known one, or the answer of
  a search.\<close>

definition upnp_gateway_found :: "'g igd_env \<Rightarrow> 'g option \<Rightarrow> 'g igd_log \<Rightarrow> 'g \<Rightarrow> 'g igd_log \<Rightarrow> bool"
where
  "upnp_gateway_found igd gateway log g log1 \<longleftrightarrow>
     (case gateway of
        Some known \<Rightarrow> g = known \<and> log1 = log
      | None \<Rightarrow> ans_search igd log = Some (Ok g) \<and> log1 = log @ [IgdSearch upnp_search_timeout])"

definition upnp_add_port_call :: "'g \<Rightarrow> protocol \<Rightarrow> ipv4 \<Rightarrow> nzu16 \<Rightarrow> nzu16 \<Rightarrow> 'g igd_call" where
  "upnp_add_port_call g protocol local_ip port external_port =
     IgdAddPort g (upnp_proto protocol) (nz_get external_port) (V4 local_ip, nz_get port)
       7200 ''iroh-portmap''"

definition upnp_add_any_port_call :: "'g \<Rightarrow> protocol \<Rightarrow> ipv4 \<Rightarrow> nzu16 \<Rightarrow> 'g igd_call" where
  "upnp_add_any_port_call g protocol local_ip port =
     IgdAddAnyPort g (upnp_proto protocol) (V4 local_ip, nz_get port) 7200 ''iroh-portmap''"

lemmas upnp_call_defs = upnp_add_port_call_def upnp_add_any_port_call_def
  port_mapping_lease_duration_seconds_def port_mapping_description_def

lemma upnp_gateway_step:
  "(case gateway of Some known \<Rightarrow> ret_io (Ok known) | None \<Rightarrow> igd_search igd) log = (Ok g, log1)
     \<longleftrightarrow> upnp_gateway_found igd gateway log g log1"
  by (auto simp: upnp_gateway_found_def ret_io_def igd_search_def map_err_eq split: option.splits)

lemma igd_get_external_ip_Ok:
  "igd_get_external_ip igd g log = (Ok ip, log') \<longleftrightarrow>
     ans_external_ip igd log g = Ok ip \<and> log' = log @ [IgdGetExternalIp g]"
  by (auto simp: igd_get_external_ip_def map_err_eq)

lemma igd_add_port_is_ok_Ok:
  "igd_add_port_is_ok igd g proto p addr log = (Ok b, log') \<longleftrightarrow>
     (if b then ans_add_port igd log g proto p addr = Ok ()
      else \<exists>e. ans_add_port igd log g proto p addr = Err e)
     \<and> log' = log @ [IgdAddPort g proto p addr port_mapping_lease_duration_seconds
               port_mapping_description]"
  by (cases b; cases "ans_add_port igd log g proto p addr")
    (auto simp: igd_add_port_is_ok_def)

lemma igd_add_any_port_Ok:
  "igd_add_any_port igd g proto addr log = (Ok w, log') \<longleftrightarrow>
     ans_add_any_port igd log g proto addr = Ok w
     \<and> log' = log @ [IgdAddAnyPort g proto addr port_mapping_lease_duration_seconds
               port_mapping_description]"
  by (auto simp: igd_add_any_port_def map_err_eq)

lemma v4_or_else_Ok:
  "(case ip of V6 a \<Rightarrow> ret_io (Err e) | V4 a \<Rightarrow> f a) log = (Ok m, log')
     \<longleftrightarrow> (\<exists>a. ip = V4 a \<and> f a log = (Ok m, log'))"
  by (cases ip) (auto simp: ret_io_eq)

text \<open>The calls made for a preferred port, and what obtaining a port returns.\<close>

definition upnp_preferred_calls :: "'g \<Rightarrow> protocol \<Rightarrow> ipv4 \<Rightarrow> nzu16 \<Rightarrow> nzu16 option \<Rightarrow> 'g igd_log" where
  "upnp_preferred_calls g protocol local_ip port preferred =
     (case preferred of
        Some p \<Rightarrow> [upnp_add_port_call g protocol local_ip port p]
      | None \<Rightarrow> [])"

definition upnp_port_granted ::
  "'g igd_env \<Rightarrow> 'g \<Rightarrow> protocol \<Rightarrow> ipv4 \<Rightarrow> nzu16 \<Rightarrow> nzu16 option \<Rightarrow> 'g igd_log \<Rightarrow> nzu16 \<Rightarrow> 'g igd_log \<Rightarrow> bool"
where
  "upnp_port_granted igd g protocol local_ip port preferred log external_port log' \<longleftrightarrow>
     (let addr = (V4 local_ip, nz_get port);
          granted = (\<lambda>p. ans_add_port igd log g (upnp_proto protocol) (nz_get p) addr);
          log1 = log @ upnp_preferred_calls g protocol local_ip port preferred
      in preferred = Some external_port \<and> granted external_port = Ok () \<and> log' = log1
       \<or> (case preferred of Some p \<Rightarrow> (\<exists>e. granted p = Err e) | None \<Rightarrow> True)
         \<and> ans_add_any_port igd log1 g (upnp_proto protocol) addr = Ok (nz_get external_port)
         \<and> log' = log1 @ [upnp_add_any_port_call g protocol local_ip port])"

lemma upnp_request_port_Ok:
  "upnp_request_port igd g (upnp_proto protocol) (V4 local_ip, nz_get port) preferred log
      = (Ok external_port, log')
     \<longleftrightarrow> upnp_port_granted igd g protocol local_ip port preferred log external_port log'"
proof (cases preferred)
  case None
  then show ?thesis
    by (auto simp: upnp_request_port_def upnp_port_granted_def upnp_preferred_calls_def Let_def bind_io_eq_Ok
        ret_io_eq ok_or_eq nz_try_from_Some igd_add_any_port_Ok upnp_call_defs)
next
  case (Some p)
  then show ?thesis
    by (auto simp: upnp_request_port_def upnp_port_granted_def upnp_preferred_calls_def Let_def bind_io_eq_Ok
        ret_io_eq ok_or_eq nz_try_from_Some igd_add_any_port_Ok igd_add_port_is_ok_Ok upnp_call_defs
        ex_bool_eq)
qed

text \<open>C8: a UPnP attempt yields a mapping exactly when a gateway is known or found in time, it reports
  an IPv4 external address, and either it grants the preferred external port, or no preferred port
  is given or granted and it assigns another nonzero port. The mapping carries the gateway, the
  reported address and the granted port, the lease asked for is two hours for the local address
  and port, and an assigned port is never asked for once the preferred one is granted.\<close>

theorem upnp_mapping_new_Ok_iff:
  "upnp_mapping_new igd protocol local_ip port gateway preferred log = (Ok m, log') \<longleftrightarrow>
     um_protocol m = upnp_proto protocol
     \<and> (\<exists>log1. upnp_gateway_found igd gateway log (um_gateway m) log1
        \<and> ans_external_ip igd log1 (um_gateway m) = Ok (V4 (um_external_ip m))
        \<and> upnp_port_granted igd (um_gateway m) protocol local_ip port preferred
            (log1 @ [IgdGetExternalIp (um_gateway m)]) (um_external_port m) log')"
  by (cases m) (auto simp: upnp_mapping_new_def Let_def bind_io_eq_Ok upnp_gateway_step
      igd_get_external_ip_Ok upnp_request_port_Ok ret_io_eq v4_or_else_Ok)

end
