(* ===== verification/Port_Mapping.thy ===== *)
theory Port_Mapping
  imports Nat_Pmp Pcp Upnp
begin

text \<open>
  A port mapping of any of the three protocols, \<^verbatim>\<open>portmapper/src/mapping.rs\<close>: the attempts that
  create one, its external address and half lifetime, and its release. The two kinds of I/O, the
  UDP socket and the gateway device, keep a log each.
\<close>

section \<open>mapping.rs\<close>

datatype 'g mapping =
    MappingUpnp "'g upnp_mapping"
  | MappingPcp pcp_mapping
  | MappingNatPmp pmp_mapping

datatype mapping_error =
    MappingPcpError pcp_error
  | MappingNatPmpError pmp_error
  | MappingUpnpError upnp_error

type_synonym 'g logs = "io_log \<times> 'g igd_log"

definition on_udp :: "('a, 'e) io \<Rightarrow> ('a, 'e, 'g logs) io_on" where
  "on_udp p = (\<lambda>(log, ilog). case p log of (r, log') \<Rightarrow> (r, (log', ilog)))"

definition on_igd :: "('a, 'e, 'g igd_log) io_on \<Rightarrow> ('a, 'e, 'g logs) io_on" where
  "on_igd p = (\<lambda>(log, ilog). case p ilog of (r, ilog') \<Rightarrow> (r, (log, ilog')))"

text \<open>\<^verbatim>\<open>.map(f).map_err(g)\<close> on the result of an attempt.\<close>

definition map_io :: "('a \<Rightarrow> 'b) \<Rightarrow> ('e \<Rightarrow> 'f) \<Rightarrow> ('a, 'e, 'l) io_on \<Rightarrow> ('b, 'f, 'l) io_on" where
  "map_io f g p l = (case p l of (r, l') \<Rightarrow> (map_err g (map_res f r), l'))"

definition mapping_new_pcp ::
  "net_env \<Rightarrow> bytes \<Rightarrow> protocol \<Rightarrow> ipv4 \<Rightarrow> nzu16 \<Rightarrow> ipv4 \<Rightarrow> (ipv4 \<times> nzu16) option
     \<Rightarrow> ('g mapping, mapping_error, 'g logs) io_on" where
  "mapping_new_pcp env nonce protocol local_ip local_port gateway external_addr =
     on_udp (map_io MappingPcp MappingPcpError
       (pcp_mapping_new env nonce protocol local_ip local_port gateway external_addr))"

definition mapping_new_nat_pmp ::
  "net_env \<Rightarrow> protocol \<Rightarrow> ipv4 \<Rightarrow> nzu16 \<Rightarrow> ipv4 \<Rightarrow> (ipv4 \<times> nzu16) option
     \<Rightarrow> ('g mapping, mapping_error, 'g logs) io_on" where
  "mapping_new_nat_pmp env protocol local_ip local_port gateway external_addr =
     on_udp (map_io MappingNatPmp MappingNatPmpError
       (pmp_mapping_new env protocol local_ip local_port gateway (map_option snd external_addr)))"

definition mapping_new_upnp ::
  "'g igd_env \<Rightarrow> protocol \<Rightarrow> ipv4 \<Rightarrow> nzu16 \<Rightarrow> 'g option \<Rightarrow> nzu16 option
     \<Rightarrow> ('g mapping, mapping_error, 'g logs) io_on" where
  "mapping_new_upnp igd protocol local_ip local_port gateway external_port =
     on_igd (map_io MappingUpnp MappingUpnpError
       (upnp_mapping_new igd protocol local_ip local_port gateway external_port))"

primrec mapping_release ::
  "net_env \<Rightarrow> 'g igd_env \<Rightarrow> 'g mapping \<Rightarrow> (unit, mapping_error, 'g logs) io_on" where
  "mapping_release env igd (MappingUpnp m) =
     on_igd (map_io id MappingUpnpError (upnp_mapping_release igd m))"
| "mapping_release env igd (MappingPcp m) =
     on_udp (map_io id MappingPcpError (pcp_mapping_release env m))"
| "mapping_release env igd (MappingNatPmp m) =
     on_udp (map_io id MappingNatPmpError (pmp_mapping_release env m))"

primrec mapping_external :: "'g mapping \<Rightarrow> ipv4 \<times> nzu16" where
  "mapping_external (MappingUpnp m) = upnp_external m"
| "mapping_external (MappingPcp m) = pcp_external m"
| "mapping_external (MappingNatPmp m) = pmp_external m"

primrec mapping_half_lifetime :: "'g mapping \<Rightarrow> duration" where
  "mapping_half_lifetime (MappingUpnp m) = upnp_half_lifetime m"
| "mapping_half_lifetime (MappingPcp m) = pcp_half_lifetime m"
| "mapping_half_lifetime (MappingNatPmp m) = pmp_half_lifetime m"

section \<open>Facts\<close>

lemma map_io_Ok:
  "map_io f g p l = (Ok b, l') \<longleftrightarrow> (\<exists>a. p l = (Ok a, l') \<and> b = f a)"
  by (auto simp: map_io_def map_err_eq map_res_eq split: prod.splits)

lemma on_udp_Ok:
  "on_udp p (log, ilog) = (Ok a, logs') \<longleftrightarrow> (\<exists>log'. p log = (Ok a, log') \<and> logs' = (log', ilog))"
  by (auto simp: on_udp_def split: prod.splits)

lemma on_igd_Ok:
  "on_igd p (log, ilog) = (Ok a, logs') \<longleftrightarrow> (\<exists>ilog'. p ilog = (Ok a, ilog') \<and> logs' = (log, ilog'))"
  by (auto simp: on_igd_def split: prod.splits)

lemmas mapping_io_Ok = map_io_Ok on_udp_Ok on_igd_Ok

text \<open>Half lifetimes are whole seconds and at most half the range of the lifetime field.\<close>

lemma half_lifetime_bound:
  "mapping_half_lifetime m \<le> from_secs (2 ^ 31)"
proof -
  have half: "unat (w div 2 :: u32) \<le> 2 ^ 31" for w
  proof -
    have "unat w < 2 ^ 32" using unsigned_less [of w] by simp
    then show ?thesis by (simp add: unat_div_distrib)
  qed
  show ?thesis
    using half by (cases m)
      (auto simp: upnp_half_lifetime_def upnp_half_lifetime_const_def pcp_half_lifetime_def
        pmp_half_lifetime_def from_secs_def)
qed

end
