(* ===== verification/Current_Mapping.thy ===== *)
theory Current_Mapping
  imports Port_Mapping
begin

text \<open>
  The current mapping and its lifetime, \<^verbatim>\<open>portmapper/src/current_mapping.rs\<close>. The code is
  generic in the mapping type through the trait \<^verbatim>\<open>Mapping\<close>; the operations here take its two
  methods, the external address and the half lifetime, as arguments. Time is an argument: a
  \<^verbatim>\<open>Sleep\<close> is its deadline and is ready once the clock has reached it. A waker is identified by
  the task it wakes, and an operation returns the wakers it woke.
\<close>

section \<open>Watch channels\<close>

text \<open>\<^verbatim>\<open>tokio::sync::watch\<close>: the value, and a version that counts the notified changes.\<close>

record 'v watch =
  watch_value :: 'v
  watch_version :: nat

definition watch_channel :: "'v \<Rightarrow> 'v watch" where
  "watch_channel v = \<lparr>watch_value = v, watch_version = 0\<rparr>"

section \<open>current\_mapping.rs\<close>

type_synonym waker = nat

type_synonym external_addr = "ipv4 \<times> nzu16"

record 'm active_mapping =
  am_mapping :: 'm
  am_deadline :: instant
  am_expire_after :: bool

definition active_mapping_new :: "('m \<Rightarrow> duration) \<Rightarrow> instant \<Rightarrow> 'm \<Rightarrow> 'm active_mapping" where
  "active_mapping_new half_lifetime now m =
     \<lparr>am_mapping = m, am_deadline = now + half_lifetime m, am_expire_after = False\<rparr>"

datatype event = Renew ipv4 nzu16 | Expired ipv4 nzu16

record 'm current_mapping =
  cur_mapping :: "'m active_mapping option"
  cur_address :: "(ipv4 \<times> u16) option watch"
  cur_waker :: "waker option"

definition current_mapping_new :: "'m current_mapping" where
  "current_mapping_new = \<lparr>cur_mapping = None, cur_address = watch_channel None, cur_waker = None\<rparr>"

text \<open>\<^verbatim>\<open>SocketAddrV4::new(ip, port.into())\<close>.\<close>

definition socket_addr_v4 :: "external_addr \<Rightarrow> ipv4 \<times> u16" where
  "socket_addr_v4 a = (fst a, nz_get (snd a))"

definition current_update ::
  "('m \<Rightarrow> external_addr) \<Rightarrow> ('m \<Rightarrow> duration) \<Rightarrow> instant \<Rightarrow> 'm option
     \<Rightarrow> 'm current_mapping \<Rightarrow> metrics \<Rightarrow> 'm option \<times> 'm current_mapping \<times> metrics \<times> waker list" where
  "current_update external half_lifetime now mapping c metrics =
     (let maybe_external_addr = map_option (\<lambda>m. socket_addr_v4 (external m)) mapping;
          old_mapping = map_option am_mapping (cur_mapping c);
          woken = (case cur_waker c of Some w \<Rightarrow> [w] | None \<Rightarrow> []);
          old_addr = watch_value (cur_address c);
          update = (old_addr \<noteq> maybe_external_addr);
          metrics' = (if update
            then metrics\<lparr>external_address_updated := Suc (external_address_updated metrics)\<rparr>
            else metrics);
          version = watch_version (cur_address c)
      in (old_mapping,
          c\<lparr>cur_mapping := map_option (active_mapping_new half_lifetime now) mapping,
            cur_address := \<lparr>watch_value = maybe_external_addr,
              watch_version = (if update then Suc version else version)\<rparr>\<rparr>,
          metrics', woken))"

text \<open>The waker is replaced only if there is none, or if it already wakes the polling task.\<close>

definition current_grab_waker :: "waker \<Rightarrow> 'm current_mapping \<Rightarrow> 'm current_mapping" where
  "current_grab_waker cx c =
     (case cur_waker c of
        Some w \<Rightarrow> if w = cx then c\<lparr>cur_waker := Some cx\<rparr> else c
      | None \<Rightarrow> c\<lparr>cur_waker := Some cx\<rparr>)"

definition current_poll ::
  "('m \<Rightarrow> external_addr) \<Rightarrow> ('m \<Rightarrow> duration) \<Rightarrow> instant \<Rightarrow> waker
     \<Rightarrow> 'm current_mapping \<Rightarrow> metrics \<Rightarrow> event option \<times> 'm current_mapping \<times> metrics \<times> waker list" where
  "current_poll external half_lifetime now cx c0 metrics =
     (let c = current_grab_waker cx c0 in
      case cur_mapping c of
        Some am \<Rightarrow>
          if am_deadline am \<le> now then
            let (external_ip, external_port) = external (am_mapping am) in
            if am_expire_after am then
              (case current_update external half_lifetime now None c metrics of
                 (_, c', metrics', woken) \<Rightarrow>
                   (Some (Expired external_ip external_port), c', metrics', woken))
            else
              (Some (Renew external_ip external_port),
               c\<lparr>cur_mapping := Some (am\<lparr>am_deadline := now + half_lifetime (am_mapping am),
                   am_expire_after := True\<rparr>)\<rparr>,
               metrics, [])
          else (None, c, metrics, [])
      | None \<Rightarrow> (None, c, metrics, []))"

definition current_external :: "('m \<Rightarrow> external_addr) \<Rightarrow> 'm current_mapping \<Rightarrow> external_addr option" where
  "current_external external c = map_option (\<lambda>am. external (am_mapping am)) (cur_mapping c)"

section \<open>The slot contract\<close>

text \<open>
  What the service relies on: a slot holds at most one mapping, reports its external address, and
  publishes it. The laws speak of the slot's invariant, of what an update installs and returns,
  and of what a poll may change.
\<close>

locale mapping_slot =
  fixes inv :: "'s \<Rightarrow> bool"
    and init :: 's
    and held :: "'s \<Rightarrow> 'm option"
    and published :: "'s \<Rightarrow> 'v option"
    and publish :: "'m \<Rightarrow> 'v"
    and upd :: "instant \<Rightarrow> 'm option \<Rightarrow> 's \<Rightarrow> 'm option \<times> 's"
    and tick :: "instant \<Rightarrow> waker \<Rightarrow> 's \<Rightarrow> event option \<times> 's"
  assumes inv_init: "inv init"
    and held_init: "held init = None"
    and inv_published: "inv s \<Longrightarrow> published s = map_option publish (held s)"
    and inv_upd: "inv s \<Longrightarrow> upd now m s = (old, s') \<Longrightarrow> inv s' \<and> held s' = m \<and> old = held s"
    and inv_tick: "inv s \<Longrightarrow> tick now w s = (e, s') \<Longrightarrow> inv s'"
    and held_tick: "tick now w s = (e, s') \<Longrightarrow>
      held s' = (case e of Some (Expired ip port) \<Rightarrow> None | _ \<Rightarrow> held s)"
    and event_held: "tick now w s = (Some ev, s') \<Longrightarrow> held s \<noteq> None"
begin

text \<open>The states reached by updates and polls in any order.\<close>

inductive reached :: "'s \<Rightarrow> bool" where
  reached_init: "reached init"
| reached_upd: "reached s \<Longrightarrow> upd now m s = (old, s') \<Longrightarrow> reached s'"
| reached_tick: "reached s \<Longrightarrow> tick now w s = (e, s') \<Longrightarrow> reached s'"

lemma reached_inv: "reached s \<Longrightarrow> inv s"
  by (induction rule: reached.induct) (auto simp: inv_init dest: inv_upd inv_tick)

lemma reached_published: "reached s \<Longrightarrow> published s = map_option publish (held s)"
  by (simp add: inv_published reached_inv)

lemma upd_published:
  assumes "inv s" and "upd now m s = (old, s')"
  shows "published s' = map_option publish m"
  using inv_upd [OF assms] inv_published by auto

lemma tick_published:
  assumes "inv s" and "tick now w s = (e, s')"
  shows "published s' = (case e of Some (Expired ip port) \<Rightarrow> None | _ \<Rightarrow> published s)"
  using inv_tick [OF assms] held_tick [OF assms(2)] inv_published assms(1)
  by (auto split: option.splits event.splits)

end

section \<open>Facts\<close>

definition current_inv ::
  "('m \<Rightarrow> external_addr) \<Rightarrow> 'm current_mapping \<times> metrics \<Rightarrow> bool" where
  "current_inv external s \<longleftrightarrow>
     watch_value (cur_address (fst s)) = map_option socket_addr_v4 (current_external external (fst s))"

definition current_held :: "'m current_mapping \<times> metrics \<Rightarrow> 'm option" where
  "current_held s = map_option am_mapping (cur_mapping (fst s))"

lemmas current_defs =
  current_update_def current_poll_def current_grab_waker_def current_external_def
  active_mapping_new_def Let_def

lemma current_grab_waker_fields [simp]:
  "cur_mapping (current_grab_waker cx c) = cur_mapping c"
  "cur_address (current_grab_waker cx c) = cur_address c"
  by (auto simp: current_grab_waker_def split: option.splits)

lemma current_update_inv:
  assumes "current_update external half now m c mt = (old, c', mt', woken)"
  shows "current_inv external (c', mt')" and "current_held (c', mt') = m"
    and "old = current_held (c, mt)"
  using assms by (auto simp: current_update_def Let_def current_inv_def current_held_def
      current_external_def active_mapping_new_def option.map_comp o_def option.map_ident)

lemma current_poll_cases:
  assumes "current_poll external half now w c mt = (e, c', mt', woken)"
  obtains (pending) "e = None" "cur_mapping c' = cur_mapping c" "cur_address c' = cur_address c"
      "mt' = mt" "\<And>am. cur_mapping c = Some am \<Longrightarrow> now < am_deadline am"
    | (renew) am where "cur_mapping c = Some am" "\<not> am_expire_after am" "am_deadline am \<le> now"
        "e = Some (Renew (fst (external (am_mapping am))) (snd (external (am_mapping am))))"
        "cur_mapping c' = Some (am\<lparr>am_deadline := now + half (am_mapping am), am_expire_after := True\<rparr>)"
        "cur_address c' = cur_address c" "mt' = mt"
    | (expired) am where "cur_mapping c = Some am" "am_expire_after am" "am_deadline am \<le> now"
        "e = Some (Expired (fst (external (am_mapping am))) (snd (external (am_mapping am))))"
        "cur_mapping c' = None"
        "\<exists>old. current_update external half now None (current_grab_waker w c) mt = (old, c', mt', woken)"
proof (cases "cur_mapping c")
  case None
  then show thesis using assms pending by (auto simp: current_poll_def Let_def)
next
  case (Some am)
  consider "now < am_deadline am" | "am_deadline am \<le> now" "am_expire_after am"
    | "am_deadline am \<le> now" "\<not> am_expire_after am" by fastforce
  then show thesis
  proof cases
    case 1
    then show thesis using assms Some by (intro pending) (auto simp: current_poll_def Let_def)
  next
    case 2
    then show thesis using assms Some
      by (intro expired [of am]) (auto simp: current_poll_def current_update_def Let_def split: prod.splits)
  next
    case 3
    then show thesis using assms Some
      by (intro renew [of am]) (auto simp: current_poll_def Let_def split: prod.splits)
  qed
qed

text \<open>The slot operations over the current mapping and the shared metrics, without the wakers.\<close>

definition slot_update ::
  "('m \<Rightarrow> external_addr) \<Rightarrow> ('m \<Rightarrow> duration) \<Rightarrow> instant \<Rightarrow> 'm option
     \<Rightarrow> 'm current_mapping \<times> metrics \<Rightarrow> 'm option \<times> 'm current_mapping \<times> metrics" where
  "slot_update external half now m s =
     (case current_update external half now m (fst s) (snd s) of (old, c, mt, _) \<Rightarrow> (old, c, mt))"

definition slot_poll ::
  "('m \<Rightarrow> external_addr) \<Rightarrow> ('m \<Rightarrow> duration) \<Rightarrow> instant \<Rightarrow> waker
     \<Rightarrow> 'm current_mapping \<times> metrics \<Rightarrow> event option \<times> 'm current_mapping \<times> metrics" where
  "slot_poll external half now w s =
     (case current_poll external half now w (fst s) (snd s) of (e, c, mt, _) \<Rightarrow> (e, c, mt))"

lemma current_poll_inv:
  assumes "current_inv external (c, mt)"
    and poll: "current_poll external half now w c mt = (e, c', mt', woken)"
  shows "current_inv external (c', mt')"
  using poll
proof (cases rule: current_poll_cases)
  case expired
  then show ?thesis using current_update_inv(1) by blast
qed (use assms(1) in \<open>auto simp: current_inv_def current_external_def\<close>)

lemma current_poll_held:
  assumes "current_poll external half now w c mt = (e, c', mt', woken)"
  shows "current_held (c', mt') =
      (case e of Some (Expired ip port) \<Rightarrow> None | _ \<Rightarrow> current_held (c, mt))"
    and "e = Some ev \<Longrightarrow> current_held (c, mt) \<noteq> None"
  using assms by (cases rule: current_poll_cases; simp add: current_held_def)+

interpretation cm: mapping_slot
  "current_inv external" "(current_mapping_new, metrics_default)" current_held
  "\<lambda>s. watch_value (cur_address (fst s))" "\<lambda>m. socket_addr_v4 (external m)"
  "slot_update external half" "slot_poll external half"
  for external :: "'m \<Rightarrow> external_addr" and half
proof
  show "current_inv external (current_mapping_new, metrics_default)"
    and "current_held (current_mapping_new, metrics_default) = None"
    by (simp_all add: current_inv_def current_held_def current_mapping_new_def watch_channel_def
        current_external_def)
next
  fix s :: "'m current_mapping \<times> metrics"
  assume "current_inv external s"
  then show "watch_value (cur_address (fst s)) =
      map_option (\<lambda>m. socket_addr_v4 (external m)) (current_held s)"
    by (simp add: current_inv_def current_held_def current_external_def option.map_comp o_def)
next
  fix s s' :: "'m current_mapping \<times> metrics" and now m old
  assume "slot_update external half now m s = (old, s')"
  then show "current_inv external s' \<and> current_held s' = m \<and> old = current_held s"
    by (cases s) (auto simp: slot_update_def dest: current_update_inv split: prod.splits)
next
  fix s s' :: "'m current_mapping \<times> metrics" and now w e
  assume "current_inv external s" and "slot_poll external half now w s = (e, s')"
  then show "current_inv external s'"
    by (cases s) (auto simp: slot_poll_def dest: current_poll_inv split: prod.splits)
next
  fix s s' :: "'m current_mapping \<times> metrics" and now w e
  assume "slot_poll external half now w s = (e, s')"
  then show "current_held s' = (case e of Some (Expired ip port) \<Rightarrow> None | _ \<Rightarrow> current_held s)"
    by (cases s) (auto simp: slot_poll_def dest: current_poll_held(1) split: prod.splits)
next
  fix s s' :: "'m current_mapping \<times> metrics" and now w ev
  assume "slot_poll external half now w s = (Some ev, s')"
  then show "current_held s \<noteq> None"
    by (cases s) (auto simp: slot_poll_def dest: current_poll_held(2) split: prod.splits)
qed

section \<open>Properties\<close>

text \<open>A run of operations on the current mapping: updates and polls at their instants.\<close>

datatype 'm current_op = OpUpdate instant "'m option" | OpPoll instant waker

fun current_run ::
  "('m \<Rightarrow> external_addr) \<Rightarrow> ('m \<Rightarrow> duration) \<Rightarrow> 'm current_op list
     \<Rightarrow> 'm current_mapping \<times> metrics \<Rightarrow> event list \<times> 'm current_mapping \<times> metrics" where
  "current_run external half [] s = ([], s)"
| "current_run external half (OpUpdate now m # ops) s =
     (case slot_update external half now m s of (_, s') \<Rightarrow> current_run external half ops s')"
| "current_run external half (OpPoll now w # ops) s =
     (case slot_poll external half now w s of
        (None, s') \<Rightarrow> current_run external half ops s'
      | (Some e, s') \<Rightarrow>
          (case current_run external half ops s' of (es, s'') \<Rightarrow> (e # es, s'')))"

lemma current_run_reached:
  assumes "cm.reached external half s"
  shows "cm.reached external half (snd (current_run external half ops s))"
  using assms
  by (induction external half ops s rule: current_run.induct)
    (auto split: prod.splits option.splits; blast intro: cm.reached_upd cm.reached_tick)+

text \<open>whatever updates and polls are made, at whatever times, the address published to the
  watchers is that of the mapping held: none without a mapping, its external address and port
  otherwise.\<close>

theorem current_published:
  "let (c, mt) = snd (current_run external half ops (current_mapping_new, metrics_default))
   in watch_value (cur_address c) = map_option socket_addr_v4 (current_external external c)"
proof -
  have "cm.reached external half
      (snd (current_run external half ops (current_mapping_new, metrics_default)))"
    by (rule current_run_reached) (rule cm.reached_init)
  then have "current_inv external
      (snd (current_run external half ops (current_mapping_new, metrics_default)))"
    by (rule cm.reached_inv)
  then show ?thesis by (simp add: current_inv_def case_prod_unfold)
qed

text \<open>The events of a mapping installed at \<open>t\<close> with half lifetime \<open>h\<close>, over the instants of the
  polls that follow: a renewal at the first poll from \<open>t + h\<close> on, and an expiry at the first poll
  at least \<open>h\<close> after that.\<close>

definition lifecycle_events :: "external_addr \<Rightarrow> instant \<Rightarrow> duration \<Rightarrow> instant list \<Rightarrow> event list" where
  "lifecycle_events a t h us =
     (case dropWhile (\<lambda>u. u < t + h) us of
        [] \<Rightarrow> []
      | u # us' \<Rightarrow>
          Renew (fst a) (snd a) # (if \<exists>v\<in>set us'. u + h \<le> v then [Expired (fst a) (snd a)] else []))"

lemma current_run_poll:
  assumes "slot_poll external half now w s = (e, s')"
  shows "fst (current_run external half (OpPoll now w # ops) s) =
      (case e of None \<Rightarrow> [] | Some e \<Rightarrow> [e]) @ fst (current_run external half ops s')"
    and "snd (current_run external half (OpPoll now w # ops) s) = snd (current_run external half ops s')"
  using assms by (auto split: prod.splits option.splits)

abbreviation polls_of :: "(instant \<times> waker) list \<Rightarrow> 'm current_op list" where
  "polls_of polls \<equiv> map (\<lambda>(u, w). OpPoll u w) polls"

lemma polls_empty:
  "cur_mapping (fst s) = None \<Longrightarrow> fst (current_run external half (polls_of polls) s) = []"
  by (induction polls arbitrary: s)
    (auto simp: slot_poll_def current_poll_def Let_def split: prod.splits)

lemma polls_expiring:
  fixes external :: "'m \<Rightarrow> external_addr"
  assumes "cur_mapping (fst s) = Some am" and "am_expire_after am"
  defines "a \<equiv> external (am_mapping am)"
  shows "fst (current_run external half (polls_of polls) s) =
    (if \<exists>v\<in>set (map fst polls). am_deadline am \<le> v then [Expired (fst a) (snd a)] else [])"
  using assms(1)
proof (induction polls arbitrary: s)
  case (Cons p polls)
  obtain u w where p: "p = (u, w)" by force
  obtain e c' mt' woken where poll: "current_poll external half u w (fst s) (snd s) = (e, c', mt', woken)"
    by (metis prod_cases4)
  then have sp: "slot_poll external half u w s = (e, c', mt')" by (simp add: slot_poll_def)
  show ?case
    using poll
  proof (cases rule: current_poll_cases)
    case pending
    then have "fst (current_run external half (polls_of polls) (c', mt')) =
        (if \<exists>v\<in>set (map fst polls). am_deadline am \<le> v then [Expired (fst a) (snd a)] else [])"
      using Cons by simp
    with pending(1) pending(5) [OF Cons.prems] show ?thesis by (simp add: p sp)
  next
    case (expired am')
    then show ?thesis using Cons.prems polls_empty [of "(c', mt')" external half polls]
      by (auto simp: p sp a_def split: prod.splits)
  qed (use Cons.prems assms(2) in auto)
qed simp

lemma polls_fresh:
  assumes "cur_mapping (fst s) = Some (active_mapping_new half t m)"
  shows "fst (current_run external half (polls_of polls) s) =
    lifecycle_events (external m) t (half m) (map fst polls)"
  using assms
proof (induction polls arbitrary: s)
  case (Cons p polls)
  obtain u w where p: "p = (u, w)" by force
  obtain e c' mt' woken where poll: "current_poll external half u w (fst s) (snd s) = (e, c', mt', woken)"
    by (metis prod_cases4)
  then have sp: "slot_poll external half u w s = (e, c', mt')" by (simp add: slot_poll_def)
  show ?case
    using poll
  proof (cases rule: current_poll_cases)
    case pending
    then have "u < t + half m" using Cons.prems by (simp add: active_mapping_new_def)
    moreover have "fst (current_run external half (polls_of polls) (c', mt')) =
        lifecycle_events (external m) t (half m) (map fst polls)"
      using pending Cons by simp
    ultimately show ?thesis using pending by (simp add: p sp lifecycle_events_def)
  next
    case (renew am')
    let ?am = "active_mapping_new half t m\<lparr>am_deadline := u + half m, am_expire_after := True\<rparr>"
    have "cur_mapping c' = Some ?am" and "t + half m \<le> u"
      using renew Cons.prems by (auto simp: active_mapping_new_def)
    then have "fst (current_run external half (polls_of polls) (c', mt')) =
        (if \<exists>v\<in>set (map fst polls). u + half m \<le> v
         then [Expired (fst (external m)) (snd (external m))] else [])"
      using polls_expiring [of "(c', mt')" ?am external half polls]
      by (simp add: active_mapping_new_def)
    moreover have "am' = active_mapping_new half t m" using renew(1) Cons.prems by simp
    ultimately show ?thesis
      using renew(4) \<open>t + half m \<le> u\<close>
      by (simp add: p current_run_poll [OF sp] lifecycle_events_def active_mapping_new_def
          del: current_run.simps)
  qed (use Cons.prems in \<open>auto simp: active_mapping_new_def\<close>)
qed (simp add: lifecycle_events_def)

text \<open>C3: the lifetime of a mapping. However it is polled after it is installed at \<open>t\<close>, the events are
  exactly: nothing before half its lifetime has passed, one renewal at the first poll after that,
  one expiry at the first poll a further half lifetime after the renewal, and nothing more.\<close>

theorem current_lifecycle:
  "fst (current_run external half (OpUpdate t (Some m) # polls_of polls) s) =
     lifecycle_events (external m) t (half m) (map fst polls)"
  by (cases "slot_update external half t (Some m) s")
    (auto simp: slot_update_def current_update_def Let_def intro!: polls_fresh split: prod.splits)

lemma slot_update_waker: "cur_waker (fst (snd (slot_update external half now m s))) = cur_waker (fst s)"
  by (simp add: slot_update_def current_update_def Let_def)

lemma slot_poll_waker:
  assumes "cur_waker (fst s) = Some w"
  shows "cur_waker (fst (snd (slot_poll external half now cx s))) = Some w"
proof -
  have "cur_waker (current_grab_waker cx (fst s)) = Some w"
    using assms by (simp add: current_grab_waker_def)
  then show ?thesis
    by (cases "cur_mapping (fst s)")
      (simp_all add: slot_poll_def current_poll_def current_update_def Let_def case_prod_unfold)
qed

lemma current_run_waker:
  assumes "cur_waker (fst s) = Some w"
  shows "cur_waker (fst (snd (current_run external half ops s))) = Some w"
  using assms
proof (induction ops arbitrary: s)
  case (Cons x ops)
  show ?case
  proof (cases x)
    case (OpUpdate now m)
    have "cur_waker (fst (snd (slot_update external half now m s))) = Some w"
      using Cons.prems by (simp add: slot_update_waker)
    from Cons.IH [OF this] show ?thesis by (simp add: OpUpdate case_prod_unfold)
  next
    case (OpPoll now cx)
    from Cons.IH [OF slot_poll_waker [OF Cons.prems]] show ?thesis
      by (simp add: OpPoll current_run_poll(2) [OF prod.collapse [symmetric]] del: current_run.simps)
  qed
qed simp

text \<open>the waker of the first poll is never replaced: once a task has polled the current mapping, an
  update wakes that task and no other, whichever tasks polled it since.\<close>

theorem current_waker_stale:
  "let (c, mt) = snd (current_run external half (OpPoll t w # ops) (current_mapping_new, metrics_default));
       (old, c', mt', woken) = current_update external half now m c mt
   in woken = [w]"
proof -
  have "cur_waker (fst (snd (slot_poll external half t w (current_mapping_new, metrics_default)))) = Some w"
    by (simp add: slot_poll_def current_defs current_mapping_new_def)
  then have "cur_waker (fst (snd (current_run external half (OpPoll t w # ops)
      (current_mapping_new, metrics_default)))) = Some w"
    by (subst current_run_poll(2) [OF prod.collapse [symmetric]]) (rule current_run_waker)
  then show ?thesis by (simp add: current_update_def Let_def case_prod_unfold)
qed

end
