(* ===== verification/Probe.thy ===== *)
theory Probe
  imports Port_Mapping
begin

text \<open>
  Probing the three protocols, the \<^verbatim>\<open>Probe\<close> part of \<^verbatim>\<open>portmapper/src/lib.rs\<close>: the probe
  record, the concurrent probing tasks, what of a probe still counts as available, and the merge of
  a newer probe. The instant at which the code reads the clock is an argument.
\<close>

section \<open>Configuration and outputs\<close>

definition availability_trust_duration :: duration where
  "availability_trust_duration = from_secs (60 * 10)"

definition unavailability_trust_duration :: duration where
  "unavailability_trust_duration = from_secs 5"

record probe_output =
  po_upnp :: bool
  po_pcp :: bool
  po_nat_pmp :: bool

definition all_available :: "probe_output \<Rightarrow> bool" where
  "all_available po \<longleftrightarrow> po_upnp po \<and> po_pcp po \<and> po_nat_pmp po"

datatype probe_error = ChannelFull | ChannelClosed | NoGateway | Ipv6Gateway | ProbeJoin bool bool

record config =
  enable_upnp :: bool
  enable_pcp :: bool
  enable_nat_pmp :: bool
  cfg_protocol :: protocol

definition config_default :: config where
  "config_default =
     \<lparr>enable_upnp = True, enable_pcp = True, enable_nat_pmp = True, cfg_protocol = Udp\<rparr>"

section \<open>The probe\<close>

record 'g probe =
  last_probe :: instant
  last_upnp_gateway_addr :: "('g \<times> instant) option"
  last_pcp :: "instant option"
  last_nat_pmp :: "instant option"

definition probe_empty :: "instant \<Rightarrow> 'g probe" where
  "probe_empty now =
     \<lparr>last_probe = now, last_upnp_gateway_addr = None, last_pcp = None, last_nat_pmp = None\<rparr>"

text \<open>
  The three probing tasks run concurrently. A tick is the completion of a task at an instant; the
  loop waits for the next one among the tasks that are not done, whose guards are open. The results
  of the tasks are arguments, a panic of one unwinds the loop, and \<open>None\<close> is a loop still waiting.
\<close>

datatype probe_task = UpnpTask | PcpTask | NatPmpTask

record 'g probe_results =
  res_upnp :: "('g option, unit) res"
  res_pcp :: "(bool, unit) res"
  res_nat_pmp :: "(bool, unit) res"

record probe_done =
  upnp_done :: bool
  pcp_done :: bool
  nat_pmp_done :: bool

text \<open>\<^verbatim>\<open>available.then(Instant::now)\<close>.\<close>

definition then_now :: "instant \<Rightarrow> bool \<Rightarrow> instant option" where
  "then_now t available = (if available then Some t else None)"

primrec task_done :: "probe_done \<Rightarrow> probe_task \<Rightarrow> bool" where
  "task_done d UpnpTask = upnp_done d"
| "task_done d PcpTask = pcp_done d"
| "task_done d NatPmpTask = nat_pmp_done d"

primrec set_done :: "probe_task \<Rightarrow> probe_done \<Rightarrow> probe_done" where
  "set_done UpnpTask d = d\<lparr>upnp_done := True\<rparr>"
| "set_done PcpTask d = d\<lparr>pcp_done := True\<rparr>"
| "set_done NatPmpTask d = d\<lparr>nat_pmp_done := True\<rparr>"

text \<open>The arms of the \<^verbatim>\<open>select!\<close>: the result of the task goes into its field.\<close>

primrec record_result :: "'g probe_results \<Rightarrow> instant \<Rightarrow> 'g probe \<Rightarrow> probe_task \<Rightarrow> ('g probe, unit) res"
where
  "record_result rs t probe UpnpTask =
     map_res (\<lambda>gateway. probe\<lparr>last_upnp_gateway_addr := map_option (\<lambda>addr. (addr, t)) gateway\<rparr>)
       (res_upnp rs)"
| "record_result rs t probe PcpTask =
     map_res (\<lambda>available. probe\<lparr>last_pcp := then_now t available\<rparr>) (res_pcp rs)"
| "record_result rs t probe NatPmpTask =
     map_res (\<lambda>available. probe\<lparr>last_nat_pmp := then_now t available\<rparr>) (res_nat_pmp rs)"

definition probing :: "probe_done \<Rightarrow> bool" where
  "probing d \<longleftrightarrow> \<not> upnp_done d \<or> \<not> pcp_done d \<or> \<not> nat_pmp_done d"

fun probe_loop ::
  "'g probe_results \<Rightarrow> (probe_task \<times> instant) list \<Rightarrow> probe_done \<Rightarrow> 'g probe
     \<Rightarrow> ('g probe, unit) res option" where
  "probe_loop rs [] d probe = (if probing d then None else Some (Ok probe))"
| "probe_loop rs ((task, t) # ticks) d probe =
     (if \<not> probing d then Some (Ok probe)
      else if task_done d task then probe_loop rs ticks d probe
      else case record_result rs t probe task of
          Ok probe' \<Rightarrow> probe_loop rs ticks (set_done task d) probe'
        | Err e \<Rightarrow> Some (Err e)
        | Panic \<Rightarrow> Some Panic)"

text \<open>The results of the tasks against an environment; each task keeps its own logs.\<close>

definition probe_task_results :: "net_env \<Rightarrow> 'g igd_env \<Rightarrow> ipv4 \<Rightarrow> ipv4 \<Rightarrow> metrics \<Rightarrow> 'g probe_results"
where
  "probe_task_results env igd local_ip gateway metrics =
     \<lparr>res_upnp = map_res fst (fst (upnp_probe_available igd metrics [])),
      res_pcp = fst (pcp_probe_available env local_ip gateway []),
      res_nat_pmp = fst (pmp_probe_available env local_ip gateway [])\<rparr>"

definition probe_needed :: "config \<Rightarrow> probe_output \<Rightarrow> probe_task \<Rightarrow> bool" where
  "probe_needed config output task =
     (case task of
        UpnpTask \<Rightarrow> enable_upnp config \<and> \<not> po_upnp output
      | PcpTask \<Rightarrow> enable_pcp config \<and> \<not> po_pcp output
      | NatPmpTask \<Rightarrow> enable_nat_pmp config \<and> \<not> po_nat_pmp output)"

definition probe_from_output ::
  "net_env \<Rightarrow> 'g igd_env \<Rightarrow> config \<Rightarrow> probe_output \<Rightarrow> ipv4 \<Rightarrow> ipv4 \<Rightarrow> metrics
     \<Rightarrow> instant \<Rightarrow> (probe_task \<times> instant) list \<Rightarrow> ('g probe, unit) res option" where
  "probe_from_output env igd config output local_ip gateway metrics now ticks =
     probe_loop (probe_task_results env igd local_ip gateway metrics) ticks
       \<lparr>upnp_done = \<not> probe_needed config output UpnpTask,
        pcp_done = \<not> probe_needed config output PcpTask,
        nat_pmp_done = \<not> probe_needed config output NatPmpTask\<rparr>
       (probe_empty now)"

text \<open>The counters a probe increments: the UPnP probe is counted by the caller and by the task.\<close>

definition probe_from_output_metrics ::
  "'g igd_env \<Rightarrow> config \<Rightarrow> probe_output \<Rightarrow> metrics \<Rightarrow> metrics" where
  "probe_from_output_metrics igd config output mt0 =
     (let mt1 = (if probe_needed config output UpnpTask
            then mt0\<lparr>upnp_probes := Suc (upnp_probes mt0)\<rparr> else mt0);
          mt2 = (if probe_needed config output PcpTask
            then mt1\<lparr>pcp_probes := Suc (pcp_probes mt1)\<rparr> else mt1)
      in if probe_needed config output UpnpTask
         then (case fst (upnp_probe_available igd mt2 []) of
             Ok (_, mt3) \<Rightarrow> mt3
           | _ \<Rightarrow> mt2\<lparr>upnp_probes := Suc (upnp_probes mt2)\<rparr>)
         else mt2)"

definition still_trusted :: "instant \<Rightarrow> instant option \<Rightarrow> bool" where
  "still_trusted now last_probed =
     (case last_probed of
        Some t \<Rightarrow> t + availability_trust_duration > now
      | None \<Rightarrow> False)"

definition probe_output_of :: "instant \<Rightarrow> 'g probe \<Rightarrow> probe_output" where
  "probe_output_of now p =
     \<lparr>po_upnp = still_trusted now (map_option snd (last_upnp_gateway_addr p)),
      po_pcp = still_trusted now (last_pcp p),
      po_nat_pmp = still_trusted now (last_nat_pmp p)\<rparr>"

definition probe_update :: "'g probe \<Rightarrow> 'g probe \<Rightarrow> metrics \<Rightarrow> 'g probe \<times> metrics" where
  "probe_update self probe mt0 =
     (let (self1, mt1) =
            (if last_upnp_gateway_addr probe \<noteq> None then
               (self\<lparr>last_upnp_gateway_addr := last_upnp_gateway_addr probe\<rparr>,
                let mt = mt0\<lparr>upnp_available := Suc (upnp_available mt0)\<rparr>
                in if map_option fst (last_upnp_gateway_addr probe)
                      \<noteq> map_option fst (last_upnp_gateway_addr self)
                   then mt\<lparr>upnp_gateway_updated := Suc (upnp_gateway_updated mt)\<rparr> else mt)
             else (self, mt0));
          (self2, mt2) =
            (if last_pcp probe \<noteq> None then
               (self1\<lparr>last_pcp := last_pcp probe\<rparr>, mt1\<lparr>pcp_available := Suc (pcp_available mt1)\<rparr>)
             else (self1, mt1));
          self3 = (if last_nat_pmp probe \<noteq> None
            then self2\<lparr>last_nat_pmp := last_nat_pmp probe\<rparr> else self2)
      in (self3\<lparr>last_probe := last_probe probe\<rparr>, mt2))"

section \<open>Facts\<close>

lemma probing_iff: "probing d \<longleftrightarrow> (\<exists>task. \<not> task_done d task)"
  unfolding probing_def by (metis probe_task.exhaust task_done.simps)

lemma task_done_set [simp]: "task_done (set_done task d) task' \<longleftrightarrow> task' = task \<or> task_done d task'"
  by (cases task; cases task') auto

text \<open>Once the tasks that are not done have ticked, the loop has finished, and each of them has
  recorded its result at its first tick.\<close>

definition probe_filled ::
  "'g option \<Rightarrow> bool \<Rightarrow> bool \<Rightarrow> (probe_task \<times> instant) list \<Rightarrow> probe_done \<Rightarrow> 'g probe \<Rightarrow> 'g probe" where
  "probe_filled u b c ticks d probe =
     probe\<lparr>last_upnp_gateway_addr := (if upnp_done d then last_upnp_gateway_addr probe
             else map_option (\<lambda>g. (g, the (map_of ticks UpnpTask))) u),
           last_pcp := (if pcp_done d then last_pcp probe
             else if b then map_of ticks PcpTask else None),
           last_nat_pmp := (if nat_pmp_done d then last_nat_pmp probe
             else if c then map_of ticks NatPmpTask else None)\<rparr>"

lemma probe_filled_done: "\<not> probing d \<Longrightarrow> probe_filled u b c ticks d probe = probe"
  by (simp add: probe_filled_def probing_def)

lemma probe_filled_skip:
  "task_done d task \<Longrightarrow> probe_filled u b c ((task, t) # ticks) d probe = probe_filled u b c ticks d probe"
  by (cases task) (auto simp: probe_filled_def)

lemma probe_filled_record:
  assumes "res_upnp rs = Ok u" "res_pcp rs = Ok b" "res_nat_pmp rs = Ok c" "\<not> task_done d task"
  obtains probe' where "record_result rs t probe task = Ok probe'"
    and "probe_filled u b c ticks (set_done task d) probe' = probe_filled u b c ((task, t) # ticks) d probe"
  using assms that by (cases task) (auto simp: probe_filled_def then_now_def)

lemma probe_loop_complete:
  assumes results: "res_upnp rs = Ok u" "res_pcp rs = Ok b" "res_nat_pmp rs = Ok c"
    and "\<forall>task. task_done d task \<or> task \<in> fst ` set ticks"
  shows "probe_loop rs ticks d probe = Some (Ok (probe_filled u b c ticks d probe))"
  using assms(4)
proof (induction ticks arbitrary: d probe)
  case Nil
  then show ?case by (simp add: probe_filled_done probing_iff)
next
  case (Cons tick ticks)
  obtain task t where tick: "tick = (task, t)" by force
  consider "\<not> probing d" | "probing d" "task_done d task" | "probing d" "\<not> task_done d task" by blast
  then show ?case
  proof cases
    case 1
    then show ?thesis by (simp add: tick probe_filled_done)
  next
    case 2
    then have "\<forall>task. task_done d task \<or> task \<in> fst ` set ticks" using Cons.prems by (auto simp: tick)
    from Cons.IH [OF this] show ?thesis using 2 by (simp add: tick probe_filled_skip)
  next
    case 3
    then have "\<forall>task'. task_done (set_done task d) task' \<or> task' \<in> fst ` set ticks"
      using Cons.prems by (auto simp: tick)
    note IH = Cons.IH [OF this]
    obtain probe' where "record_result rs t probe task = Ok probe'"
      and "probe_filled u b c ticks (set_done task d) probe' = probe_filled u b c ((task, t) # ticks) d probe"
      using probe_filled_record [OF results 3(2)] by metis
    then show ?thesis using IH 3 by (simp add: tick)
  qed
qed

lemma probe_loop_waits:
  assumes "\<not> task_done d task" and "task \<notin> fst ` set ticks"
  shows "probe_loop rs ticks d probe \<noteq> Some (Ok p)"
  using assms
  by (induction rs ticks d probe rule: probe_loop.induct)
    (auto simp: probing_iff split: res.splits)

text \<open>A finished probe holds nothing for a task that was done before it started.\<close>

lemma record_result_keeps:
  assumes "record_result rs t probe task = Ok probe'" and "\<not> task_done d task"
  shows "upnp_done d \<Longrightarrow> last_upnp_gateway_addr probe' = last_upnp_gateway_addr probe"
    and "pcp_done d \<Longrightarrow> last_pcp probe' = last_pcp probe"
    and "nat_pmp_done d \<Longrightarrow> last_nat_pmp probe' = last_nat_pmp probe"
  using assms by (cases task; auto simp: map_res_eq)+

lemma set_done_mono:
  "upnp_done d \<Longrightarrow> upnp_done (set_done task d)" "pcp_done d \<Longrightarrow> pcp_done (set_done task d)"
  "nat_pmp_done d \<Longrightarrow> nat_pmp_done (set_done task d)"
  by (cases task; simp)+

lemma probe_loop_keeps:
  assumes "probe_loop rs ticks d probe = Some (Ok p)"
  shows "(upnp_done d \<longrightarrow> last_upnp_gateway_addr p = last_upnp_gateway_addr probe)
    \<and> (pcp_done d \<longrightarrow> last_pcp p = last_pcp probe)
    \<and> (nat_pmp_done d \<longrightarrow> last_nat_pmp p = last_nat_pmp probe)"
  using assms
  by (induction rs ticks d probe rule: probe_loop.induct)
    (auto simp: record_result_keeps set_done_mono split: res.splits if_splits)

section \<open>Properties\<close>

text \<open>C21: a probe finishes once every protocol that is enabled and not already available has been
  probed, whatever the order in which the tasks complete: it records for each of them that it was
  seen, at the instant its task completed, or that it was not, and nothing for the others.\<close>

theorem probe_from_output_complete:
  assumes "probe_task_results env igd local_ip gateway mt =
      \<lparr>res_upnp = Ok u, res_pcp = Ok b, res_nat_pmp = Ok c\<rparr>"
    and "\<forall>task. probe_needed config output task \<longrightarrow> task \<in> fst ` set ticks"
  shows "probe_from_output env igd config output local_ip gateway mt now ticks =
    Some (Ok \<lparr>last_probe = now,
      last_upnp_gateway_addr = (if probe_needed config output UpnpTask
        then map_option (\<lambda>g. (g, the (map_of ticks UpnpTask))) u else None),
      last_pcp = (if probe_needed config output PcpTask \<and> b then map_of ticks PcpTask else None),
      last_nat_pmp = (if probe_needed config output NatPmpTask \<and> c
        then map_of ticks NatPmpTask else None)\<rparr>)"
proof -
  let ?d = "\<lparr>upnp_done = \<not> probe_needed config output UpnpTask,
    pcp_done = \<not> probe_needed config output PcpTask,
    nat_pmp_done = \<not> probe_needed config output NatPmpTask\<rparr>"
  have "task_done ?d task = (\<not> probe_needed config output task)" for task by (cases task) simp_all
  with assms(2) have "\<forall>task. task_done ?d task \<or> task \<in> fst ` set ticks" by blast
  then have "probe_loop \<lparr>res_upnp = Ok u, res_pcp = Ok b, res_nat_pmp = Ok c\<rparr> ticks ?d (probe_empty now)
      = Some (Ok (probe_filled u b c ticks ?d (probe_empty now)))"
    by (intro probe_loop_complete) simp_all
  then show ?thesis
    unfolding probe_from_output_def assms(1) by (simp add: probe_filled_def probe_empty_def)
qed

text \<open>An environment in which no socket can be bound and the search finds gateway 7.\<close>

definition offline_env :: net_env where
  "offline_env =
     \<lparr>ans_bind = (\<lambda>_ _. Err (OtherIo 1)), ans_connect = (\<lambda>_ _. Err (OtherIo 1)),
      ans_send = (\<lambda>_ _. Err (OtherIo 1)), ans_recv = (\<lambda>_ _. None)\<rparr>"

definition sample_igd :: "nat igd_env" where
  "sample_igd =
     \<lparr>ans_search = (\<lambda>_. Some (Ok 7)), ans_external_ip = (\<lambda>_ _. Ok (V4 (Ipv4 203 0 113 9))),
      ans_add_port = (\<lambda>_ _ _ _ _. Ok ()), ans_add_any_port = (\<lambda>_ _ _ _. Ok 5000),
      ans_remove_port = (\<lambda>_ _ _ _. Ok ())\<rparr>"

lemma sample_results:
  "probe_task_results offline_env sample_igd local_ip gateway mt =
     \<lparr>res_upnp = Ok (Some 7), res_pcp = Ok False, res_nat_pmp = Ok False\<rparr>"
  by (simp add: probe_task_results_def upnp_probe_available_def pcp_probe_available_def
      pmp_probe_available_def pcp_probe_available_fallible_def pmp_probe_available_fallible_def
      pcp_open_def pmp_open_def bind_io_def op_defs offline_env_def sample_igd_def Let_def)

theorem probe_from_output_complete_witness:
  "probe_from_output offline_env sample_igd config_default
      \<lparr>po_upnp = False, po_pcp = False, po_nat_pmp = False\<rparr> (Ipv4 10 0 0 2) (Ipv4 10 0 0 1) metrics_default
      100 [(PcpTask, 120), (UpnpTask, 130), (NatPmpTask, 140)] =
    Some (Ok \<lparr>last_probe = 100, last_upnp_gateway_addr = Some (7, 130), last_pcp = None,
      last_nat_pmp = None\<rparr>)"
proof -
  let ?ticks = "[(PcpTask, 120), (UpnpTask, 130), (NatPmpTask, 140)] :: (probe_task \<times> nat) list"
  have "\<forall>task. probe_needed config_default \<lparr>po_upnp = False, po_pcp = False, po_nat_pmp = False\<rparr> task
      \<longrightarrow> task \<in> fst ` set ?ticks"
    by (auto intro: probe_task.exhaust)
  from probe_from_output_complete [OF sample_results this] show ?thesis
    by (simp add: probe_needed_def config_default_def)
qed

text \<open>C22: merging a probe keeps what it did not see: after an update a protocol counts as available
  exactly when the newer probe saw it less than ten minutes ago, or did not see it and the older
  probe saw it less than ten minutes ago; the time of the last probe is that of the newer one.\<close>

theorem probe_update_output:
  "let p = fst (probe_update self probe mt); trusted = (\<lambda>t. now < t + from_secs 600) in
   last_probe p = last_probe probe
   \<and> (po_pcp (probe_output_of now p) \<longleftrightarrow>
        (case last_pcp probe of Some t \<Rightarrow> trusted t
         | None \<Rightarrow> po_pcp (probe_output_of now self)))
   \<and> (po_nat_pmp (probe_output_of now p) \<longleftrightarrow>
        (case last_nat_pmp probe of Some t \<Rightarrow> trusted t
         | None \<Rightarrow> po_nat_pmp (probe_output_of now self)))
   \<and> (po_upnp (probe_output_of now p) \<longleftrightarrow>
        (case last_upnp_gateway_addr probe of Some (g, t) \<Rightarrow> trusted t
         | None \<Rightarrow> po_upnp (probe_output_of now self)))"
  by (cases "last_pcp probe"; cases "last_nat_pmp probe"; cases "last_upnp_gateway_addr probe")
    (simp_all add: probe_update_def probe_output_of_def still_trusted_def
      availability_trust_duration_def Let_def case_prod_unfold)

text \<open>a UPnP probe is counted twice: every probe that includes UPnP adds two to the number of UPnP
  probes executed, while a probe that includes PCP adds one to that of PCP probes.\<close>

theorem upnp_probe_counted_twice:
  "upnp_probes (probe_from_output_metrics igd config output mt) =
     upnp_probes mt + (if probe_needed config output UpnpTask then 2 else 0)
   \<and> pcp_probes (probe_from_output_metrics igd config output mt) =
     pcp_probes mt + (if probe_needed config output PcpTask then 1 else 0)"
  by (auto simp: probe_from_output_metrics_def upnp_probe_available_def Let_def
      split: option.splits res.splits)

end
