(* ===== verification/Interfaces.thy ===== *)
theory Interfaces
  imports Ip_Addr
begin

text \<open>
  The platform-independent interface types and the decision what counts as a major change,
  \<^verbatim>\<open>netwatch/src/interfaces.rs\<close>. A network of the \<^verbatim>\<open>ipnet\<close> crate is its three observations
  (address, prefix length, netmask). The \<^verbatim>\<open>HashMap\<close> of interfaces is an association list with
  distinct keys; equality and iteration are those of the map, not of the list.
\<close>

section \<open>Addresses of an interface\<close>

definition iff_up :: u32 where "iff_up = 1"

record ipv6_addr_flags =
  deprecated :: bool
  temporary :: bool
  tentative :: bool
  duplicated :: bool
  permanent :: bool

record 'a net =
  net_addr :: 'a
  net_prefix_len :: u8
  net_netmask :: 'a

type_synonym ipv4_net = "ipv4 net"
type_synonym ipv6_net = "ipv6 net"

datatype ip_net = NetV4 ipv4_net | NetV6 ipv6_net u32 ipv6_addr_flags

fun ip_net_eq :: "ip_net \<Rightarrow> ip_net \<Rightarrow> bool" where
  "ip_net_eq (NetV4 a) (NetV4 b) \<longleftrightarrow>
     net_addr a = net_addr b \<and> net_prefix_len a = net_prefix_len b \<and> net_netmask a = net_netmask b"
| "ip_net_eq (NetV6 net_a scope_id_a flags_a) (NetV6 net_b scope_id_b flags_b) \<longleftrightarrow>
     net_addr net_a = net_addr net_b \<and> net_prefix_len net_a = net_prefix_len net_b
     \<and> net_netmask net_a = net_netmask net_b
     \<and> scope_id_a = scope_id_b \<and> flags_a = flags_b"
| "ip_net_eq _ _ \<longleftrightarrow> False"

primrec ip_net_addr :: "ip_net \<Rightarrow> ip_addr" where
  "ip_net_addr (NetV4 a) = V4 (net_addr a)"
| "ip_net_addr (NetV6 net scope_id flags) = V6 (net_addr net)"

lemma ip_net_eq_iff [simp]: "ip_net_eq a b \<longleftrightarrow> a = b"
  by (cases "(a, b)" rule: ip_net_eq.cases) auto

section \<open>Interfaces\<close>

record net_interface =
  if_name :: string
  if_index :: u32
  if_flags :: u32
  if_mac_addr :: "bytes option"
  if_addrs :: "ip_net list"

definition interface_eq :: "net_interface \<Rightarrow> net_interface \<Rightarrow> bool" where
  "interface_eq a b \<longleftrightarrow>
     if_index a = if_index b \<and> if_name a = if_name b \<and> if_flags a = if_flags b
     \<and> if_mac_addr a = if_mac_addr b"

definition interface_is_up :: "net_interface \<Rightarrow> bool" where
  "interface_is_up i \<longleftrightarrow> and (if_flags i) iff_up \<noteq> 0"

definition interface_fake :: net_interface where
  "interface_fake =
     \<lparr>if_name = ''wifi0'', if_index = 2, if_flags = 69699, if_mac_addr = Some [2, 3, 4, 5, 6, 7],
      if_addrs = [NetV4 \<lparr>net_addr = Ipv4 192 168 0 189, net_prefix_len = 24,
        net_netmask = Ipv4 255 255 255 0\<rparr>]\<rparr>"

section \<open>The state of the machine\<close>

type_synonym 'v hash_map = "(string \<times> 'v) list"

text \<open>\<^verbatim>\<open>HashMap::insert\<close> and the equality of two maps, given the equality of values.\<close>

definition hash_insert :: "string \<Rightarrow> 'v \<Rightarrow> 'v hash_map \<Rightarrow> 'v hash_map" where
  "hash_insert k v m = (k, v) # filter (\<lambda>e. fst e \<noteq> k) m"

definition hash_eq :: "('v \<Rightarrow> 'v \<Rightarrow> bool) \<Rightarrow> 'v hash_map \<Rightarrow> 'v hash_map \<Rightarrow> bool" where
  "hash_eq eq a b \<longleftrightarrow>
     length a = length b
     \<and> list_all (\<lambda>(k, v). case map_of b k of Some v' \<Rightarrow> eq v v' | None \<Rightarrow> False) a"

record state =
  st_interfaces :: "net_interface hash_map"
  st_local_addresses :: local_addresses
  st_have_v6 :: bool
  st_have_v4 :: bool
  st_is_expensive :: bool
  st_default_route_interface :: "string option"
  st_last_unsuspend :: "instant option"

definition state_eq :: "state \<Rightarrow> state \<Rightarrow> bool" where
  "state_eq a b \<longleftrightarrow>
     hash_eq interface_eq (st_interfaces a) (st_interfaces b)
     \<and> st_local_addresses a = st_local_addresses b
     \<and> st_have_v6 a = st_have_v6 b \<and> st_have_v4 a = st_have_v4 b
     \<and> st_is_expensive a = st_is_expensive b
     \<and> st_default_route_interface a = st_default_route_interface b
     \<and> st_last_unsuspend a = st_last_unsuspend b"

definition state_fake :: state where
  "state_fake =
     \<lparr>st_interfaces = [(if_name interface_fake, interface_fake)],
      st_local_addresses = local_addresses_default, st_have_v6 = True, st_have_v4 = True,
      st_is_expensive = False, st_default_route_interface = Some (if_name interface_fake),
      st_last_unsuspend = None\<rparr>"

text \<open>\<^verbatim>\<open>str::trim_end_matches\<close> with a string pattern: the whole pattern is removed from the end,
  as often as it occurs there.\<close>

function trim_end_matches :: "string \<Rightarrow> string \<Rightarrow> string" where
  "trim_end_matches pat s =
     (if pat \<noteq> [] \<and> length pat \<le> length s \<and> drop (length s - length pat) s = pat
      then trim_end_matches pat (take (length s - length pat) s)
      else s)"
  by auto

termination
proof (relation "measure (\<lambda>(pat, s). length s)")
  fix pat s :: string
  assume "pat \<noteq> [] \<and> length pat \<le> length s \<and> drop (length s - length pat) s = pat"
  then have "0 < length pat" and "length pat \<le> length s" by auto
  then have "length s - length pat < length s" by linarith
  then show "((pat, take (length s - length pat) s), (pat, s)) \<in> measure (\<lambda>(pat, s). length s)"
    by simp
qed simp

declare trim_end_matches.simps [simp del]

text \<open>\<open>bsd\<close> is the configuration switch of the same name.\<close>

definition is_interesting_interface :: "bool \<Rightarrow> string \<Rightarrow> bool" where
  "is_interesting_interface bsd name \<longleftrightarrow>
     \<not> (bsd \<and> (let base_name = trim_end_matches ''0123456789'' name
               in base_name = ''llw'' \<or> base_name = ''awdl'' \<or> base_name = ''ipsec''))"

definition prefix_is_interesting :: "ip_net \<Rightarrow> bool" where
  "prefix_is_interesting p \<longleftrightarrow>
     (let a = ip_net_addr p in \<not> (is_link_local a \<or> is_loopback a \<or> is_multicast a))"

text \<open>The loop over both filtered iterators.\<close>

fun prefixes_loop :: "ip_net list \<Rightarrow> ip_net list \<Rightarrow> bool" where
  "prefixes_loop [] [] = True"
| "prefixes_loop (a # as) (b # bs) = (if ip_net_eq a b then prefixes_loop as bs else False)"
| "prefixes_loop _ _ = False"

definition prefixes_major_equal :: "ip_net list \<Rightarrow> ip_net list \<Rightarrow> bool" where
  "prefixes_major_equal a b \<longleftrightarrow>
     prefixes_loop (filter prefix_is_interesting a) (filter prefix_is_interesting b)"

definition is_major_change :: "bool \<Rightarrow> state \<Rightarrow> state \<Rightarrow> bool" where
  "is_major_change bsd self old \<longleftrightarrow>
     (if st_have_v6 self \<noteq> st_have_v6 old \<or> st_have_v4 self \<noteq> st_have_v4 old
         \<or> st_is_expensive self \<noteq> st_is_expensive old
         \<or> st_default_route_interface self \<noteq> st_default_route_interface old
      then True
      else if list_ex (\<lambda>(iname, i). is_interesting_interface bsd (if_name i)
             \<and> (case map_of (st_interfaces self) iname of
                   None \<Rightarrow> True
                 | Some i2 \<Rightarrow> \<not> interface_eq i i2 \<or> \<not> prefixes_major_equal (if_addrs i) (if_addrs i2)))
             (st_interfaces old)
      then True
      else list_ex (\<lambda>(iname, i). is_interesting_interface bsd (if_name i)
             \<and> map_of (st_interfaces old) iname = None)
             (st_interfaces self))"

section \<open>The home router\<close>

record home_router =
  hr_gateway :: ip_addr
  hr_my_ip :: "ip_addr option"

section \<open>Facts\<close>

definition wf_state :: "state \<Rightarrow> bool" where
  "wf_state s \<longleftrightarrow> distinct (map fst (st_interfaces s))
     \<and> list_all (\<lambda>(k, i). k = if_name i) (st_interfaces s)"

lemma prefixes_loop_iff [simp]: "prefixes_loop as bs \<longleftrightarrow> as = bs"
  by (induction as bs rule: prefixes_loop.induct) auto

lemma prefixes_major_equal_iff:
  "prefixes_major_equal a b \<longleftrightarrow> filter prefix_is_interesting a = filter prefix_is_interesting b"
  by (simp add: prefixes_major_equal_def)

lemma map_of_hash_insert [simp]: "map_of (hash_insert k v m) = (map_of m)(k \<mapsto> v)"
proof
  fix x
  have "map_of (filter (\<lambda>e. fst e \<noteq> k) m) x = (if x = k then None else map_of m x)"
    by (induction m) auto
  then show "map_of (hash_insert k v m) x = ((map_of m)(k \<mapsto> v)) x"
    by (simp add: hash_insert_def)
qed

lemma distinct_hash_insert:
  "distinct (map fst m) \<Longrightarrow> distinct (map fst (hash_insert k v m))"
  by (auto simp: hash_insert_def distinct_map inj_on_def)

text \<open>Iterating a map with distinct keys visits exactly its entries.\<close>

lemma list_ex_map_of:
  "distinct (map fst m) \<Longrightarrow> list_ex P m \<longleftrightarrow> (\<exists>k v. map_of m k = Some v \<and> P (k, v))"
  by (auto simp: list_ex_iff)

text \<open>The interfaces by name that matter for a change, and what of them matters.\<close>

definition interesting_view ::
  "bool \<Rightarrow> state \<Rightarrow> string \<Rightarrow> (u32 \<times> string \<times> u32 \<times> bytes option \<times> ip_net list) option" where
  "interesting_view bsd s name =
     (case map_of (st_interfaces s) name of
        Some i \<Rightarrow> if is_interesting_interface bsd name
          then Some (if_index i, if_name i, if_flags i, if_mac_addr i,
                 filter prefix_is_interesting (if_addrs i))
          else None
      | None \<Rightarrow> None)"

lemma wf_state_lookup: "wf_state s \<Longrightarrow> map_of (st_interfaces s) k = Some i \<Longrightarrow> if_name i = k"
  by (force simp: wf_state_def list_all_iff dest: map_of_SomeD)

section \<open>Properties\<close>

text \<open>C30: a change is major exactly when one of the summary fields differs, or the two states disagree
  on an interesting interface: it is missing on one side, or its index, flags, hardware address or
  its prefixes other than link-local, loopback and multicast ones differ.\<close>

theorem is_major_change_iff:
  assumes "wf_state self" and "wf_state old"
  shows "is_major_change bsd self old \<longleftrightarrow>
    st_have_v6 self \<noteq> st_have_v6 old \<or> st_have_v4 self \<noteq> st_have_v4 old
    \<or> st_is_expensive self \<noteq> st_is_expensive old
    \<or> st_default_route_interface self \<noteq> st_default_route_interface old
    \<or> interesting_view bsd self \<noteq> interesting_view bsd old"
proof -
  have dist: "distinct (map fst (st_interfaces self))" "distinct (map fst (st_interfaces old))"
    using assms by (simp_all add: wf_state_def)
  have pointwise: "(\<exists>i. map_of (st_interfaces old) k = Some i \<and> is_interesting_interface bsd (if_name i)
        \<and> (case map_of (st_interfaces self) k of None \<Rightarrow> True
            | Some i2 \<Rightarrow> \<not> interface_eq i i2 \<or> \<not> prefixes_major_equal (if_addrs i) (if_addrs i2)))
      \<or> (\<exists>i. map_of (st_interfaces self) k = Some i \<and> is_interesting_interface bsd (if_name i)
          \<and> map_of (st_interfaces old) k = None)
      \<longleftrightarrow> interesting_view bsd self k \<noteq> interesting_view bsd old k" for k
  proof (cases "map_of (st_interfaces self) k")
    case None
    then show ?thesis using wf_state_lookup [OF assms(2), of k]
      by (cases "map_of (st_interfaces old) k") (simp_all add: interesting_view_def)
  next
    case (Some i)
    note self = this
    show ?thesis
    proof (cases "map_of (st_interfaces old) k")
      case None
      then show ?thesis using Some wf_state_lookup [OF assms(1) Some]
        by (simp add: interesting_view_def)
    next
      case (Some j)
      have "interface_eq j i \<and> prefixes_major_equal (if_addrs j) (if_addrs i) \<longleftrightarrow>
          (if_index i, if_name i, if_flags i, if_mac_addr i, filter prefix_is_interesting (if_addrs i))
          = (if_index j, if_name j, if_flags j, if_mac_addr j, filter prefix_is_interesting (if_addrs j))"
        by (auto simp: interface_eq_def prefixes_major_equal_iff)
      then show ?thesis
        using self Some wf_state_lookup [OF assms(1) self] wf_state_lookup [OF assms(2) Some]
        by (simp add: interesting_view_def) blast
    qed
  qed
  have "(interesting_view bsd self \<noteq> interesting_view bsd old) \<longleftrightarrow>
      (\<exists>k. interesting_view bsd self k \<noteq> interesting_view bsd old k)"
    by (simp add: fun_eq_iff)
  then show ?thesis
    unfolding is_major_change_def list_ex_map_of [OF dist(1)] list_ex_map_of [OF dist(2)]
      pointwise [symmetric]
    by (simp add: ex_disj_distrib) blast
qed

theorem is_major_change_iff_witness:
  "is_major_change False (state_fake\<lparr>st_interfaces := []\<rparr>) state_fake
   \<and> \<not> is_major_change False state_fake state_fake"
proof -
  have wf: "wf_state state_fake" "wf_state (state_fake\<lparr>st_interfaces := []\<rparr>)"
    by (simp_all add: wf_state_def state_fake_def)
  have "interesting_view False (state_fake\<lparr>st_interfaces := []\<rparr>) ''wifi0'' = None"
    by (simp add: interesting_view_def)
  moreover have "interesting_view False state_fake ''wifi0'' \<noteq> None"
    by (simp add: interesting_view_def state_fake_def interface_fake_def is_interesting_interface_def)
  ultimately have "interesting_view False (state_fake\<lparr>st_interfaces := []\<rparr>)
      \<noteq> interesting_view False state_fake"
    by metis
  then show ?thesis
    using is_major_change_iff [OF wf(2) wf(1), of False] is_major_change_iff [OF wf(1) wf(1), of False]
    by blast
qed

text \<open>the equality of states and the notion of major change disagree: there are well-formed states
  that compare equal although the step from one to the other is a major change, because the
  equality of interfaces ignores their addresses.\<close>

theorem state_eq_hides_major_change:
  "\<exists>old new. wf_state old \<and> wf_state new \<and> state_eq old new \<and> is_major_change bsd new old"
proof -
  let ?old = "state_fake"
  let ?net = "NetV4 \<lparr>net_addr = Ipv4 192 168 0 189, net_prefix_len = 16,
    net_netmask = Ipv4 255 255 0 0\<rparr>"
  let ?new = "state_fake\<lparr>st_interfaces := [(''wifi0'', interface_fake\<lparr>if_addrs := [?net]\<rparr>)]\<rparr>"
  have "wf_state ?old" "wf_state ?new"
    by (simp_all add: wf_state_def state_fake_def interface_fake_def)
  moreover have "state_eq ?old ?new"
    by (simp add: state_eq_def hash_eq_def state_fake_def interface_fake_def interface_eq_def)
  moreover have "is_interesting_interface bsd ''wifi0''"
    by (simp add: is_interesting_interface_def trim_end_matches.simps)
  then have "is_major_change bsd ?new ?old"
    by (simp add: is_major_change_def state_fake_def interface_fake_def prefixes_major_equal_def
        prefix_is_interesting_def ipv4_is_link_local_def ipv4_is_loopback_def ipv4_is_multicast_def)
  ultimately show ?thesis by blast
qed

lemma trim_end_matches_eq:
  assumes "pat \<noteq> []"
  shows "\<exists>k. s = trim_end_matches pat s @ concat (replicate k pat)"
proof (induction pat s rule: trim_end_matches.induct)
  case (1 pat s)
  show ?case
  proof (cases "pat \<noteq> [] \<and> length pat \<le> length s \<and> drop (length s - length pat) s = pat")
    case True
    let ?s = "take (length s - length pat) s"
    obtain k where k: "?s = trim_end_matches pat ?s @ concat (replicate k pat)"
      using 1 True by blast
    have "s = ?s @ pat" using True by (metis append_take_drop_id)
    also have "\<dots> = trim_end_matches pat ?s @ concat (replicate k pat) @ pat"
      using k by simp
    also have "concat (replicate k pat) @ pat = concat (replicate (Suc k) pat)"
      by (simp flip: replicate_append_same)
    also have "trim_end_matches pat ?s = trim_end_matches pat s"
      using True by (subst (2) trim_end_matches.simps) simp
    finally show ?thesis by blast
  next
    case False
    then have "trim_end_matches pat s = s" by (subst trim_end_matches.simps) (simp only: if_False)
    then show ?thesis by (intro exI [of _ 0]) simp
  qed
qed

lemma trim_end_matches_append:
  assumes "pat \<noteq> []"
  shows "trim_end_matches pat (s @ concat (replicate k pat)) = trim_end_matches pat s"
proof (induction k)
  case (Suc k)
  have "concat (replicate (Suc k) pat) = concat (replicate k pat) @ pat"
    by (simp flip: replicate_append_same)
  then have "s @ concat (replicate (Suc k) pat) = (s @ concat (replicate k pat)) @ pat" by simp
  then show ?case using assms Suc trim_end_matches.simps [of pat "(s @ concat (replicate k pat)) @ pat"]
    by (simp del: append_assoc)
qed simp

lemma trim_end_matches_short [simp]: "length s < length pat \<Longrightarrow> trim_end_matches pat s = s"
  using trim_end_matches.simps [of pat s] by auto

text \<open>on the BSD platforms an interface is uninteresting exactly when its name is one of the three
  base names followed by copies of the whole string of ten digits: a numbered interface such as
  \<^verbatim>\<open>awdl0\<close> is interesting.\<close>

theorem is_interesting_interface_bsd:
  "(is_interesting_interface True name \<longleftrightarrow>
     \<not> (\<exists>base k. base \<in> {''llw'', ''awdl'', ''ipsec''} \<and> name = base @ concat (replicate k ''0123456789'')))
   \<and> is_interesting_interface True ''awdl0'' \<and> is_interesting_interface False name"
proof -
  have base: "trim_end_matches ''0123456789'' b = b" if "b \<in> {''llw'', ''awdl'', ''ipsec''}" for b
    using that by auto
  have bases: "trim_end_matches ''0123456789'' name = b \<longleftrightarrow>
      (\<exists>k. name = b @ concat (replicate k ''0123456789''))" if "b \<in> {''llw'', ''awdl'', ''ipsec''}" for b
    using trim_end_matches_eq [of "''0123456789''" name]
      trim_end_matches_append [of "''0123456789''" b] base [OF that] by auto
  have "is_interesting_interface True name \<longleftrightarrow>
      \<not> (\<exists>b. b \<in> {''llw'', ''awdl'', ''ipsec''} \<and> trim_end_matches ''0123456789'' name = b)"
    by (simp add: is_interesting_interface_def Let_def)
  then have "is_interesting_interface True name \<longleftrightarrow>
     \<not> (\<exists>base k. base \<in> {''llw'', ''awdl'', ''ipsec''} \<and> name = base @ concat (replicate k ''0123456789''))"
    by (simp only: bases cong: conj_cong) simp
  moreover have "is_interesting_interface True ''awdl0''"
    by (simp add: is_interesting_interface_def)
  ultimately show ?thesis by (simp add: is_interesting_interface_def [of False])
qed

end
