(* ===== verification/Service.thy ===== *)
theory Service
  imports Current_Mapping Probe Interfaces
begin

text \<open>
  The port mapping service, the \<^verbatim>\<open>Service\<close> part of \<^verbatim>\<open>portmapper/src/lib.rs\<close>. A handler is a
  function of the state and of what the code reads from outside: the clock, and the home router
  that \<^verbatim>\<open>HomeRouter::new\<close> returns. It yields the new state and the effects visible
  outside, the answers to probe requests and the mappings released. A spawned task is the call it
  was spawned with; dropping its handle cancels it.
\<close>

section \<open>Optional futures\<close>

text \<open>\<^verbatim>\<open>MaybeFuture\<close> of \<^verbatim>\<open>portmapper/src/util.rs\<close>: polling it polls the inner future, and is
  pending (\<open>None\<close>) when there is none.\<close>

primrec maybe_future_poll :: "('t \<Rightarrow> 'o option) \<Rightarrow> 't option \<Rightarrow> 'o option" where
  "maybe_future_poll poll None = None"
| "maybe_future_poll poll (Some t) = poll t"

lemma maybe_future_poll_eq [simp]:
  "maybe_future_poll (\<lambda>t. Some r) inner = None \<longleftrightarrow> inner = None"
  "maybe_future_poll (\<lambda>t. Some r) inner = Some r' \<longleftrightarrow> inner \<noteq> None \<and> r' = r"
  by (cases inner; auto)+

section \<open>Messages, tasks, state\<close>

text \<open>A probe request is identified by the sender of its answer.\<close>

type_synonym request = nat

type_synonym probe_result = "(probe_output, probe_error) res"

datatype message = ProcureMapping | UpdateLocalPort "nzu16 option" | ProbeRequest request

datatype 'g mapping_task =
    TaskPcp protocol ipv4 nzu16 ipv4 "external_addr option"
  | TaskNatPmp protocol ipv4 nzu16 ipv4 "external_addr option"
  | TaskUpnp protocol ipv4 nzu16 "'g option" "nzu16 option"

text \<open>What the task does when it runs.\<close>

primrec run_mapping_task ::
  "net_env \<Rightarrow> 'g igd_env \<Rightarrow> bytes \<Rightarrow> 'g mapping_task \<Rightarrow> ('g mapping, mapping_error, 'g logs) io_on" where
  "run_mapping_task env igd nonce (TaskPcp protocol local_ip local_port gateway external_addr) =
     mapping_new_pcp env nonce protocol local_ip local_port gateway external_addr"
| "run_mapping_task env igd nonce (TaskNatPmp protocol local_ip local_port gateway external_addr) =
     mapping_new_nat_pmp env protocol local_ip local_port gateway external_addr"
| "run_mapping_task env igd nonce (TaskUpnp protocol local_ip local_port gateway external_port) =
     mapping_new_upnp igd protocol local_ip local_port gateway external_port"

text \<open>A probing task: the arguments of \<^verbatim>\<open>Probe::from_output\<close>.\<close>

record probing_task =
  pt_config :: config
  pt_output :: probe_output
  pt_local_ip :: ipv4
  pt_gateway :: ipv4

record 'g service =
  sv_config :: config
  sv_local_port :: "nzu16 option"
  sv_current :: "'g mapping current_mapping"
  sv_full_probe :: "'g probe"
  sv_mapping_task :: "'g mapping_task option"
  sv_probing_task :: "(probing_task \<times> request list) option"
  sv_metrics :: metrics

datatype 'g effect = Reply request probe_result | Release "'g mapping"

section \<open>Operations\<close>

definition ip_and_gateway :: "home_router option \<Rightarrow> (ipv4 \<times> ipv4, probe_error) res" where
  "ip_and_gateway home_router =
     (case home_router of
        None \<Rightarrow> Err NoGateway
      | Some hr \<Rightarrow>
          let local_ip =
                (case hr_my_ip hr of
                   Some (V4 ip) \<Rightarrow>
                     if \<not> ipv4_is_unspecified ip \<and> \<not> ipv4_is_loopback ip \<and> \<not> ipv4_is_multicast ip
                     then ip else ipv4_localhost
                 | _ \<Rightarrow> ipv4_localhost)
          in case hr_gateway hr of
               V4 gateway \<Rightarrow> Ok (local_ip, gateway)
             | V6 _ \<Rightarrow> Err Ipv6Gateway)"

definition service_new :: "config \<Rightarrow> instant \<Rightarrow> metrics \<Rightarrow> 'g service" where
  "service_new config now metrics =
     (let full_probe = probe_empty now;
          full_probe =
            (case instant_checked_sub (last_probe full_probe) availability_trust_duration of
               Some in_the_past \<Rightarrow> full_probe\<lparr>last_probe := in_the_past\<rparr>
             | None \<Rightarrow> full_probe)
      in \<lparr>sv_config = config, sv_local_port = None, sv_current = current_mapping_new,
          sv_full_probe = full_probe, sv_mapping_task = None, sv_probing_task = None,
          sv_metrics = metrics\<rparr>)"

text \<open>\<^verbatim>\<open>current_mapping.update\<close> on the service, returning the old mapping.\<close>

definition sv_update_mapping :: "instant \<Rightarrow> 'g mapping option \<Rightarrow> 'g service \<Rightarrow> 'g mapping option \<times> 'g service"
where
  "sv_update_mapping now mapping sv =
     (case slot_update mapping_external mapping_half_lifetime now mapping (sv_current sv, sv_metrics sv) of
        (old, current, metrics) \<Rightarrow> (old, sv\<lparr>sv_current := current, sv_metrics := metrics\<rparr>))"

definition sv_external :: "'g service \<Rightarrow> external_addr option" where
  "sv_external sv = current_external mapping_external (sv_current sv)"

definition invalidate_mapping :: "instant \<Rightarrow> 'g service \<Rightarrow> 'g service \<times> 'g effect list" where
  "invalidate_mapping now sv =
     (case sv_update_mapping now None sv of
        (Some old_mapping, sv') \<Rightarrow> (sv', [Release old_mapping])
      | (None, sv') \<Rightarrow> (sv', []))"

definition recently_probed :: "instant \<Rightarrow> 'g service \<Rightarrow> bool" where
  "recently_probed now sv \<longleftrightarrow>
     last_probe (sv_full_probe sv) + unavailability_trust_duration > now"

text \<open>The strategy: the available services in the order PCP, NAT-PMP, UPnP, then UPnP if enabled, then
  the enabled ones if there was no recent probe; \<open>None\<close> is to give up.\<close>

definition mapping_strategy ::
  "config \<Rightarrow> probe_output \<Rightarrow> bool \<Rightarrow> 'g option \<Rightarrow> ipv4 \<Rightarrow> nzu16 \<Rightarrow> ipv4 \<Rightarrow> external_addr option
     \<Rightarrow> 'g mapping_task option" where
  "mapping_strategy cfg out recent upnp_gateway local_ip local_port gateway external_addr =
     (let protocol = cfg_protocol cfg;
          pcp_task = TaskPcp protocol local_ip local_port gateway external_addr;
          nat_pmp_task = TaskNatPmp protocol local_ip local_port gateway external_addr
      in if po_pcp out then Some pcp_task
         else if po_nat_pmp out then Some nat_pmp_task
         else if po_upnp out \<or> enable_upnp cfg then
           Some (TaskUpnp protocol local_ip local_port upnp_gateway (map_option snd external_addr))
         else if \<not> recent \<and> enable_pcp cfg then Some pcp_task
         else if \<not> recent \<and> enable_nat_pmp cfg then Some nat_pmp_task
         else None)"

definition get_mapping ::
  "instant \<Rightarrow> home_router option \<Rightarrow> external_addr option \<Rightarrow> 'g service \<Rightarrow> 'g service" where
  "get_mapping now home_router external_addr sv =
     (case sv_local_port sv of
        None \<Rightarrow> sv
      | Some local_port \<Rightarrow>
          let mt = sv_metrics sv;
              sv1 = sv\<lparr>sv_metrics := mt\<lparr>mapping_attempts := Suc (mapping_attempts mt)\<rparr>\<rparr>
          in case ip_and_gateway home_router of
               Ok (local_ip, gateway) \<Rightarrow>
                 (case mapping_strategy (sv_config sv) (probe_output_of now (sv_full_probe sv))
                         (recently_probed now sv)
                         (map_option fst (last_upnp_gateway_addr (sv_full_probe sv)))
                         local_ip local_port gateway external_addr of
                    Some task \<Rightarrow> sv1\<lparr>sv_mapping_task := Some task\<rparr>
                  | None \<Rightarrow> sv1)
             | Err e \<Rightarrow> sv1
             | Panic \<Rightarrow> sv1)"

definition update_local_port ::
  "instant \<Rightarrow> home_router option \<Rightarrow> nzu16 option \<Rightarrow> 'g service \<Rightarrow> 'g service \<times> 'g effect list" where
  "update_local_port now home_router local_port sv =
     (if local_port \<noteq> sv_local_port sv then
        let mt = sv_metrics sv;
            sv1 = sv\<lparr>sv_metrics := mt\<lparr>local_port_updates := Suc (local_port_updates mt)\<rparr>,
              sv_local_port := local_port, sv_mapping_task := None\<rparr>;
            external_addr = sv_external sv1;
            (sv2, effects) = (if external_addr \<noteq> None then invalidate_mapping now sv1 else (sv1, []))
        in (get_mapping now home_router external_addr sv2, effects)
      else if sv_external sv = None then (get_mapping now home_router None sv, [])
      else (sv, []))"

definition probe_request ::
  "instant \<Rightarrow> home_router option \<Rightarrow> request \<Rightarrow> 'g service \<Rightarrow> 'g service \<times> 'g effect list" where
  "probe_request now home_router result_tx sv =
     (case sv_probing_task sv of
        Some (task, receivers) \<Rightarrow>
          (sv\<lparr>sv_probing_task := Some (task, receivers @ [result_tx])\<rparr>, [])
      | None \<Rightarrow>
          let out = probe_output_of now (sv_full_probe sv) in
          if all_available out then (sv, [Reply result_tx (Ok out)])
          else
            let mt = sv_metrics sv;
                sv1 = sv\<lparr>sv_metrics := mt\<lparr>probes_started := Suc (probes_started mt)\<rparr>\<rparr>
            in case ip_and_gateway home_router of
                 Ok (local_ip, gateway) \<Rightarrow>
                   (sv1\<lparr>sv_probing_task := Some (\<lparr>pt_config = sv_config sv1, pt_output = out,
                      pt_local_ip = local_ip, pt_gateway = gateway\<rparr>, [result_tx])\<rparr>, [])
               | Err e \<Rightarrow> (sv1, [Reply result_tx (Err e)])
               | Panic \<Rightarrow> (sv1, []))"

definition handle_msg ::
  "instant \<Rightarrow> home_router option \<Rightarrow> message \<Rightarrow> 'g service \<Rightarrow> 'g service \<times> 'g effect list" where
  "handle_msg now home_router msg sv =
     (case msg of
        ProcureMapping \<Rightarrow> update_local_port now home_router (sv_local_port sv) sv
      | UpdateLocalPort local_port \<Rightarrow> update_local_port now home_router local_port sv
      | ProbeRequest result_tx \<Rightarrow> probe_request now home_router result_tx sv)"

definition on_probe_result ::
  "instant \<Rightarrow> ('g probe, probe_error) res \<Rightarrow> request list \<Rightarrow> 'g service \<Rightarrow> 'g service \<times> 'g effect list" where
  "on_probe_result now result receivers sv =
     (case result of
        Ok probe \<Rightarrow>
          (case probe_update (sv_full_probe sv) probe (sv_metrics sv) of
             (full_probe, metrics) \<Rightarrow>
               (sv\<lparr>sv_full_probe := full_probe, sv_metrics := metrics\<rparr>,
                map (\<lambda>tx. Reply tx (Ok (probe_output_of now full_probe))) receivers))
      | Err e \<Rightarrow> (sv, map (\<lambda>tx. Reply tx (Err e)) receivers)
      | Panic \<Rightarrow> (sv, map (\<lambda>tx. Reply tx Panic) receivers))"

text \<open>The result of a joined mapping task: \<open>None\<close> is a join error.\<close>

definition on_mapping_result ::
  "instant \<Rightarrow> ('g mapping, mapping_error) res option \<Rightarrow> 'g service \<Rightarrow> 'g service" where
  "on_mapping_result now result sv =
     (case result of
        Some (Ok mapping) \<Rightarrow> snd (sv_update_mapping now (Some mapping) sv)
      | _ \<Rightarrow> sv\<lparr>sv_metrics := (sv_metrics sv)
          \<lparr>mapping_failures := Suc (mapping_failures (sv_metrics sv))\<rparr>\<rparr>)"

text \<open>One iteration of the loop of \<^verbatim>\<open>run\<close>, by the branch of the \<^verbatim>\<open>select!\<close> that completes. A
  branch that is not ready does not complete: the result is \<open>None\<close>. The service polls its current
  mapping from its own task only, whose waker is \<open>0\<close>.\<close>

datatype 'g tick =
    TickMsg message
  | TickMapping "('g mapping, mapping_error) res option"
  | TickProbe "('g probe, probe_error) res"
  | TickEvent

definition run_tick ::
  "instant \<Rightarrow> home_router option \<Rightarrow> 'g tick \<Rightarrow> 'g service \<Rightarrow> ('g service \<times> 'g effect list) option" where
  "run_tick now home_router tick sv =
     (case tick of
        TickMsg msg \<Rightarrow> Some (handle_msg now home_router msg sv)
      | TickMapping result \<Rightarrow>
          (case maybe_future_poll (\<lambda>task. Some result) (sv_mapping_task sv) of
             None \<Rightarrow> None
           | Some mapping_result \<Rightarrow>
               Some (on_mapping_result now mapping_result (sv\<lparr>sv_mapping_task := None\<rparr>), []))
      | TickProbe result \<Rightarrow>
          (case maybe_future_poll (\<lambda>task. Some result) (map_option fst (sv_probing_task sv)) of
             None \<Rightarrow> None
           | Some probe_result \<Rightarrow>
               let receivers = snd (the (sv_probing_task sv)) in
               Some (on_probe_result now probe_result receivers (sv\<lparr>sv_probing_task := None\<rparr>)))
      | TickEvent \<Rightarrow>
          (case slot_poll mapping_external mapping_half_lifetime now 0 (sv_current sv, sv_metrics sv) of
             (None, _) \<Rightarrow> None
           | (Some event, current, metrics) \<Rightarrow>
               let sv' = sv\<lparr>sv_current := current, sv_metrics := metrics\<rparr> in
               (case event of
                  Renew external_ip external_port \<Rightarrow>
                    Some (get_mapping now home_router (Some (external_ip, external_port)) sv', [])
                | Expired external_ip external_port \<Rightarrow>
                    Some (get_mapping now home_router (Some (external_ip, external_port)) sv', []))))"

section \<open>Facts\<close>

primrec task_port :: "'g mapping_task \<Rightarrow> nzu16" where
  "task_port (TaskPcp protocol local_ip local_port gateway a) = local_port"
| "task_port (TaskNatPmp protocol local_ip local_port gateway a) = local_port"
| "task_port (TaskUpnp protocol local_ip local_port gateway p) = local_port"

primrec task_protocol :: "'g mapping_task \<Rightarrow> protocol" where
  "task_protocol (TaskPcp protocol local_ip local_port gateway a) = protocol"
| "task_protocol (TaskNatPmp protocol local_ip local_port gateway a) = protocol"
| "task_protocol (TaskUpnp protocol local_ip local_port gateway p) = protocol"

primrec task_enabled :: "config \<Rightarrow> 'g mapping_task \<Rightarrow> bool" where
  "task_enabled cfg (TaskPcp protocol local_ip local_port gateway a) = enable_pcp cfg"
| "task_enabled cfg (TaskNatPmp protocol local_ip local_port gateway a) = enable_nat_pmp cfg"
| "task_enabled cfg (TaskUpnp protocol local_ip local_port gateway p) = enable_upnp cfg"

definition probe_conforms :: "config \<Rightarrow> 'g probe \<Rightarrow> bool" where
  "probe_conforms cfg p \<longleftrightarrow>
     (last_upnp_gateway_addr p \<noteq> None \<longrightarrow> enable_upnp cfg)
     \<and> (last_pcp p \<noteq> None \<longrightarrow> enable_pcp cfg) \<and> (last_nat_pmp p \<noteq> None \<longrightarrow> enable_nat_pmp cfg)"

text \<open>The invariant of the service, by the fields it constrains.\<close>

definition task_inv :: "config \<Rightarrow> nzu16 option \<Rightarrow> 'g mapping_task option \<Rightarrow> bool" where
  "task_inv cfg port task \<longleftrightarrow> (\<forall>t. task = Some t \<longrightarrow>
     port = Some (task_port t) \<and> task_protocol t = cfg_protocol cfg \<and> task_enabled cfg t)"

definition held :: "'m current_mapping \<Rightarrow> 'm option" where
  "held c = map_option am_mapping (cur_mapping c)"

definition published_inv :: "'g mapping current_mapping \<Rightarrow> bool" where
  "published_inv c \<longleftrightarrow> watch_value (cur_address c) =
     map_option socket_addr_v4 (current_external mapping_external c)"

definition probing_inv :: "config \<Rightarrow> (probing_task \<times> request list) option \<Rightarrow> bool" where
  "probing_inv cfg pt \<longleftrightarrow> (\<forall>t receivers. pt = Some (t, receivers) \<longrightarrow>
     receivers \<noteq> [] \<and> pt_config t = cfg)"

definition service_inv :: "'g service \<Rightarrow> bool" where
  "service_inv sv \<longleftrightarrow> published_inv (sv_current sv)
     \<and> task_inv (sv_config sv) (sv_local_port sv) (sv_mapping_task sv)
     \<and> probing_inv (sv_config sv) (sv_probing_task sv)
     \<and> probe_conforms (sv_config sv) (sv_full_probe sv)"

lemma task_inv_None [simp]: "task_inv cfg port None"
  by (simp add: task_inv_def)

lemma probing_inv_intros [simp]:
  "probing_inv cfg None" "pt_config t = cfg \<Longrightarrow> probing_inv cfg (Some (t, rs @ [tx]))"
  "pt_config t = cfg \<Longrightarrow> probing_inv cfg (Some (t, [tx]))"
  by (simp_all add: probing_inv_def)

lemma current_inv_published: "current_inv mapping_external (c, mt) \<longleftrightarrow> published_inv c"
  by (simp add: current_inv_def published_inv_def)

lemma current_held_eq: "current_held (c, mt) = held c"
  by (simp add: current_held_def held_def)

lemma trusted_seen: "still_trusted now x \<Longrightarrow> x \<noteq> None"
  by (cases x) (simp_all add: still_trusted_def)

lemma mapping_strategy_Some:
  assumes "mapping_strategy cfg out recent g local_ip port gateway ext = Some t"
  shows "task_port t = port" "task_protocol t = cfg_protocol cfg"
    and "(po_pcp out \<longrightarrow> enable_pcp cfg) \<and> (po_nat_pmp out \<longrightarrow> enable_nat_pmp cfg)
      \<and> (po_upnp out \<longrightarrow> enable_upnp cfg) \<Longrightarrow> task_enabled cfg t"
  using assms by (auto simp: mapping_strategy_def Let_def split: if_splits)

lemma probe_conforms_output:
  assumes "probe_conforms cfg p"
  shows "(po_pcp (probe_output_of now p) \<longrightarrow> enable_pcp cfg)
    \<and> (po_nat_pmp (probe_output_of now p) \<longrightarrow> enable_nat_pmp cfg)
    \<and> (po_upnp (probe_output_of now p) \<longrightarrow> enable_upnp cfg)"
  using assms by (auto simp: probe_conforms_def probe_output_of_def dest!: trusted_seen)

text \<open>What getting a mapping may change: the attempt counter and the mapping task.\<close>

definition attempted :: "'g service \<Rightarrow> 'g service" where
  "attempted sv = sv\<lparr>sv_metrics := (sv_metrics sv)
     \<lparr>mapping_attempts := Suc (mapping_attempts (sv_metrics sv))\<rparr>\<rparr>"

lemma get_mapping_cases:
  obtains (idle) "get_mapping now hr ext sv = sv" "sv_local_port sv = None"
    | (no_task) "get_mapping now hr ext sv = attempted sv"
    | (task) t where "get_mapping now hr ext sv = (attempted sv)\<lparr>sv_mapping_task := Some t\<rparr>"
        "sv_local_port sv = Some (task_port t)" "task_protocol t = cfg_protocol (sv_config sv)"
        "probe_conforms (sv_config sv) (sv_full_probe sv) \<Longrightarrow> task_enabled (sv_config sv) t"
proof (cases "sv_local_port sv")
  case None
  then show thesis using idle by (simp add: get_mapping_def)
next
  case (Some port)
  show thesis
  proof (cases "ip_and_gateway hr")
    case (Ok a)
    let ?strategy = "mapping_strategy (sv_config sv) (probe_output_of now (sv_full_probe sv))
      (recently_probed now sv) (map_option fst (last_upnp_gateway_addr (sv_full_probe sv)))
      (fst a) port (snd a) ext"
    show thesis
    proof (cases ?strategy)
      case None
      then show thesis using no_task Some Ok
        by (simp add: get_mapping_def attempted_def Let_def case_prod_unfold)
    next
      case (Some t)
      show thesis
      proof (rule task [of t])
        show "get_mapping now hr ext sv = (attempted sv)\<lparr>sv_mapping_task := Some t\<rparr>"
          using \<open>sv_local_port sv = Some port\<close> Ok Some
          by (simp add: get_mapping_def attempted_def Let_def case_prod_unfold)
      qed (use mapping_strategy_Some [OF Some] \<open>sv_local_port sv = Some port\<close> probe_conforms_output in blast)+
    qed
  qed (use Some no_task in \<open>simp_all add: get_mapping_def attempted_def Let_def\<close>)
qed

lemma attempted_fields [simp]:
  "sv_config (attempted sv) = sv_config sv" "sv_local_port (attempted sv) = sv_local_port sv"
  "sv_current (attempted sv) = sv_current sv" "sv_full_probe (attempted sv) = sv_full_probe sv"
  "sv_mapping_task (attempted sv) = sv_mapping_task sv"
  "sv_probing_task (attempted sv) = sv_probing_task sv"
  by (simp_all add: attempted_def)

lemma get_mapping_inv:
  assumes "service_inv sv"
  shows "service_inv (get_mapping now hr ext sv)"
proof (cases now hr ext sv rule: get_mapping_cases)
  case (task t)
  then have "task_inv (sv_config sv) (sv_local_port sv) (Some t)"
    using assms by (simp add: task_inv_def service_inv_def)
  then show ?thesis using assms by (simp add: service_inv_def task(1))
qed (use assms in \<open>simp_all add: service_inv_def\<close>)

lemma sv_update_mapping_fields:
  assumes "sv_update_mapping now m sv = (old, sv')"
  shows "published_inv (sv_current sv')" and "held (sv_current sv') = m" and "old = held (sv_current sv)"
    and "sv_config sv' = sv_config sv" "sv_local_port sv' = sv_local_port sv"
      "sv_full_probe sv' = sv_full_probe sv" "sv_mapping_task sv' = sv_mapping_task sv"
      "sv_probing_task sv' = sv_probing_task sv"
proof -
  obtain old' c mt woken where upd: "current_update mapping_external mapping_half_lifetime now m
      (sv_current sv) (sv_metrics sv) = (old', c, mt, woken)"
    by (metis prod_cases4)
  then have sv': "sv' = sv\<lparr>sv_current := c, sv_metrics := mt\<rparr>" and old: "old = old'"
    using assms by (simp_all add: sv_update_mapping_def slot_update_def)
  show "published_inv (sv_current sv')" and "held (sv_current sv') = m" and "old = held (sv_current sv)"
    using current_update_inv [OF upd] by (simp_all add: sv' old current_inv_published current_held_eq)
qed (use assms in \<open>auto simp: sv_update_mapping_def split: prod.splits\<close>)

lemma sv_external_held: "sv_external sv = map_option mapping_external (held (sv_current sv))"
  by (simp add: sv_external_def current_external_def held_def option.map_comp o_def)

lemma invalidate_mapping_fields:
  assumes "invalidate_mapping now sv = (sv', effects)"
  shows "\<exists>old. sv_update_mapping now None sv = (old, sv')"
    and "effects = (case held (sv_current sv) of Some m \<Rightarrow> [Release m] | None \<Rightarrow> [])"
proof -
  obtain old sv2 where upd: "sv_update_mapping now None sv = (old, sv2)" by force
  then show "\<exists>old. sv_update_mapping now None sv = (old, sv')"
    and "effects = (case held (sv_current sv) of Some m \<Rightarrow> [Release m] | None \<Rightarrow> [])"
    using assms sv_update_mapping_fields(3) [OF upd]
    by (auto simp: invalidate_mapping_def split: option.splits)
qed

text \<open>A changed port: the state the new mapping is requested in.\<close>

definition port_changed :: "nzu16 option \<Rightarrow> 'g service \<Rightarrow> 'g service" where
  "port_changed port sv =
     sv\<lparr>sv_metrics := (sv_metrics sv)\<lparr>local_port_updates := Suc (local_port_updates (sv_metrics sv))\<rparr>,
       sv_local_port := port, sv_mapping_task := None\<rparr>"

lemma port_changed_fields [simp]:
  "sv_config (port_changed port sv) = sv_config sv" "sv_local_port (port_changed port sv) = port"
  "sv_current (port_changed port sv) = sv_current sv" "sv_full_probe (port_changed port sv) = sv_full_probe sv"
  "sv_mapping_task (port_changed port sv) = None"
  "sv_probing_task (port_changed port sv) = sv_probing_task sv"
  "sv_external (port_changed port sv) = sv_external sv"
  by (simp_all add: port_changed_def sv_external_def)

lemma update_local_port_cases:
  obtains (unchanged) "port = sv_local_port sv" "update_local_port now hr port sv = (sv, [])"
      "held (sv_current sv) \<noteq> None"
    | (retry) "port = sv_local_port sv" "held (sv_current sv) = None"
        "update_local_port now hr port sv = (get_mapping now hr None sv, [])"
    | (fresh) "port \<noteq> sv_local_port sv" "held (sv_current sv) = None"
        "update_local_port now hr port sv = (get_mapping now hr None (port_changed port sv), [])"
    | (moved) m sv2 where "port \<noteq> sv_local_port sv" "held (sv_current sv) = Some m"
        "sv_update_mapping now None (port_changed port sv) = (Some m, sv2)"
        "update_local_port now hr port sv =
           (get_mapping now hr (Some (mapping_external m)) sv2, [Release m])"
proof (cases "port = sv_local_port sv")
  case True
  then show thesis using unchanged retry
    by (cases "held (sv_current sv)") (simp_all add: update_local_port_def sv_external_held)
next
  case changed: False
  have upd: "update_local_port now hr port sv =
      (case (if sv_external sv \<noteq> None then invalidate_mapping now (port_changed port sv)
             else (port_changed port sv, [])) of
         (sv2, effects) \<Rightarrow> (get_mapping now hr (sv_external sv) sv2, effects))"
    using changed
    by (simp add: update_local_port_def Let_def port_changed_def [symmetric] del: split_paired_All)
  show thesis
  proof (cases "held (sv_current sv)")
    case None
    then show thesis using fresh changed by (simp add: upd sv_external_held)
  next
    case (Some m)
    obtain old sv2 where sv2: "sv_update_mapping now None (port_changed port sv) = (old, sv2)" by force
    then have "old = Some m" using sv_update_mapping_fields(3) [OF sv2] Some by simp
    then show thesis using moved [OF changed Some] sv2 Some
      by (simp add: upd sv_external_held invalidate_mapping_def)
  qed
qed

lemma update_local_port_inv:
  assumes "service_inv sv" and "update_local_port now hr port sv = (sv', effects)"
  shows "service_inv sv'"
proof (cases rule: update_local_port_cases [where port = port and sv = sv and now = now and hr = hr])
  case (moved m sv2)
  have "service_inv sv2"
    using sv_update_mapping_fields [OF moved(3)] assms(1) by (simp add: service_inv_def)
  then show ?thesis using moved(4) assms(2) by (auto intro: get_mapping_inv)
next
  case fresh
  then have "service_inv (port_changed port sv)"
    using assms(1) by (simp add: service_inv_def)
  then show ?thesis using fresh(3) assms(2) by (auto intro: get_mapping_inv)
qed (use assms in \<open>auto intro: get_mapping_inv\<close>)

lemma probe_request_cases:
  obtains (join) t rs where "sv_probing_task sv = Some (t, rs)"
      "probe_request now hr tx sv = (sv\<lparr>sv_probing_task := Some (t, rs @ [tx])\<rparr>, [])"
    | (answered) out where "probe_request now hr tx sv = (sv, [Reply tx (Ok out)])"
    | (failed) mt e where "probe_request now hr tx sv = (sv\<lparr>sv_metrics := mt\<rparr>, [Reply tx (Err e)])"
    | (started) mt t where "sv_probing_task sv = None" "pt_config t = sv_config sv"
        "probe_request now hr tx sv = (sv\<lparr>sv_metrics := mt, sv_probing_task := Some (t, [tx])\<rparr>, [])"
proof (cases "sv_probing_task sv")
  case (Some a)
  then show thesis using join by (cases a) (simp add: probe_request_def)
next
  case None
  show thesis
  proof (cases "all_available (probe_output_of now (sv_full_probe sv))")
    case True
    then show thesis using answered None by (simp add: probe_request_def Let_def)
  next
    case running: False
    have "ip_and_gateway hr \<noteq> Panic"
      by (simp add: ip_and_gateway_def Let_def split: option.splits ip_addr.splits)
    then consider a where "ip_and_gateway hr = Ok a" | e where "ip_and_gateway hr = Err e"
      by (cases "ip_and_gateway hr") auto
    then show thesis
    proof cases
      case 1
      let ?t = "\<lparr>pt_config = sv_config sv, pt_output = probe_output_of now (sv_full_probe sv),
        pt_local_ip = fst a, pt_gateway = snd a\<rparr>"
      show thesis
        by (rule started [of ?t]) (use 1 None running in
          \<open>simp_all add: probe_request_def Let_def case_prod_unfold\<close>)
    next
      case 2
      then show thesis using failed None running by (simp add: probe_request_def Let_def)
    qed
  qed
qed

lemma probe_request_inv:
  assumes "service_inv sv" and "probe_request now hr tx sv = (sv', effects)"
  shows "service_inv sv'"
proof (cases rule: probe_request_cases [where sv = sv and now = now and hr = hr and tx = tx])
  case (join t rs)
  then have "pt_config t = sv_config sv" using assms(1) by (simp add: service_inv_def probing_inv_def)
  then show ?thesis using join(2) assms by (auto simp: service_inv_def)
qed (use assms in \<open>auto simp: service_inv_def\<close>)

lemma handle_msg_inv:
  assumes "service_inv sv" and "handle_msg now hr msg sv = (sv', effects)"
  shows "service_inv sv'"
  using assms by (cases msg) (auto simp: handle_msg_def dest: update_local_port_inv probe_request_inv)

section \<open>The service as a state machine\<close>

text \<open>The outcomes a running task can have: a mapping or a probe only if some behaviour of the network
  makes the task return it; an error, or a join error, always.\<close>

definition mapping_outcome :: "'g mapping_task \<Rightarrow> 'g mapping \<Rightarrow> bool" where
  "mapping_outcome t m \<longleftrightarrow>
     (\<exists>env igd nonce logs logs'. run_mapping_task env igd nonce t logs = (Ok m, logs'))"

definition probe_outcome :: "probing_task \<Rightarrow> 'g probe \<Rightarrow> bool" where
  "probe_outcome t p \<longleftrightarrow>
     (\<exists>env igd mt start ticks. probe_from_output env igd (pt_config t) (pt_output t) (pt_local_ip t)
        (pt_gateway t) mt start ticks = Some (Ok p))"

definition tick_possible :: "'g service \<Rightarrow> 'g tick \<Rightarrow> bool" where
  "tick_possible sv tick \<longleftrightarrow>
     (case tick of
        TickMapping (Some (Ok m)) \<Rightarrow> (\<exists>t. sv_mapping_task sv = Some t \<and> mapping_outcome t m)
      | TickProbe (Ok p) \<Rightarrow> (\<exists>t rs. sv_probing_task sv = Some (t, rs) \<and> probe_outcome t p)
      | TickProbe Panic \<Rightarrow> False
      | _ \<Rightarrow> True)"

text \<open>
  The runs of the service, with the history of the attempts that succeeded: each is the task that was
  running and the mapping it returned.
\<close>

definition wins :: "'g service \<Rightarrow> 'g tick \<Rightarrow> ('g mapping_task \<times> 'g mapping) list" where
  "wins sv tick =
     (case tick of
        TickMapping (Some (Ok m)) \<Rightarrow> (case sv_mapping_task sv of Some t \<Rightarrow> [(t, m)] | None \<Rightarrow> [])
      | _ \<Rightarrow> [])"

inductive service_run :: "config \<Rightarrow> ('g mapping_task \<times> 'g mapping) list \<Rightarrow> 'g service \<Rightarrow> bool" for cfg where
  start: "service_run cfg [] (service_new cfg now mt)"
| continue: "service_run cfg won sv \<Longrightarrow> tick_possible sv tick \<Longrightarrow>
    run_tick now hr tick sv = Some (sv', effects) \<Longrightarrow> service_run cfg (won @ wins sv tick) sv'"

lemma probe_outcome_conforms:
  assumes "probe_outcome t p"
  shows "probe_conforms (pt_config t) p"
  using assms
  by (auto simp: probe_outcome_def probe_from_output_def probe_conforms_def probe_needed_def probe_empty_def
      dest!: probe_loop_keeps)

lemma probe_update_conforms:
  assumes "probe_conforms cfg self" and "probe_conforms cfg p"
  shows "probe_conforms cfg (fst (probe_update self p mt))"
  using assms by (auto simp: probe_update_def probe_conforms_def Let_def)

lemma on_probe_result_inv:
  assumes "service_inv sv" and "probe_conforms (sv_config sv) p"
    and "on_probe_result now (Ok p) receivers sv = (sv', effects)"
  shows "service_inv sv'"
proof -
  obtain full mt where upd: "probe_update (sv_full_probe sv) p (sv_metrics sv) = (full, mt)" by force
  then have "probe_conforms (sv_config sv) full"
    using probe_update_conforms [of "sv_config sv" "sv_full_probe sv" p "sv_metrics sv"] assms(1,2)
    by (simp add: service_inv_def)
  then show ?thesis using assms(1,3) by (auto simp: on_probe_result_def upd service_inv_def)
qed

lemma slot_poll_fields:
  assumes "slot_poll mapping_external mapping_half_lifetime now w (sv_current sv, sv_metrics sv)
      = (Some e, c, mt)" and "service_inv sv"
  shows "service_inv (sv\<lparr>sv_current := c, sv_metrics := mt\<rparr>)"
proof -
  have inv: "current_inv mapping_external (sv_current sv, sv_metrics sv)"
    using assms(2) by (simp add: service_inv_def current_inv_published)
  have "published_inv c"
    using cm.inv_tick [OF inv assms(1)] by (simp add: current_inv_published)
  then show ?thesis using assms(2) by (simp add: service_inv_def)
qed

lemma on_mapping_result_inv:
  assumes "service_inv sv"
  shows "service_inv (on_mapping_result now r sv)"
proof (cases "\<exists>m. r = Some (Ok m)")
  case True
  then obtain m where r: "r = Some (Ok m)" by blast
  obtain old sv' where upd: "sv_update_mapping now (Some m) sv = (old, sv')" by force
  then show ?thesis
    using sv_update_mapping_fields [OF upd] assms by (simp add: on_mapping_result_def service_inv_def r)
next
  case False
  then have "on_mapping_result now r sv = sv\<lparr>sv_metrics := (sv_metrics sv)
      \<lparr>mapping_failures := Suc (mapping_failures (sv_metrics sv))\<rparr>\<rparr>"
    by (cases r; cases "the r") (simp_all add: on_mapping_result_def)
  then show ?thesis using assms by (simp add: service_inv_def)
qed

lemma service_inv_no_task: "service_inv sv \<Longrightarrow> service_inv (sv\<lparr>sv_mapping_task := None\<rparr>)"
  by (simp add: service_inv_def)

lemma service_inv_no_probe: "service_inv sv \<Longrightarrow> service_inv (sv\<lparr>sv_probing_task := None\<rparr>)"
  by (simp add: service_inv_def)

lemma probe_tick_inv:
  assumes "service_inv sv" and "sv_probing_task sv = Some (t, rs)"
    and "tick_possible sv (TickProbe r)"
    and "on_probe_result now r rs (sv\<lparr>sv_probing_task := None\<rparr>) = (sv', effects)"
  shows "service_inv sv'"
proof (cases r)
  case (Ok p)
  then have "probe_conforms (pt_config t) p"
    using assms(2,3) by (auto simp: tick_possible_def dest: probe_outcome_conforms)
  moreover have "pt_config t = sv_config sv"
    using assms(1,2) by (simp add: service_inv_def probing_inv_def)
  ultimately show ?thesis
    using on_probe_result_inv [OF service_inv_no_probe [OF assms(1)]] assms(4) Ok by simp
qed (use service_inv_no_probe [OF assms(1)] assms(4) in \<open>auto simp: on_probe_result_def\<close>)

lemma run_tick_inv:
  assumes "service_inv sv" and "tick_possible sv tick" and "run_tick now hr tick sv = Some (sv', effects)"
  shows "service_inv sv'"
proof (cases tick)
  case (TickMsg msg)
  then show ?thesis using assms handle_msg_inv by (auto simp: run_tick_def)
next
  case (TickMapping r)
  then show ?thesis using assms on_mapping_result_inv [OF service_inv_no_task [OF assms(1)]]
    by (auto simp: run_tick_def split: option.splits)
next
  case (TickProbe r)
  then show ?thesis using assms probe_tick_inv
    by (auto simp: run_tick_def split: option.splits prod.splits)
next
  case TickEvent
  obtain e c mt where poll: "slot_poll mapping_external mapping_half_lifetime now 0
      (sv_current sv, sv_metrics sv) = (e, c, mt)" by (metis prod_cases3)
  with TickEvent assms(3) obtain ev ext where e: "e = Some ev"
    and sv': "sv' = get_mapping now hr (Some ext) (sv\<lparr>sv_current := c, sv_metrics := mt\<rparr>)"
    by (auto simp: run_tick_def Let_def split: option.splits event.splits)
  then show ?thesis using slot_poll_fields [OF _ assms(1)] poll by (auto intro: get_mapping_inv)
qed

lemma service_new_inv: "service_inv (service_new cfg now mt)"
  by (simp add: service_inv_def service_new_def published_inv_def probe_conforms_def
      probe_empty_def current_mapping_new_def watch_channel_def current_external_def Let_def
      split: option.splits)

text \<open>A step keeps the configuration. After it the service holds nothing, or what the attempt that
  ended with it returned, or what it held before, and then for the same port.\<close>

lemma get_mapping_fields [simp]:
  "sv_config (get_mapping now hr ext sv) = sv_config sv"
  "sv_local_port (get_mapping now hr ext sv) = sv_local_port sv"
  "sv_current (get_mapping now hr ext sv) = sv_current sv"
  by (cases now hr ext sv rule: get_mapping_cases; simp)+

lemma update_local_port_held:
  assumes "update_local_port now hr port sv = (sv', effects)"
  shows "sv_config sv' = sv_config sv \<and> sv_local_port sv' = port"
    and "held (sv_current sv') = None \<or> held (sv_current sv') = held (sv_current sv) \<and> port = sv_local_port sv"
proof -
  have "(sv_config sv' = sv_config sv \<and> sv_local_port sv' = port) \<and> (held (sv_current sv') = None
      \<or> held (sv_current sv') = held (sv_current sv) \<and> port = sv_local_port sv)"
  proof (cases rule: update_local_port_cases [where port = port and sv = sv and now = now and hr = hr])
    case (moved m sv2)
    then show ?thesis using sv_update_mapping_fields [OF moved(3)] assms by auto
  qed (use assms in auto)
  then show "sv_config sv' = sv_config sv \<and> sv_local_port sv' = port"
    and "held (sv_current sv') = None \<or> held (sv_current sv') = held (sv_current sv) \<and> port = sv_local_port sv"
    by blast+
qed

lemma probe_request_held:
  assumes "probe_request now hr tx sv = (sv', effects)"
  shows "sv_config sv' = sv_config sv \<and> sv_local_port sv' = sv_local_port sv \<and> sv_current sv' = sv_current sv"
  by (cases rule: probe_request_cases [where sv = sv and now = now and hr = hr and tx = tx])
    (use assms in auto)

lemma run_tick_cases:
  assumes "run_tick now hr tick sv = Some (sv', effects)"
  obtains (empty) "sv_config sv' = sv_config sv" "held (sv_current sv') = None"
    | (won) t m where "sv_config sv' = sv_config sv" "sv_local_port sv' = sv_local_port sv"
        "held (sv_current sv') = Some m" "sv_mapping_task sv = Some t" "wins sv tick = [(t, m)]"
        "tick = TickMapping (Some (Ok m))"
    | (kept) "sv_config sv' = sv_config sv" "sv_local_port sv' = sv_local_port sv"
        "held (sv_current sv') = held (sv_current sv)" "wins sv tick = []"
proof (cases tick)
  case (TickMsg msg)
  then have msg: "handle_msg now hr msg sv = (sv', effects)" and w: "wins sv tick = []"
    using assms by (simp_all add: run_tick_def wins_def)
  consider tx where "probe_request now hr tx sv = (sv', effects)"
    | port where "update_local_port now hr port sv = (sv', effects)"
    using msg by (cases msg) (simp_all add: handle_msg_def)
  then show thesis
  proof cases
    case 1
    then show thesis using w kept probe_request_held [OF 1] by simp
  next
    case 2
    show thesis using update_local_port_held [OF 2] w empty kept by blast
  qed
next
  case (TickMapping r)
  then obtain t where t: "sv_mapping_task sv = Some t"
    and sv': "sv' = on_mapping_result now r (sv\<lparr>sv_mapping_task := None\<rparr>)"
    using assms by (auto simp: run_tick_def split: option.splits)
  show thesis
  proof (cases "\<exists>m. r = Some (Ok m)")
    case True
    then obtain m where r: "r = Some (Ok m)" by blast
    obtain old sv2 where upd: "sv_update_mapping now (Some m) (sv\<lparr>sv_mapping_task := None\<rparr>) = (old, sv2)"
      by force
    then show thesis using won [of m t] sv_update_mapping_fields [OF upd] t
      by (simp add: sv' r on_mapping_result_def TickMapping wins_def)
  next
    case False
    then show thesis using kept
      by (cases r; cases "the r") (simp_all add: sv' on_mapping_result_def TickMapping wins_def)
  qed
next
  case (TickProbe r)
  then show thesis using assms kept
    by (auto simp: run_tick_def on_probe_result_def wins_def split: option.splits res.splits prod.splits)
next
  case TickEvent
  obtain e c mt where poll: "slot_poll mapping_external mapping_half_lifetime now 0
      (sv_current sv, sv_metrics sv) = (e, c, mt)" by (metis prod_cases3)
  with TickEvent assms obtain ev ext where e: "e = Some ev"
    and sv': "sv' = get_mapping now hr (Some ext) (sv\<lparr>sv_current := c, sv_metrics := mt\<rparr>)"
    by (auto simp: run_tick_def Let_def split: option.splits event.splits)
  then have "held c = (case ev of Expired ip port \<Rightarrow> None | _ \<Rightarrow> held (sv_current sv))"
    using cm.held_tick [OF poll [unfolded e]] by (cases ev) (simp_all add: current_held_eq)
  then show thesis using empty kept by (cases ev) (simp_all add: sv' TickEvent wins_def)
qed

text \<open>What is held is the mapping of the last successful attempt, which was for the current port.\<close>

definition held_inv ::
  "config \<Rightarrow> ('g mapping_task \<times> 'g mapping) list \<Rightarrow> nzu16 option \<Rightarrow> 'g mapping option \<Rightarrow> bool" where
  "held_inv cfg won port h \<longleftrightarrow> (\<forall>m. h = Some m \<longrightarrow> (\<exists>earlier t. won = earlier @ [(t, m)]
     \<and> mapping_outcome t m \<and> port = Some (task_port t) \<and> task_protocol t = cfg_protocol cfg
     \<and> task_enabled cfg t))"

lemma service_run_inv:
  assumes "service_run cfg won sv"
  shows "service_inv sv \<and> sv_config sv = cfg \<and> held_inv cfg won (sv_local_port sv) (held (sv_current sv))"
  using assms
proof (induction rule: service_run.induct)
  case (start now mt)
  show ?case using service_new_inv [of cfg now mt]
    by (simp add: held_inv_def held_def service_new_def current_mapping_new_def Let_def)
next
  case (continue won sv tick now hr sv' effects)
  then have inv: "service_inv sv'" using run_tick_inv by blast
  from continue(3) show ?case
  proof (cases rule: run_tick_cases)
    case (won t m)
    then have "mapping_outcome t m" using continue(2) by (simp add: tick_possible_def)
    moreover have "task_inv (sv_config sv) (sv_local_port sv) (sv_mapping_task sv)"
      using continue.IH unfolding service_inv_def by blast
    ultimately show ?thesis using inv won continue.IH by (simp add: held_inv_def task_inv_def)
  qed (use inv continue.IH in \<open>simp_all add: held_inv_def\<close>)
qed

section \<open>Properties\<close>

text \<open>C1: in every state the service can reach, under every behaviour of the gateway, the network and the
  clock: the published address is that of the mapping held; a held mapping is the one returned by
  the last attempt that succeeded, and that attempt was for the current local port, for the
  configured transport protocol, and with an enabled mapping protocol; the running mapping task is
  so too; and with port mapping deactivated there is neither a mapping, nor a published address,
  nor a task.\<close>

theorem service_invariant:
  assumes "service_run cfg won sv"
  shows "watch_value (cur_address (sv_current sv)) = map_option socket_addr_v4 (sv_external sv)
    \<and> (\<forall>m. held (sv_current sv) = Some m \<longrightarrow>
         (\<exists>earlier t. won = earlier @ [(t, m)] \<and> mapping_outcome t m \<and> sv_local_port sv = Some (task_port t)
            \<and> task_protocol t = cfg_protocol cfg \<and> task_enabled cfg t))
    \<and> (\<forall>t. sv_mapping_task sv = Some t \<longrightarrow> sv_local_port sv = Some (task_port t)
         \<and> task_protocol t = cfg_protocol cfg \<and> task_enabled cfg t)
    \<and> (sv_local_port sv = None \<longrightarrow> held (sv_current sv) = None
         \<and> watch_value (cur_address (sv_current sv)) = None \<and> sv_mapping_task sv = None)"
proof -
  have inv: "service_inv sv" "sv_config sv = cfg"
    and held: "held_inv cfg won (sv_local_port sv) (held (sv_current sv))"
    using service_run_inv [OF assms] by blast+
  then have published: "watch_value (cur_address (sv_current sv)) = map_option socket_addr_v4 (sv_external sv)"
    by (simp add: service_inv_def published_inv_def sv_external_def)
  have none: "held (sv_current sv) = None \<and> sv_mapping_task sv = None" if "sv_local_port sv = None"
    using inv held that by (cases "held (sv_current sv)"; cases "sv_mapping_task sv")
      (simp_all add: service_inv_def held_inv_def task_inv_def)
  then have "watch_value (cur_address (sv_current sv)) = None" if "sv_local_port sv = None"
    using that published by (simp add: sv_external_held)
  with inv held published none show ?thesis by (simp add: service_inv_def held_inv_def task_inv_def)
qed

theorem service_invariant_witness:
  "\<exists>(sv :: nat service) won. service_run config_default won sv
     \<and> (\<exists>t. sv_mapping_task sv = Some t \<and> task_port t = Abs_nzu16 1234)"
proof -
  let ?sv0 = "service_new config_default (from_secs 1000) metrics_default :: nat service"
  let ?hr = "Some \<lparr>hr_gateway = V4 (Ipv4 10 0 0 1), hr_my_ip = None\<rparr>"
  obtain sv effects where "handle_msg (from_secs 1001) ?hr (UpdateLocalPort (Some (Abs_nzu16 1234))) ?sv0
      = (sv, effects)"
    by force
  then have tick: "run_tick (from_secs 1001) ?hr
      (TickMsg (UpdateLocalPort (Some (Abs_nzu16 1234)))) ?sv0 = Some (sv, effects)"
    by (simp add: run_tick_def)
  have run: "service_run config_default ([] @ wins ?sv0 (TickMsg (UpdateLocalPort (Some (Abs_nzu16 1234))))) sv"
    by (rule service_run.continue [OF service_run.start _ tick]) (simp add: tick_possible_def)
  have "sv_local_port sv = Some (Abs_nzu16 1234)" and "sv_mapping_task sv \<noteq> None"
    using tick
    by (auto simp: run_tick_def handle_msg_def update_local_port_def service_new_def sv_external_def
        current_external_def current_mapping_new_def get_mapping_def ip_and_gateway_def
        mapping_strategy_def config_default_def instant_checked_sub_def Let_def)
  with service_invariant [OF run] run show ?thesis by fastforce
qed

text \<open>C10: changing the local port abandons everything that belonged to the old one: the running mapping
  task is dropped, the mapping held is released and no longer published, and a new attempt, if one
  is started, is for the new port and asks for the external address just released.\<close>

theorem update_local_port_change:
  assumes "service_inv sv" and "port \<noteq> sv_local_port sv"
    and "update_local_port now hr port sv = (sv', effects)"
  shows "sv_local_port sv' = port
    \<and> effects = (case held (sv_current sv) of Some m \<Rightarrow> [Release m] | None \<Rightarrow> [])
    \<and> held (sv_current sv') = None \<and> watch_value (cur_address (sv_current sv')) = None
    \<and> (\<forall>t. sv_mapping_task sv' = Some t \<longrightarrow> port = Some (task_port t))"
proof -
  have inv: "service_inv sv'" using assms(1,3) by (rule update_local_port_inv)
  have keep: "sv_local_port (get_mapping now hr ext s) = sv_local_port s \<and>
      sv_current (get_mapping now hr ext s) = sv_current s" for ext and s :: "'a service"
    by (cases now hr ext s rule: get_mapping_cases) simp_all
  have "sv_local_port sv' = port \<and> held (sv_current sv') = None
      \<and> effects = (case held (sv_current sv) of Some m \<Rightarrow> [Release m] | None \<Rightarrow> [])"
  proof (cases rule: update_local_port_cases [where port = port and sv = sv and now = now and hr = hr])
    case fresh
    then show ?thesis using assms(3) keep by auto
  next
    case (moved m sv2)
    then show ?thesis using assms(3) keep [of _ sv2] sv_update_mapping_fields(2,5) [OF moved(3)] by simp
  qed (use assms(2) in auto)
  moreover from this have "watch_value (cur_address (sv_current sv')) = None"
    using inv by (simp add: service_inv_def published_inv_def current_external_def held_def)
  ultimately show ?thesis using inv by (auto simp: service_inv_def task_inv_def)
qed

theorem update_local_port_change_witness:
  "sv_local_port (fst (update_local_port 5 None (Some (Abs_nzu16 80))
      (service_new config_default 0 metrics_default :: nat service))) = Some (Abs_nzu16 80)"
proof -
  let ?sv = "service_new config_default 0 metrics_default :: nat service"
  obtain sv' effects where upd: "update_local_port 5 None (Some (Abs_nzu16 80)) ?sv = (sv', effects)"
    by force
  have "Some (Abs_nzu16 80) \<noteq> sv_local_port ?sv" by (simp add: service_new_def Let_def)
  from update_local_port_change [OF service_new_inv this upd] show ?thesis by (simp add: upd)
qed

text \<open>C9: with a local port and an IPv4 gateway an attempt starts a task exactly unless nothing can be
  tried: no protocol counts as available, UPnP is disabled, and PCP and NAT-PMP are disabled or were
  probed in the last five seconds. Among the available protocols PCP is preferred to NAT-PMP, and
  NAT-PMP to UPnP; UPnP is the fallback.\<close>

theorem get_mapping_task:
  fixes now :: instant
  assumes "sv_local_port sv = Some port" and "ip_and_gateway hr = Ok (ip, gw)"
    and "sv_mapping_task sv = None"
  defines "out \<equiv> probe_output_of now (sv_full_probe sv)"
    and "recent \<equiv> now < last_probe (sv_full_probe sv) + from_secs 5"
    and "cfg \<equiv> sv_config sv"
  shows "(sv_mapping_task (get_mapping now hr ext sv) = None \<longleftrightarrow>
      \<not> po_pcp out \<and> \<not> po_nat_pmp out \<and> \<not> po_upnp out \<and> \<not> enable_upnp cfg
      \<and> (recent \<or> \<not> enable_pcp cfg \<and> \<not> enable_nat_pmp cfg))
    \<and> (sv_mapping_task (get_mapping now hr ext sv) = Some (TaskPcp (cfg_protocol cfg) ip port gw ext)
        \<longleftrightarrow> po_pcp out \<or> \<not> po_nat_pmp out \<and> \<not> po_upnp out \<and> \<not> enable_upnp cfg
              \<and> \<not> recent \<and> enable_pcp cfg)
    \<and> ((\<exists>g p. sv_mapping_task (get_mapping now hr ext sv) = Some (TaskUpnp (cfg_protocol cfg) ip port g p))
        \<longleftrightarrow> \<not> po_pcp out \<and> \<not> po_nat_pmp out \<and> (po_upnp out \<or> enable_upnp cfg))"
  using assms(1-3)
  by (auto simp: get_mapping_def mapping_strategy_def out_def recent_def cfg_def recently_probed_def
      unavailability_trust_duration_def Let_def)

theorem get_mapping_task_witness:
  "sv_mapping_task (get_mapping 5 (Some \<lparr>hr_gateway = V4 (Ipv4 10 0 0 1), hr_my_ip = None\<rparr>) None
      ((service_new (config_default\<lparr>enable_upnp := False\<rparr>) 0 metrics_default :: nat service)
        \<lparr>sv_local_port := Some (Abs_nzu16 80)\<rparr>)) = None"
proof -
  let ?sv = "(service_new (config_default\<lparr>enable_upnp := False\<rparr>) 0 metrics_default :: nat service)
    \<lparr>sv_local_port := Some (Abs_nzu16 80)\<rparr>"
  have "ip_and_gateway (Some \<lparr>hr_gateway = V4 (Ipv4 10 0 0 1), hr_my_ip = None\<rparr>)
      = Ok (ipv4_localhost, Ipv4 10 0 0 1)"
    by (simp add: ip_and_gateway_def)
  moreover have "sv_mapping_task ?sv = None" by (simp add: service_new_def Let_def)
  ultimately show ?thesis
    using get_mapping_task [of ?sv "Abs_nzu16 80" _ ipv4_localhost "Ipv4 10 0 0 1" 5 None]
    by (simp add: service_new_def probe_empty_def instant_checked_sub_def availability_trust_duration_def
        probe_output_of_def still_trusted_def from_secs_def config_default_def Let_def)
qed

end
