(* ===== verification/Port_Client.thy ===== *)
theory Port_Client
  imports Service "HOL-Library.Multiset"
begin

text \<open>
  The client handle and the system it forms with the service, \<^verbatim>\<open>portmapper/src/lib.rs\<close>: a bounded
  channel carries the messages, and every probe request creates a channel for its one answer. The
  system's steps are the calls of the client, the iterations of the service loop, and the shutdown:
  dropping the last client aborts the task of the service, and what it had not answered is lost.
\<close>

section \<open>Client and channel\<close>

definition service_channel_capacity :: nat where "service_channel_capacity = 32"

text \<open>The system: the service, the messages in the channel, whether the service still receives and
  whether clients are left, the number of probe requests made so far (each is named by its number),
  the answers sent to them, the requests whose sender was dropped without an answer, and the mappings
  released.\<close>

record 'g system =
  sys_service :: "'g service"
  sys_queue :: "message list"
  sys_open :: bool
  sys_clients :: bool
  sys_requests :: nat
  sys_answers :: "(request \<times> probe_result) list"
  sys_dropped :: "request list"
  sys_released :: "'g mapping list"

datatype try_send_error = SendFull | SendClosed

definition try_send :: "message \<Rightarrow> 'g system \<Rightarrow> ('g system, try_send_error) res" where
  "try_send msg sys =
     (if \<not> sys_open sys then Err SendClosed
      else if length (sys_queue sys) < service_channel_capacity
      then Ok (sys\<lparr>sys_queue := sys_queue sys @ [msg]\<rparr>)
      else Err SendFull)"

definition client_new :: "config \<Rightarrow> instant \<Rightarrow> 'g system" where
  "client_new config now =
     \<lparr>sys_service = service_new config now metrics_default, sys_queue = [], sys_open = True,
      sys_clients = True, sys_requests = 0, sys_answers = [], sys_dropped = [], sys_released = []\<rparr>"

definition client_probe :: "'g system \<Rightarrow> 'g system" where
  "client_probe sys0 =
     (let result_tx = sys_requests sys0;
          sys = sys0\<lparr>sys_requests := Suc (sys_requests sys0)\<rparr>
      in case try_send (ProbeRequest result_tx) sys of
           Ok sys' \<Rightarrow> sys'
         | Err e \<Rightarrow> sys\<lparr>sys_answers := sys_answers sys
             @ [(result_tx, Err (case e of SendFull \<Rightarrow> ChannelFull | SendClosed \<Rightarrow> ChannelClosed))]\<rparr>
         | Panic \<Rightarrow> sys)"

text \<open>The other requests drop the error.\<close>

definition send_or_drop :: "message \<Rightarrow> 'g system \<Rightarrow> 'g system" where
  "send_or_drop msg sys = (case try_send msg sys of Ok sys' \<Rightarrow> sys' | _ \<Rightarrow> sys)"

definition client_procure_mapping :: "'g system \<Rightarrow> 'g system" where
  "client_procure_mapping = send_or_drop ProcureMapping"

definition client_update_local_port :: "nzu16 \<Rightarrow> 'g system \<Rightarrow> 'g system" where
  "client_update_local_port local_port = send_or_drop (UpdateLocalPort (Some local_port))"

definition client_deactivate :: "'g system \<Rightarrow> 'g system" where
  "client_deactivate = send_or_drop (UpdateLocalPort None)"

definition client_watch_external_address :: "'g system \<Rightarrow> (ipv4 \<times> u16) option" where
  "client_watch_external_address sys = watch_value (cur_address (sv_current (sys_service sys)))"

section \<open>Steps of the system\<close>

fun apply_effect :: "'g effect \<Rightarrow> 'g system \<Rightarrow> 'g system" where
  "apply_effect (Reply tx r) sys = sys\<lparr>sys_answers := sys_answers sys @ [(tx, r)]\<rparr>"
| "apply_effect (Release m) sys = sys\<lparr>sys_released := sys_released sys @ [m]\<rparr>"

text \<open>An iteration of the service loop on a message, or on another branch that is ready.\<close>

definition service_iteration ::
  "instant \<Rightarrow> home_router option \<Rightarrow> 'g tick \<Rightarrow> 'g system \<Rightarrow> 'g system option" where
  "service_iteration now hr tick sys =
     (case run_tick now hr tick (sys_service sys) of
        Some (sv, effects) \<Rightarrow> Some (fold apply_effect effects (sys\<lparr>sys_service := sv\<rparr>))
      | None \<Rightarrow> None)"

text \<open>The probe requests in a message, waiting for the running probe, and in the channel.\<close>

primrec message_requests :: "message \<Rightarrow> request list" where
  "message_requests ProcureMapping = []"
| "message_requests (UpdateLocalPort p) = []"
| "message_requests (ProbeRequest tx) = [tx]"

definition waiting :: "'g service \<Rightarrow> request list" where
  "waiting sv = (case sv_probing_task sv of Some (t, rs) \<Rightarrow> rs | None \<Rightarrow> [])"

definition queued :: "'g system \<Rightarrow> request list" where
  "queued sys = concat (map message_requests (sys_queue sys))"

text \<open>
  The end of the service task, by the end of its loop or by its abort: dropping the service drops the
  receiver with the messages in it, the senders of the waiting requests, and the handles of the
  mapping and probing tasks, which cancels these.
\<close>

definition service_drop :: "'g system \<Rightarrow> 'g system" where
  "service_drop sys = sys
     \<lparr>sys_open := False, sys_queue := [],
      sys_dropped := sys_dropped sys @ queued sys @ waiting (sys_service sys),
      sys_service := (sys_service sys)\<lparr>sv_mapping_task := None, sv_probing_task := None\<rparr>\<rparr>"

text \<open>
  The clients share the handle of the task (\<^verbatim>\<open>AbortOnDropHandle\<close>): when the last one is dropped
  (\<open>drop_clients\<close>) the task is cancelled the next time it yields (\<open>abort\<close>); a poll of it that is
  under way on another thread may finish iterations before, and may find the channel closed
  (\<open>stop\<close>).
\<close>

inductive sys_step :: "'g system \<Rightarrow> 'g system \<Rightarrow> bool" where
  probe: "sys_clients sys \<Longrightarrow> sys_step sys (client_probe sys)"
| procure: "sys_clients sys \<Longrightarrow> sys_step sys (client_procure_mapping sys)"
| update_port: "sys_clients sys \<Longrightarrow> sys_step sys (client_update_local_port port sys)"
| deactivate: "sys_clients sys \<Longrightarrow> sys_step sys (client_deactivate sys)"
| message: "sys_open sys \<Longrightarrow> sys_queue sys = msg # queue \<Longrightarrow>
    service_iteration now hr (TickMsg msg) (sys\<lparr>sys_queue := queue\<rparr>) = Some sys' \<Longrightarrow> sys_step sys sys'"
| ready: "sys_open sys \<Longrightarrow> (\<And>msg. tick \<noteq> TickMsg msg) \<Longrightarrow> tick_possible (sys_service sys) tick \<Longrightarrow>
    service_iteration now hr tick sys = Some sys' \<Longrightarrow> sys_step sys sys'"
| drop_clients: "sys_clients sys \<Longrightarrow> sys_step sys (sys\<lparr>sys_clients := False\<rparr>)"
| abort: "\<not> sys_clients sys \<Longrightarrow> sys_open sys \<Longrightarrow> sys_step sys (service_drop sys)"
| stop: "\<not> sys_clients sys \<Longrightarrow> sys_open sys \<Longrightarrow> sys_queue sys = [] \<Longrightarrow> sys_step sys (service_drop sys)"

inductive sys_reachable :: "config \<Rightarrow> 'g system \<Rightarrow> bool" for cfg where
  start: "sys_reachable cfg (client_new cfg now)"
| continue: "sys_reachable cfg sys \<Longrightarrow> sys_step sys sys' \<Longrightarrow> sys_reachable cfg sys'"

section \<open>Facts\<close>

definition answered :: "'g system \<Rightarrow> request list" where
  "answered sys = map fst (sys_answers sys)"

definition replies :: "'g effect list \<Rightarrow> request list" where
  "replies effects = concat (map (\<lambda>e. case e of Reply tx r \<Rightarrow> [tx] | Release m \<Rightarrow> []) effects)"

lemma replies_simps [simp]:
  "replies [] = []" "replies (Reply tx r # es) = tx # replies es" "replies (Release m # es) = replies es"
  by (simp_all add: replies_def)

lemma replies_map_Reply [simp]: "replies (map (\<lambda>tx. Reply tx r) rs) = rs"
  by (induction rs) simp_all

lemma fold_apply_effect:
  "answered (fold apply_effect effects sys) = answered sys @ replies effects
   \<and> sys_service (fold apply_effect effects sys) = sys_service sys
   \<and> sys_queue (fold apply_effect effects sys) = sys_queue sys
   \<and> sys_requests (fold apply_effect effects sys) = sys_requests sys
   \<and> sys_open (fold apply_effect effects sys) = sys_open sys
   \<and> sys_clients (fold apply_effect effects sys) = sys_clients sys
   \<and> sys_dropped (fold apply_effect effects sys) = sys_dropped sys"
proof (induction effects arbitrary: sys)
  case (Cons e es)
  show ?case using Cons [of "apply_effect e sys"] by (cases e) (simp_all add: answered_def)
qed simp

lemma get_mapping_waiting [simp]: "waiting (get_mapping now hr ext sv) = waiting sv"
  by (cases now hr ext sv rule: get_mapping_cases) (simp_all add: waiting_def)

lemma update_local_port_waiting:
  assumes "update_local_port now hr port sv = (sv', effects)"
  shows "waiting sv' = waiting sv \<and> replies effects = []"
proof (cases rule: update_local_port_cases [where port = port and sv = sv and now = now and hr = hr])
  case (moved m sv2)
  have "waiting sv2 = waiting sv"
    using sv_update_mapping_fields(8) [OF moved(3)] by (simp add: waiting_def)
  then show ?thesis using moved(4) assms by auto
next
  case fresh
  have "waiting (port_changed port sv) = waiting sv" by (simp add: waiting_def)
  then show ?thesis using fresh(3) assms by auto
qed (use assms in auto)

text \<open>Every handler moves requests from the message to the waiting ones or answers them.\<close>

lemma handle_msg_requests:
  assumes "handle_msg now hr msg sv = (sv', effects)"
  shows "mset (waiting sv') + mset (replies effects) = mset (waiting sv) + mset (message_requests msg)"
proof (cases msg)
  case (ProbeRequest tx)
  then have pr: "probe_request now hr tx sv = (sv', effects)" using assms by (simp add: handle_msg_def)
  show ?thesis
    by (cases rule: probe_request_cases [where sv = sv and now = now and hr = hr and tx = tx])
      (use pr in \<open>auto simp: waiting_def ProbeRequest\<close>)
qed (use assms in \<open>auto simp: handle_msg_def dest: update_local_port_waiting\<close>)

lemma on_mapping_result_waiting: "waiting (on_mapping_result now r sv) = waiting sv"
proof (cases "\<exists>m. r = Some (Ok m)")
  case True
  then obtain m where r: "r = Some (Ok m)" by blast
  obtain old sv' where upd: "sv_update_mapping now (Some m) sv = (old, sv')" by force
  from sv_update_mapping_fields(8) [OF this] show ?thesis
    by (simp add: on_mapping_result_def r upd waiting_def)
next
  case False
  then show ?thesis
    by (cases r; cases "the r") (simp_all add: on_mapping_result_def waiting_def)
qed

lemma on_probe_result_requests:
  assumes "on_probe_result now r rs sv = (sv', effects)"
  shows "waiting sv' = waiting sv" and "replies effects = rs"
  using assms by (auto simp: on_probe_result_def waiting_def split: res.splits prod.splits)

lemma run_tick_requests:
  assumes "run_tick now hr tick sv = Some (sv', effects)"
  shows "mset (waiting sv') + mset (replies effects) =
    mset (waiting sv) + (case tick of TickMsg msg \<Rightarrow> mset (message_requests msg) | _ \<Rightarrow> {#})"
proof (cases tick)
  case (TickMsg msg)
  then show ?thesis using assms handle_msg_requests by (auto simp: run_tick_def)
next
  case (TickMapping r)
  then show ?thesis using assms
    by (auto simp: run_tick_def on_mapping_result_waiting split: option.splits) (simp add: waiting_def)
next
  case (TickProbe r)
  then obtain t rs where "sv_probing_task sv = Some (t, rs)"
    "on_probe_result now r rs (sv\<lparr>sv_probing_task := None\<rparr>) = (sv', effects)"
    using assms by (auto simp: run_tick_def split: option.splits)
  then show ?thesis
    using on_probe_result_requests [of now r rs "sv\<lparr>sv_probing_task := None\<rparr>" sv' effects] TickProbe
    by (simp add: waiting_def)
next
  case TickEvent
  then show ?thesis using assms
    by (auto simp: run_tick_def Let_def split: option.splits prod.splits event.splits) (simp_all add: waiting_def)
qed

text \<open>The accounting of the requests.\<close>

lemma requests_Suc: "mset_set {0..<Suc n} = add_mset n (mset_set {0..<n})"
  by (simp add: atLeast0_lessThan_Suc)

definition request_inv :: "'g system \<Rightarrow> bool" where
  "request_inv sys \<longleftrightarrow> length (sys_queue sys) \<le> service_channel_capacity
     \<and> mset (queued sys) + mset (waiting (sys_service sys)) + mset (answered sys) + mset (sys_dropped sys)
         = mset [0..<sys_requests sys]
     \<and> (sys_clients sys \<longrightarrow> sys_open sys \<and> sys_dropped sys = [])
     \<and> (\<not> sys_open sys \<longrightarrow> queued sys = [] \<and> waiting (sys_service sys) = [])"

lemma send_or_drop_inv:
  assumes "request_inv sys" and "message_requests msg = []"
  shows "request_inv (send_or_drop msg sys)"
  using assms by (auto simp: send_or_drop_def try_send_def request_inv_def queued_def answered_def)

lemma client_probe_inv:
  assumes "request_inv sys"
  shows "request_inv (client_probe sys)"
  using assms
  by (auto simp: client_probe_def try_send_def request_inv_def queued_def answered_def requests_Suc
      Let_def split: try_send_error.splits)

lemma service_drop_inv: "request_inv sys \<Longrightarrow> \<not> sys_clients sys \<Longrightarrow> request_inv (service_drop sys)"
  by (simp add: request_inv_def service_drop_def queued_def answered_def waiting_def ac_simps)

lemma service_iteration_inv:
  assumes "service_iteration now hr tick sys = Some sys'"
    and "length (sys_queue sys) \<le> service_channel_capacity"
    and "mset (queued sys) + (mset (waiting (sys_service sys))
           + (case tick of TickMsg msg \<Rightarrow> mset (message_requests msg) | _ \<Rightarrow> {#})) + mset (answered sys)
           + mset (sys_dropped sys) = mset [0..<sys_requests sys]"
    and "sys_open sys" and "sys_clients sys \<longrightarrow> sys_dropped sys = []"
  shows "request_inv sys'"
proof -
  obtain sv effects where tick: "run_tick now hr tick (sys_service sys) = Some (sv, effects)"
    and sys': "sys' = fold apply_effect effects (sys\<lparr>sys_service := sv\<rparr>)"
    using assms(1) by (auto simp: service_iteration_def split: option.splits)
  have "answered sys' = answered sys @ replies effects" "sys_service sys' = sv" "queued sys' = queued sys"
    "sys_requests sys' = sys_requests sys" "sys_queue sys' = sys_queue sys" "sys_open sys' = sys_open sys"
    "sys_clients sys' = sys_clients sys" "sys_dropped sys' = sys_dropped sys"
    using fold_apply_effect [of effects "sys\<lparr>sys_service := sv\<rparr>"]
    by (simp_all add: sys' queued_def answered_def)
  with assms(2-5) run_tick_requests [OF tick] show ?thesis
    by (simp add: request_inv_def ac_simps)
qed

lemma sys_step_inv:
  assumes "sys_step sys sys'" and "request_inv sys"
  shows "request_inv sys'"
  using assms
proof cases
  case (message msg queue now hr)
  have "length queue \<le> service_channel_capacity" using assms(2) message(2) by (simp add: request_inv_def)
  moreover have "mset (queued (sys\<lparr>sys_queue := queue\<rparr>)) + (mset (waiting (sys_service sys))
      + mset (message_requests msg)) + mset (answered (sys\<lparr>sys_queue := queue\<rparr>)) + mset (sys_dropped sys)
      = mset [0..<sys_requests sys]"
    using assms(2) message(2) by (simp add: request_inv_def queued_def answered_def ac_simps)
  moreover have "sys_clients sys \<longrightarrow> sys_dropped sys = []" using assms(2) by (simp add: request_inv_def)
  ultimately show ?thesis using service_iteration_inv [OF message(3)] message(1) by simp
next
  case (ready tick now hr)
  have "(case tick of TickMsg msg \<Rightarrow> mset (message_requests msg) | _ \<Rightarrow> {#}) = {#}"
    using ready(2) by (cases tick) auto
  then show ?thesis using service_iteration_inv [OF ready(4)] assms(2) ready(1) by (simp add: request_inv_def)
next
  case drop_clients
  then have "sys_dropped sys = []" using assms(2) by (simp add: request_inv_def)
  then show ?thesis using assms(2) drop_clients by (simp add: request_inv_def queued_def answered_def)
qed (use assms(2) in \<open>simp_all add: client_probe_inv client_procure_mapping_def client_update_local_port_def
    client_deactivate_def send_or_drop_inv service_drop_inv\<close>)

lemma sys_reachable_inv: "sys_reachable cfg sys \<Longrightarrow> request_inv sys"
proof (induction rule: sys_reachable.induct)
  case (start now)
  show ?case
    by (simp add: request_inv_def client_new_def queued_def answered_def waiting_def service_new_def Let_def)
qed (rule sys_step_inv)

section \<open>Properties\<close>

text \<open>C2: every probe request is accounted for, and answered at most once: in every reachable state of
  clients and service, each request made so far is exactly one of in the channel, waiting for the
  running probe, answered, or dropped without an answer, and it is in there once. Requests are
  dropped only after the last client is gone, which aborts the service; once the service has ended
  no request is left in the channel or waiting. And the channel never holds more than 32 messages.\<close>

theorem probe_requests_accounted:
  assumes "sys_reachable cfg sys"
  shows "distinct (queued sys @ waiting (sys_service sys) @ answered sys @ sys_dropped sys)
    \<and> set (queued sys) \<union> set (waiting (sys_service sys)) \<union> set (answered sys) \<union> set (sys_dropped sys)
        = {0..<sys_requests sys}
    \<and> (sys_clients sys \<longrightarrow> sys_open sys \<and> sys_dropped sys = [])
    \<and> (\<not> sys_open sys \<longrightarrow> queued sys = [] \<and> waiting (sys_service sys) = [])
    \<and> length (sys_queue sys) \<le> 32"
proof -
  have inv: "request_inv sys" using assms by (rule sys_reachable_inv)
  then have m: "mset (queued sys @ waiting (sys_service sys) @ answered sys @ sys_dropped sys)
      = mset [0..<sys_requests sys]"
    by (simp add: request_inv_def ac_simps)
  have "distinct (queued sys @ waiting (sys_service sys) @ answered sys @ sys_dropped sys)"
    using mset_eq_imp_distinct_iff [OF m] by simp
  moreover have "set (queued sys @ waiting (sys_service sys) @ answered sys @ sys_dropped sys)
      = {0..<sys_requests sys}"
    using mset_eq_setD [OF m] by simp
  ultimately show ?thesis using inv
    by (simp add: request_inv_def service_channel_capacity_def Un_assoc)
qed

theorem probe_requests_accounted_witness:
  "\<exists>sys :: nat system. sys_reachable config_default sys \<and> sys_requests sys = 2 \<and> sys_dropped sys = [0, 1]
     \<and> distinct (queued sys @ waiting (sys_service sys) @ answered sys @ sys_dropped sys)"
proof -
  let ?init = "client_new config_default 0 :: nat system"
  let ?s = "client_probe (client_probe ?init)"
  let ?gone = "service_drop (?s\<lparr>sys_clients := False\<rparr>)"
  have clients: "sys_clients (client_probe s) = sys_clients s" for s :: "nat system"
    by (simp add: client_probe_def try_send_def Let_def)
  have alive: "sys_clients ?s" by (simp only: clients, simp add: client_new_def)
  have "sys_step ?init (client_probe ?init)"
    by (rule sys_step.probe) (simp add: client_new_def)
  moreover have "sys_step (client_probe ?init) ?s"
    by (rule sys_step.probe) (simp only: clients, simp add: client_new_def)
  moreover have "sys_step ?s (?s\<lparr>sys_clients := False\<rparr>)" using alive by (rule sys_step.drop_clients)
  moreover have "sys_step (?s\<lparr>sys_clients := False\<rparr>) ?gone"
    by (rule sys_step.abort)
      (simp_all add: client_new_def client_probe_def try_send_def service_channel_capacity_def Let_def)
  ultimately have reach: "sys_reachable config_default ?gone"
    using sys_reachable.start sys_reachable.continue by blast
  have "sys_requests ?gone = 2" "sys_dropped ?gone = [0, 1]"
    by (simp_all add: client_new_def client_probe_def try_send_def queued_def service_drop_def waiting_def
        service_new_def service_channel_capacity_def Let_def)
  with probe_requests_accounted [OF reach] reach show ?thesis by blast
qed

text \<open>C20: when the running probe ends, whichever way, every request waiting for it is answered in that
  iteration, all with the same result: the availability after merging the probe, or the error.\<close>

theorem probe_result_answers:
  assumes "sv_probing_task (sys_service sys) = Some (t, rs)"
    and "service_iteration now hr (TickProbe r) sys = Some sys'"
  shows "sys_answers sys' = sys_answers sys @ map (\<lambda>tx. (tx, case r of
        Ok p \<Rightarrow> Ok (probe_output_of now (fst (probe_update (sv_full_probe (sys_service sys)) p
                  (sv_metrics (sys_service sys)))))
      | Err e \<Rightarrow> Err e | Panic \<Rightarrow> Panic)) rs
    \<and> waiting (sys_service sys') = []"
proof -
  let ?sv = "(sys_service sys)\<lparr>sv_probing_task := None\<rparr>"
  obtain sv effects where on: "on_probe_result now r rs ?sv = (sv, effects)" by force
  then have sys': "sys' = fold apply_effect effects (sys\<lparr>sys_service := sv\<rparr>)"
    using assms by (simp add: service_iteration_def run_tick_def)
  have answers: "sys_answers (fold apply_effect (map (\<lambda>tx. Reply tx x) rs) s) =
      sys_answers s @ map (\<lambda>tx. (tx, x)) rs" for x and s :: "'a system"
    by (induction rs arbitrary: s) simp_all
  have "waiting (sys_service sys') = []"
    using fold_apply_effect [of effects "sys\<lparr>sys_service := sv\<rparr>"] on_probe_result_requests(1) [OF on]
    by (simp add: sys' waiting_def)
  then show ?thesis
    using on by (cases r) (auto simp: sys' on_probe_result_def answers split: prod.splits)
qed

theorem probe_result_answers_witness:
  "\<exists>sys sys' :: nat system. sv_probing_task (sys_service sys) \<noteq> None
     \<and> service_iteration 1 None (TickProbe (Err (ProbeJoin True False))) sys = Some sys'
     \<and> sys_answers sys' = [(4, Err (ProbeJoin True False)), (5, Err (ProbeJoin True False))]"
proof -
  let ?t = "\<lparr>pt_config = config_default, pt_output = \<lparr>po_upnp = False, po_pcp = False, po_nat_pmp = False\<rparr>,
    pt_local_ip = Ipv4 10 0 0 2, pt_gateway = Ipv4 10 0 0 1\<rparr>"
  let ?sys = "(client_new config_default 0 :: nat system)
    \<lparr>sys_service := (service_new config_default 0 metrics_default)\<lparr>sv_probing_task := Some (?t, [4, 5])\<rparr>\<rparr>"
  have task: "sv_probing_task (sys_service ?sys) = Some (?t, [4, 5])" by simp
  obtain sys' where it: "service_iteration 1 None (TickProbe (Err (ProbeJoin True False))) ?sys = Some sys'"
    by (simp add: service_iteration_def run_tick_def on_probe_result_def)
  from probe_result_answers [OF task it] have
    "sys_answers sys' = [(4, Err (ProbeJoin True False)), (5, Err (ProbeJoin True False))]"
    by (simp add: client_new_def)
  with it task show ?thesis by blast
qed

end
