(* ===== verification/Netdev.thy ===== *)
theory Netdev
  imports Interfaces "HOL-Library.Multiset"
begin

unbundle bit_operations_syntax

text \<open>
  Enumeration of the interfaces and the local addresses, and the home router,
  \<^verbatim>\<open>netwatch/src/interfaces/netdev_impl.rs\<close>. What the \<^verbatim>\<open>netdev\<close> crate returns is an argument:
  the list of raw interfaces, the default gateway and the local address.
\<close>

section \<open>What netdev returns\<close>

record netdev_interface =
  nd_name :: string
  nd_index :: u32
  nd_flags :: u32
  nd_mac_addr :: "bytes option"
  nd_ipv4 :: "ipv4_net list"
  nd_ipv6 :: "ipv6_net list"
  nd_ipv6_scope_ids :: "u32 list"
  nd_ipv6_addr_flags :: "ipv6_addr_flags list"

record netdev_gateway =
  gw_ipv4 :: "ipv4 list"
  gw_ipv6 :: "ipv6 list"

section \<open>netdev\_impl.rs\<close>

definition netdev_iff_up :: u32 where "netdev_iff_up = 0x1"
definition netdev_iff_loopback :: u32 where "netdev_iff_loopback = 0x8"

definition to_ipv6_addr_flags :: "ipv6_addr_flags \<Rightarrow> ipv6_addr_flags" where
  "to_ipv6_addr_flags flags =
     \<lparr>deprecated = deprecated flags, temporary = temporary flags, tentative = tentative flags,
      duplicated = duplicated flags, permanent = permanent flags\<rparr>"

text \<open>The arrays of the IPv6 addresses, scopes and flags are zipped; their lengths are asserted equal in
  debug builds only, and this is the release build.\<close>

definition to_interface :: "netdev_interface \<Rightarrow> net_interface" where
  "to_interface iface =
     (let v4 = map NetV4 (nd_ipv4 iface);
          v6 = map (\<lambda>((net, scope_id), flags). NetV6 net scope_id (to_ipv6_addr_flags flags))
                 (zip (zip (nd_ipv6 iface) (nd_ipv6_scope_ids iface)) (nd_ipv6_addr_flags iface));
          v4 = sort_key ip_net_addr v4;
          v6 = sort_key ip_net_addr v6
      in \<lparr>if_name = nd_name iface, if_index = nd_index iface, if_flags = nd_flags iface,
          if_mac_addr = nd_mac_addr iface, if_addrs = v4 @ v6\<rparr>)"

definition is_usable_v4 :: "ip_addr \<Rightarrow> bool" where
  "is_usable_v4 ip \<longleftrightarrow> (if \<not> is_ipv4 ip \<or> is_loopback ip then False else True)"

primrec is_usable_v6 :: "ip_addr \<Rightarrow> bool" where
  "is_usable_v6 (V6 ip) \<longleftrightarrow>
     (let mask = 0xe000; base = 0x2000 :: u16; segment1 = segments ip ! 0
      in if and base mask = and segment1 mask then True else is_private_v6 ip)"
| "is_usable_v6 (V4 ip) \<longleftrightarrow> False"

definition netdev_is_up :: "netdev_interface \<Rightarrow> bool" where
  "netdev_is_up i \<longleftrightarrow> and (nd_flags i) netdev_iff_up \<noteq> 0"

definition netdev_is_loopback :: "netdev_interface \<Rightarrow> bool" where
  "netdev_is_loopback i \<longleftrightarrow> and (nd_flags i) netdev_iff_loopback \<noteq> 0"

text \<open>The five lists the collection loop fills.\<close>

record addr_lists =
  al_loopback :: "ip_addr list"
  al_regular4 :: "ip_addr list"
  al_regular6 :: "ip_addr list"
  al_linklocal4 :: "ip_addr list"
  al_ula6 :: "ip_addr list"

definition collect_addr :: "bool \<Rightarrow> ip_addr \<Rightarrow> addr_lists \<Rightarrow> addr_lists" where
  "collect_addr ifc_is_loopback addr a =
     (let ip = to_canonical addr in
      if is_loopback ip \<or> ifc_is_loopback then a\<lparr>al_loopback := al_loopback a @ [ip]\<rparr>
      else if is_link_local ip then
        (if is_ipv4 ip then a\<lparr>al_linklocal4 := al_linklocal4 a @ [ip]\<rparr> else a)
      else if is_ipv6 ip \<and> is_private ip then a\<lparr>al_ula6 := al_ula6 a @ [ip]\<rparr>
      else if is_ipv4 ip then a\<lparr>al_regular4 := al_regular4 a @ [ip]\<rparr>
      else a\<lparr>al_regular6 := al_regular6 a @ [ip]\<rparr>)"

definition netdev_addrs :: "netdev_interface \<Rightarrow> ip_addr list" where
  "netdev_addrs iface = map (V4 \<circ> net_addr) (nd_ipv4 iface) @ map (V6 \<circ> net_addr) (nd_ipv6 iface)"

definition collect_interface :: "netdev_interface \<Rightarrow> addr_lists \<Rightarrow> addr_lists" where
  "collect_interface iface a =
     (if \<not> netdev_is_up iface then a
      else fold (collect_addr (netdev_is_loopback iface)) (netdev_addrs iface) a)"

definition collect_local_addresses :: "netdev_interface list \<Rightarrow> local_addresses" where
  "collect_local_addresses ifaces =
     (let a = fold collect_interface ifaces
            \<lparr>al_loopback = [], al_regular4 = [], al_regular6 = [], al_linklocal4 = [], al_ula6 = []\<rparr>;
          (regular4, regular6) =
            (if al_regular4 a = [] \<and> al_regular6 a = [] then (al_linklocal4 a, al_ula6 a)
             else (al_regular4 a, al_regular6 a))
      in \<lparr>la_loopback = sort (al_loopback a), la_regular = sort (regular4 @ regular6)\<rparr>)"

text \<open>The loop of \<^verbatim>\<open>get_state\<close> over the interfaces.\<close>

definition scan_addr :: "ip_net \<Rightarrow> bool \<times> bool \<Rightarrow> bool \<times> bool" where
  "scan_addr pfx = (\<lambda>(have_v6, have_v4).
     let addr = ip_net_addr pfx in
     if is_loopback addr then (have_v6, have_v4)
     else (have_v6 \<or> is_usable_v6 addr, have_v4 \<or> is_usable_v4 addr))"

definition scan_interface ::
  "netdev_interface \<Rightarrow> net_interface hash_map \<times> bool \<times> bool \<Rightarrow> net_interface hash_map \<times> bool \<times> bool" where
  "scan_interface raw = (\<lambda>(interfaces, have).
     let iface = to_interface raw;
         have' = (if interface_is_up iface then fold scan_addr (if_addrs iface) have else have)
     in (hash_insert (if_name iface) iface interfaces, have'))"

definition get_state :: "netdev_interface list \<Rightarrow> string option \<Rightarrow> state" where
  "get_state raw default_route =
     (let (interfaces, have_v6, have_v4) = fold scan_interface raw ([], False, False)
      in \<lparr>st_interfaces = interfaces, st_local_addresses = collect_local_addresses raw,
          st_have_v6 = have_v6, st_have_v4 = have_v4, st_is_expensive = False,
          st_default_route_interface = default_route, st_last_unsuspend = None\<rparr>)"

text \<open>The gateway's first IPv4 address, or else its first IPv6 address.\<close>

definition netdev_home_router :: "netdev_gateway option \<Rightarrow> ip_addr option \<Rightarrow> home_router option" where
  "netdev_home_router default_gateway local_ip =
     (case default_gateway of
        None \<Rightarrow> None
      | Some gateway \<Rightarrow>
          (case map V4 (gw_ipv4 gateway) @ map V6 (gw_ipv6 gateway) of
             [] \<Rightarrow> None
           | gateway # _ \<Rightarrow> Some \<lparr>hr_gateway = gateway, hr_my_ip = local_ip\<rparr>))"

section \<open>Facts\<close>

text \<open>What an address of an up interface counts as.\<close>

datatype addr_class = LoopbackAddr | LinkLocal4 | LinkLocal6 | Ula6 | Regular4 | Regular6

definition classify :: "bool \<Rightarrow> ip_addr \<Rightarrow> addr_class" where
  "classify ifc_is_loopback ip =
     (if is_loopback ip \<or> ifc_is_loopback then LoopbackAddr
      else if is_link_local ip then (if is_ipv4 ip then LinkLocal4 else LinkLocal6)
      else if is_ipv4 ip then Regular4
      else if is_private ip then Ula6 else Regular6)"

text \<open>The canonical addresses of the up interfaces that fall in a class, in order.\<close>

definition addrs_of_class :: "addr_class \<Rightarrow> netdev_interface list \<Rightarrow> ip_addr list" where
  "addrs_of_class c ifaces =
     concat (map (\<lambda>i. filter (\<lambda>ip. classify (netdev_is_loopback i) ip = c)
       (map to_canonical (netdev_addrs i))) (filter netdev_is_up ifaces))"

definition lists_grow :: "(addr_class \<Rightarrow> ip_addr list) \<Rightarrow> addr_lists \<Rightarrow> addr_lists" where
  "lists_grow f a =
     \<lparr>al_loopback = al_loopback a @ f LoopbackAddr, al_regular4 = al_regular4 a @ f Regular4,
      al_regular6 = al_regular6 a @ f Regular6, al_linklocal4 = al_linklocal4 a @ f LinkLocal4,
      al_ula6 = al_ula6 a @ f Ula6\<rparr>"

lemma lists_grow_grow: "lists_grow f (lists_grow g a) = lists_grow (\<lambda>c. g c @ f c) a"
  by (simp add: lists_grow_def)

lemma lists_grow_nil: "lists_grow (\<lambda>c. []) a = a"
  by (simp add: lists_grow_def)

lemma collect_addr_grow:
  "collect_addr lo addr a =
     lists_grow (\<lambda>c. if classify lo (to_canonical addr) = c then [to_canonical addr] else []) a"
  by (auto simp: collect_addr_def lists_grow_def classify_def Let_def)

lemma collect_addrs_grow:
  "fold (collect_addr lo) addrs a =
     lists_grow (\<lambda>c. filter (\<lambda>ip. classify lo ip = c) (map to_canonical addrs)) a"
proof (induction addrs arbitrary: a)
  case (Cons addr addrs)
  then show ?case
    by (simp add: collect_addr_grow lists_grow_grow if_distrib [of "\<lambda>xs. xs @ _"] cong: if_cong)
qed (simp add: lists_grow_nil)

lemma collect_interfaces_grow:
  "fold collect_interface ifaces a = lists_grow (\<lambda>c. addrs_of_class c ifaces) a"
  by (induction ifaces arbitrary: a)
    (simp_all add: addrs_of_class_def collect_interface_def collect_addrs_grow lists_grow_grow
      lists_grow_nil)

section \<open>Properties\<close>

text \<open>the local addresses are, sorted, every loopback address, and every regular address of an
  interface that is up; only when there is no regular address at all do the IPv4 link-local and the
  unique local IPv6 addresses take their place. IPv6 link-local addresses are never reported.\<close>

theorem collect_local_addresses_spec:
  "la_loopback (collect_local_addresses ifaces) = sort (addrs_of_class LoopbackAddr ifaces)
   \<and> la_regular (collect_local_addresses ifaces) =
       (if addrs_of_class Regular4 ifaces = [] \<and> addrs_of_class Regular6 ifaces = []
        then sort (addrs_of_class LinkLocal4 ifaces @ addrs_of_class Ula6 ifaces)
        else sort (addrs_of_class Regular4 ifaces @ addrs_of_class Regular6 ifaces))"
  by (simp add: collect_local_addresses_def collect_interfaces_grow lists_grow_def Let_def)


text \<open>The IPv6 entries of an interface: its three parallel arrays, zipped.\<close>

definition ipv6_entries :: "netdev_interface \<Rightarrow> ((ipv6_net \<times> u32) \<times> ipv6_addr_flags) list" where
  "ipv6_entries i = zip (zip (nd_ipv6 i) (nd_ipv6_scope_ids i)) (nd_ipv6_addr_flags i)"

abbreviation entry_net :: "(ipv6_net \<times> u32) \<times> ipv6_addr_flags \<Rightarrow> ip_net" where
  "entry_net \<equiv> \<lambda>((net, scope_id), flags). NetV6 net scope_id flags"

lemma to_ipv6_addr_flags_id [simp]: "to_ipv6_addr_flags flags = flags"
  by (simp add: to_ipv6_addr_flags_def)

lemma to_interface_addrs:
  "if_addrs (to_interface i) =
     sort_key ip_net_addr (map NetV4 (nd_ipv4 i)) @ sort_key ip_net_addr (map entry_net (ipv6_entries i))"
  by (simp add: to_interface_def ipv6_entries_def Let_def cong: map_cong)

lemma V4_less_V6: "V4 a < V6 b"
  by (simp add: less_ip_addr_def)

lemma sort_key_mset_eq:
  assumes "mset xs = mset ys" and "inj_on f (set xs)"
  shows "sort_key f xs = sort_key f ys"
  using assms by (intro sort_key_inj_key_eq) simp_all

text \<open>the addresses of a converted interface are exactly the IPv4 addresses and the zipped IPv6
  entries, sorted by address with the IPv4 ones first.\<close>

theorem to_interface_sorted:
  "sorted (map ip_net_addr (if_addrs (to_interface i)))
   \<and> mset (if_addrs (to_interface i)) = mset (map NetV4 (nd_ipv4 i)) + mset (map entry_net (ipv6_entries i))"
proof -
  have "\<forall>x\<in>set (map NetV4 (nd_ipv4 i)). \<forall>y\<in>set (map entry_net (ipv6_entries i)).
      ip_net_addr x \<le> ip_net_addr y"
    by (auto intro!: less_imp_le V4_less_V6)
  then show ?thesis by (simp add: to_interface_addrs sorted_append)
qed

text \<open>two snapshots of an interface that list the same addresses in different orders convert to
  the same interface, provided no address occurs twice.\<close>

theorem to_interface_stable:
  assumes same: "nd_name a = nd_name b" "nd_index a = nd_index b" "nd_flags a = nd_flags b"
      "nd_mac_addr a = nd_mac_addr b"
    and addrs: "mset (nd_ipv4 a) = mset (nd_ipv4 b)" "mset (ipv6_entries a) = mset (ipv6_entries b)"
    and unique: "inj_on net_addr (set (nd_ipv4 a))" "inj_on (net_addr \<circ> fst \<circ> fst) (set (ipv6_entries a))"
  shows "to_interface a = to_interface b"
proof -
  have "inj_on ip_net_addr (set (map NetV4 (nd_ipv4 a)))"
    using unique(1) by (auto simp: inj_on_def)
  then have "sort_key ip_net_addr (map NetV4 (nd_ipv4 a)) = sort_key ip_net_addr (map NetV4 (nd_ipv4 b))"
    using addrs(1) by (intro sort_key_mset_eq) simp_all
  moreover have "inj_on ip_net_addr (set (map entry_net (ipv6_entries a)))"
    using unique(2) by (fastforce simp: inj_on_def)
  then have "sort_key ip_net_addr (map entry_net (ipv6_entries a)) =
      sort_key ip_net_addr (map entry_net (ipv6_entries b))"
    using addrs(2) by (intro sort_key_mset_eq) simp_all
  ultimately have "if_addrs (to_interface a) = if_addrs (to_interface b)"
    by (simp add: to_interface_addrs)
  then show ?thesis using same by (simp add: to_interface_def Let_def)
qed

definition sample_netdev :: "ipv4_net list \<Rightarrow> netdev_interface" where
  "sample_netdev nets =
     \<lparr>nd_name = ''eth0'', nd_index = 2, nd_flags = 0x1043, nd_mac_addr = None, nd_ipv4 = nets,
      nd_ipv6 = [], nd_ipv6_scope_ids = [], nd_ipv6_addr_flags = []\<rparr>"

definition sample_net4 :: "ipv4 \<Rightarrow> ipv4_net" where
  "sample_net4 ip = \<lparr>net_addr = ip, net_prefix_len = 24, net_netmask = Ipv4 255 255 255 0\<rparr>"

theorem to_interface_stable_witness:
  "to_interface (sample_netdev [sample_net4 (Ipv4 10 0 0 2), sample_net4 (Ipv4 10 0 0 1)])
     = to_interface (sample_netdev [sample_net4 (Ipv4 10 0 0 1), sample_net4 (Ipv4 10 0 0 2)])"
  by (rule to_interface_stable)
    (auto simp: sample_netdev_def sample_net4_def ipv6_entries_def inj_on_def)

lemma fold_scan_addr:
  "fold scan_addr nets (h6, h4) =
     (h6 \<or> (\<exists>n\<in>set nets. \<not> is_loopback (ip_net_addr n) \<and> is_usable_v6 (ip_net_addr n)),
      h4 \<or> (\<exists>n\<in>set nets. \<not> is_loopback (ip_net_addr n) \<and> is_usable_v4 (ip_net_addr n)))"
  by (induction nets arbitrary: h6 h4) (auto simp: scan_addr_def Let_def)

text \<open>What the scan of the interfaces gives: the interfaces by name, and the two summary flags.\<close>

definition has_addr :: "(ip_addr \<Rightarrow> bool) \<Rightarrow> netdev_interface \<Rightarrow> bool" where
  "has_addr P i \<longleftrightarrow> netdev_is_up i
     \<and> (\<exists>n\<in>set (if_addrs (to_interface i)). \<not> is_loopback (ip_net_addr n) \<and> P (ip_net_addr n))"

lemma to_interface_fields [simp]:
  "if_name (to_interface i) = nd_name i" "interface_is_up (to_interface i) = netdev_is_up i"
  by (simp_all add: to_interface_def interface_is_up_def netdev_is_up_def iff_up_def
      netdev_iff_up_def Let_def)

lemma fold_scan_interface:
  assumes "distinct (map fst m)" and "\<forall>(k, i)\<in>set m. k = if_name i"
    and "fold scan_interface raw (m, h6, h4) = (m', h6', h4')"
  shows "distinct (map fst m') \<and> (\<forall>(k, i)\<in>set m'. k = if_name i)
    \<and> h6' = (h6 \<or> (\<exists>i\<in>set raw. has_addr is_usable_v6 i))
    \<and> h4' = (h4 \<or> (\<exists>i\<in>set raw. has_addr is_usable_v4 i))
    \<and> map_of m' = map_of m ++ map_of (map (\<lambda>i. (nd_name i, to_interface i)) (rev raw))"
  using assms
proof (induction raw arbitrary: m h6 h4)
  case (Cons r raw)
  let ?m = "hash_insert (nd_name r) (to_interface r) m"
  obtain g6 g4 where g: "scan_interface r (m, h6, h4) = (?m, g6, g4)"
    "g6 = (h6 \<or> has_addr is_usable_v6 r)" "g4 = (h4 \<or> has_addr is_usable_v4 r)"
    by (auto simp: scan_interface_def fold_scan_addr has_addr_def Let_def)
  have "distinct (map fst ?m)" "\<forall>(k, i)\<in>set ?m. k = if_name i"
    using Cons.prems(1,2) by (auto simp: distinct_hash_insert) (auto simp: hash_insert_def)
  moreover have "fold scan_interface raw (?m, g6, g4) = (m', h6', h4')"
    using Cons.prems(3) g(1) by simp
  ultimately have "distinct (map fst m') \<and> (\<forall>(k, i)\<in>set m'. k = if_name i)
    \<and> h6' = (g6 \<or> (\<exists>i\<in>set raw. has_addr is_usable_v6 i))
    \<and> h4' = (g4 \<or> (\<exists>i\<in>set raw. has_addr is_usable_v4 i))
    \<and> map_of m' = map_of ?m ++ map_of (map (\<lambda>i. (nd_name i, to_interface i)) (rev raw))"
    by (rule Cons.IH)
  then show ?case using g(2,3) by (simp add: map_add_assoc [symmetric])
qed simp

lemma and_e000_2000: "s AND 0xe000 = 0x2000 \<longleftrightarrow> unat s div 8192 = 1" for s :: u16
  using and_high_mask_div [of "0xe000" 13 "0x2000" s] by (simp add: mask_eq_exp_minus_1)

lemma is_usable_v6_blocks:
  "is_usable_v6 a \<longleftrightarrow> (\<exists>ip. a = V6 ip
     \<and> (in_block6 (Ipv6 0x2000 0 0 0 0 0 0 0) 3 ip \<or> in_block6 (Ipv6 0xfc00 0 0 0 0 0 0 0) 7 ip))"
proof (cases a)
  case (V6 ip)
  obtain s b c d e f g h where ip: "ip = Ipv6 s b c d e f g h" by (cases ip)
  have "is_private_v6 ip \<longleftrightarrow> unat s div 512 = 126"
    by (simp add: is_private_v6_def ip octets6_first and_fe_fc unat_high_octet div_mult2_eq [symmetric])
  then show ?thesis
    using and_e000_2000 [of s] V6 by (simp add: ip in_block6_first Let_def eq_commute [of 0x2000])
qed simp

lemma get_state_wf: "wf_state (get_state raw route)"
  by (cases "fold scan_interface raw ([], False, False)")
    (use fold_scan_interface [of "[]" raw] in \<open>auto simp: get_state_def wf_state_def list_all_iff\<close>)

text \<open>C31: the state assembled from an enumeration is well formed; every interface is found under its
  name, the last one enumerated when a name repeats; and the two connectivity flags hold exactly when
  an interface that is up has a usable address that is not a loopback one: any IPv4 address, and an
  IPv6 address of 2000::/3 or fc00::/7. So \<open>have_v4\<close> also holds when the only IPv4 address is
  link-local (169.254.0.0/16), although the field is documented as whether the machine has \<^verbatim>\<open>some
  non-localhost, non-link-local IPv4 address\<close>.\<close>

theorem get_state_spec:
  "wf_state (get_state raw route)
   \<and> map_of (st_interfaces (get_state raw route)) =
       map_of (map (\<lambda>i. (nd_name i, to_interface i)) (rev raw))
   \<and> (st_have_v4 (get_state raw route) \<longleftrightarrow> (\<exists>i\<in>set raw. has_addr is_ipv4 i))
   \<and> (st_have_v6 (get_state raw route) \<longleftrightarrow>
        (\<exists>i\<in>set raw. has_addr (\<lambda>a. \<exists>ip. a = V6 ip \<and> (in_block6 (Ipv6 0x2000 0 0 0 0 0 0 0) 3 ip
            \<or> in_block6 (Ipv6 0xfc00 0 0 0 0 0 0 0) 7 ip)) i))"
proof -
  obtain m h6 h4 where m: "fold scan_interface raw ([], False, False) = (m, h6, h4)"
    by (metis prod_cases3)
  have v4: "has_addr is_usable_v4 i = has_addr is_ipv4 i" for i
    by (auto simp: has_addr_def is_usable_v4_def)
  have v6: "has_addr is_usable_v6 i = has_addr (\<lambda>a. \<exists>ip. a = V6 ip
      \<and> (in_block6 (Ipv6 0x2000 0 0 0 0 0 0 0) 3 ip \<or> in_block6 (Ipv6 0xfc00 0 0 0 0 0 0 0) 7 ip)) i" for i
    by (simp add: has_addr_def is_usable_v6_blocks)
  show ?thesis
    using fold_scan_interface [OF _ _ m] by (simp add: get_state_def m wf_state_def list_all_iff v4 v6)
qed

text \<open>the home router is the first IPv4 address of the default gateway if it has one, otherwise its
  first IPv6 address; whether that address is private is not checked.\<close>

theorem netdev_home_router_spec:
  "netdev_home_router gw local_ip = Some r \<longleftrightarrow>
     (\<exists>g. gw = Some g \<and> hr_my_ip r = local_ip
        \<and> (hr_gateway r = V4 (hd (gw_ipv4 g)) \<and> gw_ipv4 g \<noteq> []
           \<or> hr_gateway r = V6 (hd (gw_ipv6 g)) \<and> gw_ipv4 g = [] \<and> gw_ipv6 g \<noteq> []))"
proof (cases gw)
  case (Some g)
  then show ?thesis
    by (cases r; cases "gw_ipv4 g"; cases "gw_ipv6 g") (auto simp: netdev_home_router_def)
qed (simp add: netdev_home_router_def)

end
