(* ===== verification/Netmon_Actor.thy ===== *)
theory Netmon_Actor
  imports Netdev
begin

text \<open>
  The network monitor, \<^verbatim>\<open>netwatch/src/netmon.rs\<close> and \<^verbatim>\<open>netwatch/src/netmon/actor.rs\<close>:
  the handle, the actor's state, its select loop with the debounce timer, and the decision whether
  to publish a new state. The \<^verbatim>\<open>Watchable\<close> of the \<^verbatim>\<open>n0_watcher\<close> crate is an argument
  (\<open>watch_ops\<close>), constrained only by its documented contract \<open>watchable_ok\<close>; the two bounded
  channels carry one kind of message each and are their fill levels. A run is a trace of the
  branches the loop takes, in any order the environment allows.
\<close>

section \<open>The actor\<close>

text \<open>\<open>wo_get\<close> is \<^verbatim>\<open>Watchable::get\<close>, \<open>wo_set\<close> the effect of \<^verbatim>\<open>Watchable::set\<close>, whose
  result the actor ignores.\<close>

record 'w watch_ops =
  wo_new :: "state \<Rightarrow> 'w"
  wo_get :: "'w \<Rightarrow> state"
  wo_set :: "'w \<Rightarrow> state \<Rightarrow> 'w"

text \<open>The documented contract: a new watchable holds its initial value, and setting replaces the
  value unless it compares equal to the one held.\<close>

definition watchable_ok :: "'w watch_ops \<Rightarrow> bool" where
  "watchable_ok ops \<longleftrightarrow>
     (\<forall>v. wo_get ops (wo_new ops v) = v)
     \<and> (\<forall>w v. wo_get ops (wo_set ops w v) = (if state_eq (wo_get ops w) v then wo_get ops w else v))"

text \<open>What the operating system reports when \<^verbatim>\<open>State::new\<close> asks it.\<close>

type_synonym snapshot = "netdev_interface list \<times> string option"

definition state_new :: "snapshot \<Rightarrow> state" where
  "state_new snap = get_state (fst snap) (snd snap)"

definition poll_wall_time_interval :: "bool \<Rightarrow> duration" where
  "poll_wall_time_interval mobile = (if mobile then from_secs (60 * 60) else from_secs 15)"

definition mon_chan_capacity :: nat where "mon_chan_capacity = 16"
definition actor_chan_capacity :: nat where "actor_chan_capacity = 16"
definition debounce_time :: duration where "debounce_time = from_millis 250"

text \<open>The fill levels of the channels, and how many senders each still has.\<close>

record 'w actor =
  ac_interface_state :: 'w
  ac_wall_time :: instant
  ac_mon_queue :: nat
  ac_mon_senders :: nat
  ac_actor_queue :: nat
  ac_actor_senders :: nat

text \<open>The sender of the monitor channel is moved into the route monitor; the actor keeps a sender
  of its own channel.\<close>

definition actor_new ::
  "'w watch_ops \<Rightarrow> snapshot \<Rightarrow> instant \<Rightarrow> (unit, 'e) res \<Rightarrow> ('w actor, 'e) res" where
  "actor_new ops snap now route_monitor =
     bind_res route_monitor (\<lambda>_. Ok
       \<lparr>ac_interface_state = wo_new ops (state_new snap), ac_wall_time = now,
        ac_mon_queue = 0, ac_mon_senders = 1, ac_actor_queue = 0, ac_actor_senders = 1\<rparr>)"

definition actor_subscribe :: "'w actor \<Rightarrow> 'w actor" where
  "actor_subscribe a = a\<lparr>ac_actor_senders := Suc (ac_actor_senders a)\<rparr>"

definition handle_potential_change ::
  "'w watch_ops \<Rightarrow> snapshot \<Rightarrow> instant \<Rightarrow> bool \<Rightarrow> 'w actor \<Rightarrow> 'w actor" where
  "handle_potential_change ops snap now time_jumped a =
     (let new_state = state_new snap;
          old_state = wo_get ops (ac_interface_state a)
      in if time_jumped then
           a\<lparr>ac_interface_state :=
             wo_set ops (ac_interface_state a) (new_state\<lparr>st_last_unsuspend := Some now\<rparr>)\<rparr>
         else if state_eq old_state new_state then a
         else a\<lparr>ac_interface_state := wo_set ops (ac_interface_state a) new_state\<rparr>)"

text \<open>\<^verbatim>\<open>checked_duration_since\<close> is undefined for a later instant.\<close>

definition checked_duration_since :: "instant \<Rightarrow> instant \<Rightarrow> duration option" where
  "checked_duration_since now earlier = (if earlier \<le> now then Some (now - earlier) else None)"

definition check_wall_time_advance :: "bool \<Rightarrow> instant \<Rightarrow> 'w actor \<Rightarrow> bool \<times> 'w actor" where
  "check_wall_time_advance mobile now a =
     (let jumped = (case checked_duration_since now (ac_wall_time a) of
             Some elapsed \<Rightarrow> elapsed > poll_wall_time_interval mobile * 3 div 2
           | None \<Rightarrow> False)
      in (jumped, a\<lparr>ac_wall_time := now\<rparr>))"

section \<open>The select loop\<close>

record 'w run_state =
  rs_actor :: "'w actor"
  rs_pending_change :: bool
  rs_pending_time_jump :: bool
  rs_debounce :: instant
  rs_running :: bool

definition run_start :: "instant \<Rightarrow> 'w actor \<Rightarrow> 'w run_state" where
  "run_start now a =
     \<lparr>rs_actor = a, rs_pending_change = False, rs_pending_time_jump = False,
      rs_debounce = now + debounce_time, rs_running = True\<rparr>"

definition rs_pending :: "'w run_state \<Rightarrow> bool" where
  "rs_pending r \<longleftrightarrow> rs_pending_change r \<or> rs_pending_time_jump r"

datatype run_branch = Debounce snapshot | WallTick | MonRecv | ActorRecv

text \<open>One iteration of the loop that takes the given branch, \<open>None\<close> when that branch is not
  ready: its precondition fails, its timer has not elapsed, or its channel is empty and open.\<close>

primrec run_iteration ::
  "'w watch_ops \<Rightarrow> bool \<Rightarrow> instant \<Rightarrow> run_branch \<Rightarrow> 'w run_state \<Rightarrow> 'w run_state option" where
  "run_iteration ops mobile now (Debounce snap) r =
     (if rs_pending r \<and> rs_debounce r \<le> now
      then Some (r\<lparr>rs_actor := handle_potential_change ops snap now (rs_pending_time_jump r) (rs_actor r),
                   rs_pending_change := False, rs_pending_time_jump := False\<rparr>)
      else None)"
| "run_iteration ops mobile now WallTick r =
     (let (jumped, a) = check_wall_time_advance mobile now (rs_actor r)
      in if jumped
         then Some (r\<lparr>rs_actor := a, rs_pending_time_jump := True, rs_debounce := now + debounce_time\<rparr>)
         else Some (r\<lparr>rs_actor := a\<rparr>))"
| "run_iteration ops mobile now MonRecv r =
     (let a = rs_actor r in
      if ac_mon_queue a > 0
      then Some (r\<lparr>rs_actor := a\<lparr>ac_mon_queue := ac_mon_queue a - 1\<rparr>, rs_pending_change := True,
                   rs_debounce := now + debounce_time\<rparr>)
      else if ac_mon_senders a = 0 then Some (r\<lparr>rs_running := False\<rparr>) else None)"
| "run_iteration ops mobile now ActorRecv r =
     (let a = rs_actor r in
      if ac_actor_queue a > 0
      then Some (r\<lparr>rs_actor := a\<lparr>ac_actor_queue := ac_actor_queue a - 1\<rparr>, rs_pending_change := True,
                   rs_debounce := now + debounce_time\<rparr>)
      else if ac_actor_senders a = 0 then Some (r\<lparr>rs_running := False\<rparr>) else None)"

section \<open>The handle\<close>

datatype 'e monitor_error = ChannelClosed | Actor_error 'e

definition monitor_new ::
  "'w watch_ops \<Rightarrow> snapshot \<Rightarrow> instant \<Rightarrow> (unit, 'e) res \<Rightarrow> ('w run_state, 'e monitor_error) res" where
  "monitor_new ops snap now route_monitor =
     bind_res (map_err Actor_error (actor_new ops snap now route_monitor))
       (\<lambda>actor. Ok (run_start now (actor_subscribe actor)))"

definition monitor_interface_state :: "'w watch_ops \<Rightarrow> 'w run_state \<Rightarrow> state" where
  "monitor_interface_state ops r = wo_get ops (ac_interface_state (rs_actor r))"

text \<open>\<^verbatim>\<open>network_change\<close>: the send fails once the loop has ended and dropped the receiver, waits
  (\<open>None\<close>) while the channel is full, and queues the message otherwise.\<close>

definition monitor_network_change ::
  "'w run_state \<Rightarrow> (unit, 'e monitor_error) res option \<times> 'w run_state" where
  "monitor_network_change r =
     (let a = rs_actor r in
      if \<not> rs_running r then (Some (Err ChannelClosed), r)
      else if ac_actor_queue a < actor_chan_capacity
      then (Some (Ok ()), r\<lparr>rs_actor := a\<lparr>ac_actor_queue := Suc (ac_actor_queue a)\<rparr>\<rparr>)
      else (None, r))"

text \<open>The sender the operating system's monitor holds: \<open>None\<close> waits for capacity,
  \<open>Some False\<close> is an error because the receiver is gone.\<close>

definition mon_send :: "'w run_state \<Rightarrow> bool option \<times> 'w run_state" where
  "mon_send r =
     (let a = rs_actor r in
      if \<not> rs_running r then (Some False, r)
      else if ac_mon_queue a < mon_chan_capacity
      then (Some True, r\<lparr>rs_actor := a\<lparr>ac_mon_queue := Suc (ac_mon_queue a)\<rparr>\<rparr>)
      else (None, r))"

section \<open>Runs\<close>

text \<open>What a step of a run was: a notification was accepted by a channel, the debounce timer was
  armed by a received notification or a jump of the wall time, a potential change was handled, or
  none of these.\<close>

datatype mon_label = Accepted | Armed | Handled snapshot bool | Other

definition arms :: "bool \<Rightarrow> instant \<Rightarrow> run_branch \<Rightarrow> 'w run_state \<Rightarrow> bool" where
  "arms mobile now b r \<longleftrightarrow>
     (case b of
        Debounce _ \<Rightarrow> False
      | WallTick \<Rightarrow> fst (check_wall_time_advance mobile now (rs_actor r))
      | MonRecv \<Rightarrow> ac_mon_queue (rs_actor r) > 0
      | ActorRecv \<Rightarrow> ac_actor_queue (rs_actor r) > 0)"

definition branch_label :: "bool \<Rightarrow> instant \<Rightarrow> run_branch \<Rightarrow> 'w run_state \<Rightarrow> mon_label" where
  "branch_label mobile now b r =
     (case b of
        Debounce snap \<Rightarrow> Handled snap (rs_pending_time_jump r)
      | _ \<Rightarrow> if arms mobile now b r then Armed else Other)"

inductive mon_run ::
  "'w watch_ops \<Rightarrow> bool \<Rightarrow> (instant \<times> mon_label) list \<Rightarrow> instant \<Rightarrow> 'w run_state \<Rightarrow> bool"
  for ops :: "'w watch_ops" and mobile :: bool where
  start: "monitor_new ops snap now (Ok () :: (unit, unit) res) = Ok r \<Longrightarrow> mon_run ops mobile [] now r"
| branch: "mon_run ops mobile tr t r \<Longrightarrow> rs_running r \<Longrightarrow> t \<le> now
    \<Longrightarrow> run_iteration ops mobile now b r = Some r'
    \<Longrightarrow> mon_run ops mobile (tr @ [(now, branch_label mobile now b r)]) now r'"
| external: "mon_run ops mobile tr t r \<Longrightarrow> t \<le> now
    \<Longrightarrow> monitor_network_change r = (Some (Ok () :: (unit, unit monitor_error) res), r')
    \<Longrightarrow> mon_run ops mobile (tr @ [(now, Accepted)]) now r'"
| os_change: "mon_run ops mobile tr t r \<Longrightarrow> t \<le> now \<Longrightarrow> 0 < ac_mon_senders (rs_actor r)
    \<Longrightarrow> mon_send r = (Some True, r') \<Longrightarrow> mon_run ops mobile (tr @ [(now, Accepted)]) now r'"
| os_gone: "mon_run ops mobile tr t r \<Longrightarrow> t \<le> now
    \<Longrightarrow> mon_run ops mobile (tr @ [(now, Other)]) now
          (r\<lparr>rs_actor := (rs_actor r)\<lparr>ac_mon_senders := 0\<rparr>\<rparr>)"

section \<open>Facts\<close>

lemmas run_iteration_defs = check_wall_time_advance_def branch_label_def arms_def rs_pending_def Let_def
lemmas send_defs = monitor_network_change_def mon_send_def Let_def
lemmas start_defs = monitor_new_def actor_new_def actor_subscribe_def run_start_def

text \<open>When the running alarm was last armed, and the last handled change, according to a trace.\<close>

definition alarm_step :: "instant \<times> mon_label \<Rightarrow> instant option \<Rightarrow> instant option" where
  "alarm_step x al = (case snd x of Armed \<Rightarrow> Some (fst x) | Handled _ _ \<Rightarrow> None | _ \<Rightarrow> al)"

definition alarm :: "(instant \<times> mon_label) list \<Rightarrow> instant option" where
  "alarm tr = fold alarm_step tr None"

definition handled_step ::
  "instant \<times> mon_label \<Rightarrow> (instant \<times> snapshot) option \<Rightarrow> (instant \<times> snapshot) option" where
  "handled_step x h = (case snd x of Handled snap _ \<Rightarrow> Some (fst x, snap) | _ \<Rightarrow> h)"

definition last_handled :: "(instant \<times> mon_label) list \<Rightarrow> (instant \<times> snapshot) option" where
  "last_handled tr = fold handled_step tr None"

lemma alarm_simps [simp]: "alarm [] = None" "alarm (tr @ [x]) = alarm_step x (alarm tr)"
  by (simp_all add: alarm_def)

lemma last_handled_simps [simp]:
  "last_handled [] = None" "last_handled (tr @ [x]) = handled_step x (last_handled tr)"
  by (simp_all add: last_handled_def)

lemma alarm_Some:
  "alarm tr = Some t \<longleftrightarrow> (\<exists>pre post. tr = pre @ (t, Armed) # post
     \<and> (\<forall>x\<in>set post. snd x \<noteq> Armed \<and> (\<forall>snap j. snd x \<noteq> Handled snap j)))"
proof (induction tr rule: rev_induct)
  case (snoc x tr)
  have quiet: "(\<exists>pre post. tr @ [x] = pre @ (t, Armed) # post
        \<and> (\<forall>y\<in>set post. snd y \<noteq> Armed \<and> (\<forall>snap j. snd y \<noteq> Handled snap j)))
      \<longleftrightarrow> x = (t, Armed) \<or> (snd x \<noteq> Armed \<and> (\<forall>snap j. snd x \<noteq> Handled snap j) \<and> alarm tr = Some t)"
    (is "?L \<longleftrightarrow> ?R")
  proof
    assume ?L
    then obtain pre post where split: "tr @ [x] = pre @ (t, Armed) # post"
      and post: "\<forall>y\<in>set post. snd y \<noteq> Armed \<and> (\<forall>snap j. snd y \<noteq> Handled snap j)" by blast
    show ?R
    proof (cases post rule: rev_cases)
      case Nil
      then show ?thesis using split by simp
    next
      case (snoc ys y)
      then have "tr = pre @ (t, Armed) # ys" "y = x" using split by simp_all
      then show ?thesis using snoc.IH post snoc by auto
    qed
  next
    assume ?R
    then show ?L
    proof
      assume "x = (t, Armed)"
      then show ?L by (intro exI [of _ tr] exI [of _ "[]"]) simp
    next
      assume *: "snd x \<noteq> Armed \<and> (\<forall>snap j. snd x \<noteq> Handled snap j) \<and> alarm tr = Some t"
      then obtain pre post where "tr = pre @ (t, Armed) # post"
        "\<forall>y\<in>set post. snd y \<noteq> Armed \<and> (\<forall>snap j. snd y \<noteq> Handled snap j)"
        using snoc.IH by blast
      then show ?L using * by (intro exI [of _ pre] exI [of _ "post @ [x]"]) simp
    qed
  qed
  show ?case unfolding quiet by (cases x) (auto simp: alarm_step_def split: mon_label.splits)
qed simp

text \<open>A step of the loop arms the alarm, clears it by handling the change, or leaves it alone.\<close>

lemma run_iteration_alarm:
  assumes "run_iteration ops mobile now b r = Some r'"
  shows "case branch_label mobile now b r of
     Armed \<Rightarrow> rs_pending r' \<and> rs_debounce r' = now + debounce_time
   | Handled snap j \<Rightarrow> rs_pending r \<and> rs_debounce r \<le> now \<and> \<not> rs_pending r'
   | Accepted \<Rightarrow> False
   | Other \<Rightarrow> rs_pending r' = rs_pending r \<and> rs_debounce r' = rs_debounce r"
  using assms by (cases b) (auto simp: run_iteration_defs split: if_splits)

lemma mon_run_alarm:
  assumes "mon_run ops mobile tr t r"
  shows "alarm tr = (if rs_pending r then Some (rs_debounce r - debounce_time) else None)
    \<and> (rs_pending r \<longrightarrow> debounce_time \<le> rs_debounce r)"
  using assms
proof induction
  case (start snap now r)
  then show ?case by (auto simp: start_defs rs_pending_def)
next
  case (branch tr t r now b r')
  then show ?case using run_iteration_alarm [OF branch.hyps(4)]
    by (cases "branch_label mobile now b r") (auto simp: alarm_step_def)
qed (auto simp: send_defs alarm_step_def rs_pending_def split: if_splits)

lemma mon_run_times:
  assumes "mon_run ops mobile tr t r" and "x \<in> set tr" shows "fst x \<le> t"
  using assms by induction (auto intro: order_trans)

lemma mon_run_handled:
  assumes "mon_run ops mobile tr t r" and "tr = pre @ (now, Handled snap j) # post"
  shows "\<exists>ta. alarm pre = Some ta \<and> ta + debounce_time \<le> now"
  using assms
proof (induction arbitrary: post)
  case (branch tr t r now' b r')
  show ?case
  proof (cases post rule: rev_cases)
    case Nil
    then have eq: "tr = pre" "now' = now" "branch_label mobile now' b r = Handled snap j"
      using branch.prems by auto
    then show ?thesis
      using run_iteration_alarm [OF branch.hyps(4)] mon_run_alarm [OF branch.hyps(1)] by auto
  next
    case (snoc ys y)
    then show ?thesis using branch.IH branch.prems by simp
  qed
next
  case (external tr t r now' r')
  then show ?case by (cases post rule: rev_cases) auto
next
  case (os_change tr t r now' r')
  then show ?case by (cases post rule: rev_cases) auto
next
  case (os_gone tr t r now')
  then show ?case by (cases post rule: rev_cases) auto
qed simp

text \<open>A notification accepted by a channel waits in it, or has armed the alarm afterwards, or has been
  handled a full debounce time later.\<close>

definition settled :: "(instant \<times> mon_label) list \<Rightarrow> 'w run_state \<Rightarrow> instant \<Rightarrow> bool" where
  "settled tr r ta \<longleftrightarrow>
     0 < ac_mon_queue (rs_actor r) \<or> 0 < ac_actor_queue (rs_actor r)
     \<or> (rs_pending r \<and> ta + debounce_time \<le> rs_debounce r)
     \<or> (\<exists>th snap. last_handled tr = Some (th, snap) \<and> ta + debounce_time \<le> th)"

lemma handle_potential_change_queues [simp]:
  "ac_mon_queue (handle_potential_change ops snap now j a) = ac_mon_queue a"
  "ac_actor_queue (handle_potential_change ops snap now j a) = ac_actor_queue a"
  "ac_mon_senders (handle_potential_change ops snap now j a) = ac_mon_senders a"
  "ac_actor_senders (handle_potential_change ops snap now j a) = ac_actor_senders a"
  by (auto simp: handle_potential_change_def Let_def)

lemma last_handled_times:
  assumes "\<forall>x\<in>set tr. fst x \<le> t" and "last_handled tr = Some (th, snap)" shows "th \<le> t"
  using assms
  by (induction tr rule: rev_induct) (auto simp: handled_step_def split: mon_label.splits)

lemma run_iteration_settled:
  assumes step: "run_iteration ops mobile now b r = Some r'" and "t \<le> now" and "ta \<le> now"
    and "\<forall>x\<in>set tr. fst x \<le> t" and "settled tr r ta"
  shows "settled (tr @ [(now, branch_label mobile now b r)]) r' ta"
proof (cases b)
  case (Debounce snap)
  then have r: "rs_pending r" "rs_debounce r \<le> now"
    and r': "rs_actor r' = handle_potential_change ops snap now (rs_pending_time_jump r) (rs_actor r)"
    using step by (auto split: if_splits)
  have "th \<le> now" if "last_handled tr = Some (th, s)" for th s
    using last_handled_times [OF assms(4) that] assms(2) by simp
  then show ?thesis using assms(5) r
    by (auto simp: settled_def r' handled_step_def branch_label_def Debounce)
next
  case WallTick
  then show ?thesis using step assms(3,5)
    by (auto simp: settled_def handled_step_def run_iteration_defs split: if_splits)
next
  case MonRecv
  then show ?thesis using step assms(3,5)
    by (auto simp: settled_def handled_step_def run_iteration_defs split: if_splits)
next
  case ActorRecv
  then show ?thesis using step assms(3,5)
    by (auto simp: settled_def handled_step_def run_iteration_defs split: if_splits)
qed

lemma mon_run_settled:
  assumes "mon_run ops mobile tr t r" and "(ta, Accepted) \<in> set tr"
  shows "settled tr r ta"
  using assms
proof induction
  case (branch tr t r now b r')
  have "(ta, Accepted) \<in> set tr"
    using branch.prems by (auto simp: branch_label_def split: run_branch.splits if_splits)
  moreover from this have "ta \<le> now" using mon_run_times [OF branch.hyps(1)] branch.hyps(3) by fastforce
  ultimately show ?case
    using mon_run_times [OF branch.hyps(1)] branch.IH
    by (intro run_iteration_settled [OF branch.hyps(4,3)]) auto
qed (auto simp: send_defs settled_def handled_step_def rs_pending_def split: if_splits)

text \<open>A state publishes a snapshot if it compares equal to it, the time of the last wake-up apart.\<close>

definition publishes :: "state \<Rightarrow> snapshot \<Rightarrow> bool" where
  "publishes s snap \<longleftrightarrow> state_eq s ((state_new snap)\<lparr>st_last_unsuspend := st_last_unsuspend s\<rparr>)"

lemma interface_eq_refl [simp]: "interface_eq i i"
  by (simp add: interface_eq_def)

lemma state_eq_refl: "wf_state s \<Longrightarrow> state_eq s s"
  by (auto simp: state_eq_def hash_eq_def wf_state_def list_all_iff)

lemma wf_state_new: "wf_state ((state_new snap)\<lparr>st_last_unsuspend := u\<rparr>)"
  using get_state_wf by (simp add: state_new_def wf_state_def)

lemma last_unsuspend_new [simp]: "st_last_unsuspend (state_new snap) = None"
  by (simp add: state_new_def get_state_def split: prod.splits)

lemma publishes_new: "publishes ((state_new snap)\<lparr>st_last_unsuspend := u\<rparr>) snap"
  using state_eq_refl [OF wf_state_new] by (simp add: publishes_def)

lemma state_eq_publishes:
  "state_eq s ((state_new snap)\<lparr>st_last_unsuspend := u\<rparr>) \<Longrightarrow> publishes s snap"
  by (simp add: publishes_def state_eq_def)

lemma handle_potential_change_publishes:
  assumes "watchable_ok ops"
  shows "publishes (wo_get ops (ac_interface_state (handle_potential_change ops snap now j a))) snap"
proof -
  have set: "publishes (wo_get ops (wo_set ops w ((state_new snap)\<lparr>st_last_unsuspend := u\<rparr>))) snap" for w u
    using assms publishes_new state_eq_publishes [of "wo_get ops w"] by (simp add: watchable_ok_def)
  have none: "(state_new snap)\<lparr>st_last_unsuspend := None\<rparr> = state_new snap"
    by (cases "state_new snap") (use last_unsuspend_new [of snap] in simp)
  show ?thesis
    using set [of _ "Some now"] set [of _ None] state_eq_publishes [where snap = snap and u = None]
    by (simp add: handle_potential_change_def Let_def none)
qed

lemma run_iteration_interface_state:
  assumes "run_iteration ops mobile now b r = Some r'" and "\<And>snap. b \<noteq> Debounce snap"
  shows "ac_interface_state (rs_actor r') = ac_interface_state (rs_actor r)"
  using assms by (cases b) (auto simp: run_iteration_defs split: if_splits)

lemma mon_run_publishes:
  assumes "mon_run ops mobile tr t r" and "watchable_ok ops" and "last_handled tr = Some (th, snap)"
  shows "publishes (monitor_interface_state ops r) snap"
  using assms
proof induction
  case (branch tr t r now b r')
  show ?case
  proof (cases "\<exists>snap'. b = Debounce snap'")
    case True
    then have b: "b = Debounce snap" using branch.prems(2) by (auto simp: handled_step_def branch_label_def)
    then have "rs_actor r' =
        handle_potential_change ops snap now (rs_pending_time_jump r) (rs_actor r)"
      using branch.hyps(4) by (auto split: if_splits)
    then show ?thesis using handle_potential_change_publishes [OF branch.prems(1)]
      by (simp add: monitor_interface_state_def)
  next
    case False
    then have b: "b \<noteq> Debounce s" for s by blast
    then have "last_handled tr = Some (th, snap)"
      using branch.prems(2)
      by (cases b) (auto simp: handled_step_def branch_label_def split: if_splits)
    then show ?thesis
      using branch.IH branch.prems(1) run_iteration_interface_state [OF branch.hyps(4) b]
      by (simp add: monitor_interface_state_def)
  qed
qed (auto simp: send_defs monitor_interface_state_def handled_step_def split: if_splits)

text \<open>The loop ends only when the operating system's monitor is gone: the actor keeps a sender of its
  own channel, so that channel never closes.\<close>

lemma mon_run_senders:
  assumes "mon_run ops mobile tr t r"
  shows "ac_actor_senders (rs_actor r) = 2 \<and> ac_mon_queue (rs_actor r) \<le> mon_chan_capacity
    \<and> ac_actor_queue (rs_actor r) \<le> actor_chan_capacity
    \<and> (rs_running r \<or> ac_mon_senders (rs_actor r) = 0)"
  using assms
proof induction
  case (branch tr t r now b r')
  then show ?case by (cases b) (auto simp: run_iteration_defs split: if_splits)
qed (auto simp: start_defs send_defs split: if_splits)

text \<open>A watchable that satisfies the contract, for the concrete instances below.\<close>

definition plain_watch :: "state watch_ops" where
  "plain_watch = \<lparr>wo_new = (\<lambda>v. v), wo_get = (\<lambda>w. w), wo_set = (\<lambda>w v. if state_eq w v then w else v)\<rparr>"

lemma plain_watch_ok: "watchable_ok plain_watch"
  by (simp add: watchable_ok_def plain_watch_def)

text \<open>A run: the interface list is empty, a change is announced after one second, received at once
  and handled 250 milliseconds later.\<close>

definition sample_start :: "state run_state" where
  "sample_start = run_start 0 (actor_subscribe
     \<lparr>ac_interface_state = state_new ([], None), ac_wall_time = 0, ac_mon_queue = 0, ac_mon_senders = 1,
      ac_actor_queue = 0, ac_actor_senders = 1\<rparr>)"

definition sample_queued :: "state run_state" where
  "sample_queued = sample_start\<lparr>rs_actor := (rs_actor sample_start)\<lparr>ac_actor_queue := 1\<rparr>\<rparr>"

definition sample_armed :: "state run_state" where
  "sample_armed = sample_start\<lparr>rs_pending_change := True, rs_debounce := from_secs 1 + debounce_time\<rparr>"

definition sample_snap :: snapshot where "sample_snap = ([], Some ''eth0'')"

definition sample_trace :: "(instant \<times> mon_label) list" where
  "sample_trace = [(from_secs 1, Accepted), (from_secs 1, Armed),
     (from_secs 1 + debounce_time, Handled sample_snap False)]"

lemmas sample_defs = sample_start_def sample_queued_def sample_armed_def

lemma sample_run:
  "\<exists>r. mon_run plain_watch False sample_trace (from_secs 1 + debounce_time) r
     \<and> \<not> rs_pending r \<and> ac_mon_queue (rs_actor r) = 0 \<and> ac_actor_queue (rs_actor r) = 0"
proof -
  have "mon_run plain_watch False [] 0 sample_start"
    by (rule start [where snap = "([], None)"])
      (simp add: start_defs sample_start_def plain_watch_def)
  then have "mon_run plain_watch False ([] @ [(from_secs 1, Accepted)]) (from_secs 1) sample_queued"
    by (rule external) (simp_all add: send_defs sample_defs run_start_def actor_subscribe_def
        actor_chan_capacity_def)
  then have "mon_run plain_watch False
      (([] @ [(from_secs 1, Accepted)]) @ [(from_secs 1, branch_label False (from_secs 1) ActorRecv sample_queued)])
      (from_secs 1) sample_armed"
    by (rule branch) (simp_all add: sample_defs run_start_def actor_subscribe_def Let_def)
  moreover have "branch_label False (from_secs 1) ActorRecv sample_queued = Armed"
    by (simp add: sample_defs run_start_def actor_subscribe_def branch_label_def arms_def)
  ultimately have armed: "mon_run plain_watch False [(from_secs 1, Accepted), (from_secs 1, Armed)]
      (from_secs 1) sample_armed" by simp
  have step: "\<exists>r. run_iteration plain_watch False (from_secs 1 + debounce_time) (Debounce sample_snap) sample_armed
      = Some r \<and> \<not> rs_pending r \<and> ac_mon_queue (rs_actor r) = 0 \<and> ac_actor_queue (rs_actor r) = 0"
    by (simp add: sample_defs run_start_def actor_subscribe_def rs_pending_def)
  have "branch_label False (from_secs 1 + debounce_time) (Debounce sample_snap) sample_armed
      = Handled sample_snap False" and "rs_running sample_armed"
    by (simp_all add: sample_defs run_start_def actor_subscribe_def branch_label_def)
  then show ?thesis
    using step branch [OF armed, of "from_secs 1 + debounce_time" "Debounce sample_snap"]
    by (auto simp: sample_trace_def)
qed

text \<open>A system with one interface and one address, of a given prefix length.\<close>

definition prefix_snap :: "u8 \<Rightarrow> ipv4 \<Rightarrow> snapshot" where
  "prefix_snap len nm =
     ([\<lparr>nd_name = ''eth0'', nd_index = 2, nd_flags = 1, nd_mac_addr = None,
        nd_ipv4 = [\<lparr>net_addr = Ipv4 192 168 0 2, net_prefix_len = len, net_netmask = nm\<rparr>],
        nd_ipv6 = [], nd_ipv6_scope_ids = [], nd_ipv6_addr_flags = []\<rparr>], Some ''eth0'')"

section \<open>Properties\<close>

text \<open>C19: a potential change is handled only after 250 milliseconds of quiet: in every run, before
  each handled change there is the notification (or jump of the wall time) it answers, at least the
  debounce time earlier, and between the two nothing else was received or handled. A burst of
  notifications is therefore handled once, after its last one.\<close>

theorem monitor_debounce:
  assumes "mon_run ops mobile (pre @ (now, Handled snap j) # post) t r"
  shows "\<exists>pre' ta quiet. pre = pre' @ (ta, Armed) # quiet \<and> ta + from_millis 250 \<le> now
    \<and> (\<forall>x\<in>set quiet. snd x \<noteq> Armed \<and> (\<forall>snap' j'. snd x \<noteq> Handled snap' j'))"
  using mon_run_handled [OF assms refl] unfolding alarm_Some debounce_time_def by blast

theorem monitor_debounce_witness:
  "\<exists>pre' ta quiet. [(from_secs 1, Accepted), (from_secs 1, Armed)] = pre' @ (ta, Armed) # quiet
    \<and> ta + from_millis 250 \<le> from_secs 1 + debounce_time
    \<and> (\<forall>x\<in>set quiet. snd x \<noteq> Armed \<and> (\<forall>snap' j'. snd x \<noteq> Handled snap' j'))"
proof -
  obtain r where "mon_run plain_watch False sample_trace (from_secs 1 + debounce_time) r"
    using sample_run by blast
  then have "mon_run plain_watch False ([(from_secs 1, Accepted), (from_secs 1, Armed)]
      @ (from_secs 1 + debounce_time, Handled sample_snap False) # []) (from_secs 1 + debounce_time) r"
    by (simp add: sample_trace_def)
  then show ?thesis by (rule monitor_debounce)
qed

text \<open>C5: no accepted notification is lost, and the published state is fresh. Whenever the monitor is
  idle (nothing pending, both channels empty), the last handled change was handled at least the
  debounce time after every notification accepted so far, and the published state compares equal to
  what the system reported then, the time of the last wake-up apart.\<close>

theorem monitor_idle_fresh:
  assumes "watchable_ok ops" and "mon_run ops mobile tr t r" and "(ta, Accepted) \<in> set tr"
    and "\<not> rs_pending r" and "ac_mon_queue (rs_actor r) = 0" and "ac_actor_queue (rs_actor r) = 0"
  shows "\<exists>th snap. last_handled tr = Some (th, snap) \<and> ta + from_millis 250 \<le> th
    \<and> publishes (monitor_interface_state ops r) snap"
  using mon_run_settled [OF assms(2,3)] mon_run_publishes [OF assms(2,1)] assms(4-6)
  by (auto simp: settled_def debounce_time_def)

theorem monitor_idle_fresh_witness:
  "\<exists>r th snap. last_handled sample_trace = Some (th, snap) \<and> from_secs 1 + from_millis 250 \<le> th
    \<and> publishes (monitor_interface_state plain_watch r) snap"
proof -
  obtain r where r: "mon_run plain_watch False sample_trace (from_secs 1 + debounce_time) r"
      "\<not> rs_pending r" "ac_mon_queue (rs_actor r) = 0" "ac_actor_queue (rs_actor r) = 0"
    using sample_run by blast
  have "(from_secs 1, Accepted) \<in> set sample_trace" by (simp add: sample_trace_def)
  from monitor_idle_fresh [OF plain_watch_ok r(1) this r(2-4)] show ?thesis by blast
qed

text \<open>what a handled change does to the published state. Without a jump of the wall time a
  snapshot that compares equal to the published state changes nothing; any other is published as it is. With a jump the time of the wake-up is published, and
  the next change handled without a jump takes it away again although nothing else changed.\<close>

theorem handle_potential_change_effect:
  "watchable_ok ops \<Longrightarrow>
   (let get = \<lambda>a. wo_get ops (ac_interface_state a) in
     get (handle_potential_change ops snap now False a)
       = (if state_eq (get a) (state_new snap) then get a else state_new snap)
     \<and> st_last_unsuspend (get (handle_potential_change ops snap now True a)) = Some now
     \<and> get (handle_potential_change ops snap now' False (handle_potential_change ops snap now True a))
         = state_new snap
     \<and> st_last_unsuspend (state_new snap) = None)"
proof -
  assume ok: "watchable_ok ops"
  then have jump: "st_last_unsuspend
      (wo_get ops (ac_interface_state (handle_potential_change ops snap now True a))) = Some now"
    by (auto simp: handle_potential_change_def Let_def watchable_ok_def state_eq_def)
  have quiet: "wo_get ops (ac_interface_state (handle_potential_change ops snap n False b))
      = (if state_eq (wo_get ops (ac_interface_state b)) (state_new snap)
         then wo_get ops (ac_interface_state b) else state_new snap)" for n b
    using ok by (auto simp: handle_potential_change_def Let_def watchable_ok_def)
  from jump have "\<not> state_eq (wo_get ops (ac_interface_state (handle_potential_change ops snap now True a)))
      (state_new snap)"
    by (simp add: state_eq_def)
  then show ?thesis using jump quiet by (simp add: Let_def)
qed

theorem handle_potential_change_effect_witness:
  "(let get = \<lambda>a. wo_get plain_watch (ac_interface_state a); a = rs_actor sample_start in
     get (handle_potential_change plain_watch sample_snap 5 False a)
       = (if state_eq (get a) (state_new sample_snap) then get a else state_new sample_snap)
     \<and> st_last_unsuspend (get (handle_potential_change plain_watch sample_snap 5 True a)) = Some 5
     \<and> get (handle_potential_change plain_watch sample_snap 7 False
           (handle_potential_change plain_watch sample_snap 5 True a)) = state_new sample_snap
     \<and> st_last_unsuspend (state_new sample_snap) = None)"
  using handle_potential_change_effect [OF plain_watch_ok, unfolded Let_def] unfolding Let_def by blast

text \<open>C40: the monitor drops major changes: there are two snapshots of the system such that the step
  from the first to the second is a major change, and handling the second while the first is
  published leaves the published state as it was (only the prefix length of an address differs).\<close>

theorem monitor_drops_major_change:
  "\<exists>snap1 snap2. is_major_change bsd (state_new snap2) (state_new snap1)
     \<and> (\<forall>ops :: 'w watch_ops. \<forall>a now. wo_get ops (ac_interface_state a) = state_new snap1
          \<longrightarrow> handle_potential_change ops snap2 now False a = a)"
proof (intro exI conjI allI impI)
  let ?snap1 = "prefix_snap 24 (Ipv4 255 255 255 0)" and ?snap2 = "prefix_snap 16 (Ipv4 255 255 0 0)"
  have "is_interesting_interface bsd ''eth0''"
    by (simp add: is_interesting_interface_def)
  then show "is_major_change bsd (state_new ?snap2) (state_new ?snap1)"
    by (simp add: state_new_def prefix_snap_def get_state_def scan_interface_def to_interface_def
        hash_insert_def is_major_change_def prefixes_major_equal_def prefix_is_interesting_def
        ipv4_is_link_local_def ipv4_is_loopback_def ipv4_is_multicast_def scan_addr_def
        interface_is_up_def iff_up_def split: prod.splits)
  fix ops :: "'w watch_ops" and a now
  have "state_eq (state_new ?snap1) (state_new ?snap2)"
    by (simp add: state_new_def prefix_snap_def get_state_def scan_interface_def to_interface_def
        hash_insert_def state_eq_def hash_eq_def interface_eq_def collect_local_addresses_def
        collect_interface_def netdev_is_up_def netdev_is_loopback_def netdev_addrs_def scan_addr_def Let_def
        interface_is_up_def split: prod.splits)
  then show "wo_get ops (ac_interface_state a) = state_new ?snap1
      \<Longrightarrow> handle_potential_change ops ?snap2 now False a = a"
    by (simp add: handle_potential_change_def)
qed

theorem monitor_drops_major_change_witness:
  "\<exists>snap1 snap2 now. is_major_change False (state_new snap2) (state_new snap1)
     \<and> handle_potential_change plain_watch snap2 now False
         ((rs_actor sample_start)\<lparr>ac_interface_state := state_new snap1\<rparr>)
       = (rs_actor sample_start)\<lparr>ac_interface_state := state_new snap1\<rparr>"
proof -
  obtain snap1 snap2 where "is_major_change False (state_new snap2) (state_new snap1)"
    and drop: "\<forall>ops :: state watch_ops. \<forall>a now. wo_get ops (ac_interface_state a) = state_new snap1
          \<longrightarrow> handle_potential_change ops snap2 now False a = a"
    using monitor_drops_major_change [of False] by blast
  then show ?thesis by (intro exI [of _ snap1] exI [of _ snap2]) (simp add: plain_watch_def)
qed

text \<open>The bounds of the channels, and when the loop may end.\<close>

lemma monitor_stops_only_without_route_monitor:
  "mon_run ops mobile tr t r \<Longrightarrow> \<not> rs_running r \<Longrightarrow> ac_mon_senders (rs_actor r) = 0"
  using mon_run_senders by blast

end
