(* ===== verification/Netmon_Linux.thy ===== *)
theory Netmon_Linux
  imports Ip_Addr
begin

unbundle bit_operations_syntax

text \<open>
  The route monitor of Linux, \<^verbatim>\<open>netwatch/src/netmon/linux.rs\<close>: which netlink messages are
  forwarded to the monitor's actor as a change, and the reconnection loop with its backoff. A
  decoded netlink message (crates \<^verbatim>\<open>netlink_packet_core\<close> and \<^verbatim>\<open>netlink_packet_route\<close>) is the
  part of it the monitor looks at. Whether the actor still receives is an argument: \<open>up n\<close> says
  that the \<open>n\<close>-th message is accepted.
\<close>

section \<open>Messages\<close>

definition nl_mgrp :: "u32 \<Rightarrow> (u32, 'e) res" where
  "nl_mgrp g =
     (if g > 31 then Panic
      else Ok (if g = 0 then 0 else push_bit (unat (g - 1)) 1))"

text \<open>\<open>attributes\<close> in the order of the message; the values of the other attributes are not read.\<close>

datatype address_attribute = AddressAttr ip_addr | OtherAddressAttr

record address_message =
  am_index :: u32
  am_attributes :: "address_attribute list"

datatype route_address = Inet ipv4 | Inet6 ipv6 | OtherRouteAddress

datatype route_attribute = TableAttr u32 | DestinationAttr route_address | OtherRouteAttr

type_synonym route_message = "route_attribute list"

datatype route_netlink_message =
    NewAddress address_message
  | DelAddress address_message
  | NewRoute route_message
  | DelRoute route_message
  | NewRule
  | DelRule
  | NewLink
  | DelLink
  | OtherRouteNetlink

datatype netlink_payload =
    NetlinkError
  | NetlinkDone
  | InnerMessage route_netlink_message
  | OtherPayload

text \<open>The macro \<^verbatim>\<open>get_nla!\<close>: the first attribute of the wanted kind.\<close>

fun find_map :: "('a \<Rightarrow> 'b option) \<Rightarrow> 'a list \<Rightarrow> 'b option" where
  "find_map f [] = None"
| "find_map f (x # xs) = (case f x of Some y \<Rightarrow> Some y | None \<Rightarrow> find_map f xs)"

definition get_address :: "address_message \<Rightarrow> ip_addr option" where
  "get_address msg =
     find_map (\<lambda>nla. case nla of AddressAttr n \<Rightarrow> Some n | _ \<Rightarrow> None) (am_attributes msg)"

definition get_table :: "route_message \<Rightarrow> u32 option" where
  "get_table msg = find_map (\<lambda>nla. case nla of TableAttr n \<Rightarrow> Some n | _ \<Rightarrow> None) msg"

definition get_destination :: "route_message \<Rightarrow> route_address option" where
  "get_destination msg = find_map (\<lambda>nla. case nla of DestinationAttr n \<Rightarrow> Some n | _ \<Rightarrow> None) msg"

section \<open>process\_messages\<close>

type_synonym addr_cache = "u32 \<Rightarrow> ip_addr list option"

text \<open>\<^verbatim>\<open>addr_cache.entry(index).or_default()\<close>; the sets of the cache are lists without repetitions.\<close>

definition cache_entry :: "addr_cache \<Rightarrow> u32 \<Rightarrow> ip_addr list" where
  "cache_entry cache index = (case cache index of Some addrs \<Rightarrow> addrs | None \<Rightarrow> [])"

definition route_skipped :: "route_message \<Rightarrow> bool" where
  "route_skipped msg =
     (let table = (case get_table msg of Some t \<Rightarrow> t | None \<Rightarrow> 0) in
      case get_destination msg of
        Some (Inet addr) \<Rightarrow>
          (table = 255 \<or> table = 254) \<and> (ipv4_is_multicast addr \<or> is_link_local (V4 addr))
      | Some (Inet6 addr) \<Rightarrow>
          (table = 255 \<or> table = 254) \<and> (ipv6_is_multicast addr \<or> is_link_local (V6 addr))
      | _ \<Rightarrow> False)"

text \<open>One turn of the loop: the new cache, and whether a change is to be sent.\<close>

fun handle_message :: "route_netlink_message \<Rightarrow> addr_cache \<Rightarrow> addr_cache \<times> bool" where
  "handle_message (NewAddress msg) cache =
     (let addrs = cache_entry cache (am_index msg);
          cache = cache(am_index msg \<mapsto> addrs)
      in case get_address msg of
           Some addr \<Rightarrow>
             if addr \<in> set addrs then (cache, False)
             else (cache(am_index msg \<mapsto> addr # addrs), True)
         | None \<Rightarrow> (cache, False))"
| "handle_message (DelAddress msg) cache =
     (let addrs = cache_entry cache (am_index msg)
      in (cache(am_index msg \<mapsto> (case get_address msg of
             Some addr \<Rightarrow> filter (\<lambda>a. a \<noteq> addr) addrs | None \<Rightarrow> addrs)), True))"
| "handle_message (NewRoute msg) cache = (cache, \<not> route_skipped msg)"
| "handle_message (DelRoute msg) cache = (cache, \<not> route_skipped msg)"
| "handle_message NewRule cache = (cache, True)"
| "handle_message DelRule cache = (cache, True)"
| "handle_message _ cache = (cache, False)"

text \<open>The loop over the stream: whether to reconnect, and the number of changes sent so far.\<close>

fun process_loop ::
  "(nat \<Rightarrow> bool) \<Rightarrow> netlink_payload list \<Rightarrow> addr_cache \<Rightarrow> nat \<Rightarrow> bool \<times> nat" where
  "process_loop up [] cache sent = (True, sent)"
| "process_loop up (NetlinkError # messages) cache sent = process_loop up messages cache sent"
| "process_loop up (NetlinkDone # messages) cache sent = (True, sent)"
| "process_loop up (InnerMessage msg # messages) cache sent =
     (case handle_message msg cache of
        (cache', False) \<Rightarrow> process_loop up messages cache' sent
      | (cache', True) \<Rightarrow>
          if up sent then process_loop up messages cache' (Suc sent) else (False, sent))"
| "process_loop up (OtherPayload # messages) cache sent = process_loop up messages cache sent"

definition process_messages :: "(nat \<Rightarrow> bool) \<Rightarrow> netlink_payload list \<Rightarrow> nat \<Rightarrow> bool \<times> nat" where
  "process_messages up messages sent = process_loop up messages Map.empty sent"

section \<open>RouteMonitor\<close>

definition initial_backoff :: duration where "initial_backoff = from_secs 1"
definition max_backoff :: duration where "max_backoff = from_secs 30"

text \<open>The task of \<^verbatim>\<open>RouteMonitor::new\<close>. Each attempt to set up netlink fails (\<open>None\<close>) or yields the
  messages of the connection; the loop runs for the attempts given. The result is whether the task
  has ended, the changes sent, and the backoffs slept.\<close>

fun route_monitor ::
  "(nat \<Rightarrow> bool) \<Rightarrow> netlink_payload list option list \<Rightarrow> duration \<Rightarrow> nat
     \<Rightarrow> bool \<times> nat \<times> duration list" where
  "route_monitor up [] backoff sent = (False, sent, [])"
| "route_monitor up (attempt # attempts) backoff sent =
     (let (stop, sent', backoff') =
        (case attempt of
           Some messages \<Rightarrow>
             let (should_reconnect, sent') = process_messages up messages sent
             in (\<not> should_reconnect, sent', initial_backoff)
         | None \<Rightarrow> (False, sent, backoff))
      in if stop then (True, sent', [])
         else let (ended, n, slept) =
                route_monitor up attempts (min (backoff' * 2) max_backoff) sent'
              in (ended, n, backoff' # slept))"

text \<open>Opening the netlink connection: \<open>rtnlgrps\<close> are the numbers of the six groups, \<open>bind\<close> the
  result of binding to a set of groups.\<close>

primrec netlink_groups :: "u32 list \<Rightarrow> (u32, 'e) res" where
  "netlink_groups [] = Ok 0"
| "netlink_groups (g # gs) = bind_res (nl_mgrp g) (\<lambda>m. map_res (or m) (netlink_groups gs))"

definition setup_netlink :: "(unit, 'e) res \<Rightarrow> u32 list \<Rightarrow> (u32 \<Rightarrow> (unit, 'e) res) \<Rightarrow> (unit, 'e) res" where
  "setup_netlink new_connection rtnlgrps bind =
     bind_res new_connection (\<lambda>_. bind_res (netlink_groups rtnlgrps) bind)"

definition route_monitor_new ::
  "(nat \<Rightarrow> bool) \<Rightarrow> netlink_payload list option list \<Rightarrow> bool \<times> nat \<times> duration list" where
  "route_monitor_new up attempts = route_monitor up attempts initial_backoff 0"

section \<open>Facts\<close>

lemma nl_mgrp_bit: "0 < g \<Longrightarrow> g \<le> 31 \<Longrightarrow> nl_mgrp g = Ok (push_bit (unat (g - 1)) 1)"
  by (auto simp: nl_mgrp_def)

text \<open>The socket listens to exactly the groups given, each of which has a bit of its own.\<close>

lemma netlink_groups_bit:
  assumes "\<forall>g\<in>set gs. 0 < g \<and> g \<le> 31"
  shows "\<exists>w. (netlink_groups gs :: (u32, 'e) res) = Ok w \<and> (\<forall>i. bit w i \<longleftrightarrow> (\<exists>g\<in>set gs. i = unat (g - 1)))"
  using assms
proof (induction gs)
  case (Cons g gs)
  then obtain w where w: "(netlink_groups gs :: (u32, 'e) res) = Ok w" "\<forall>i. bit w i \<longleftrightarrow> (\<exists>g\<in>set gs. i = unat (g - 1))"
    by auto
  have g: "0 < g" "g \<le> 31" using Cons.prems by simp_all
  then have "unat g \<le> 31" "0 < unat g" by (simp_all add: word_le_nat_alt unat_gt_0)
  moreover have "unat (g - 1) = unat g - 1" using g(1) by (intro unat_minus_one) auto
  ultimately have "unat (g - 1) < 32" by simp
  then have "bit (push_bit (unat (g - 1)) (1 :: u32)) i \<longleftrightarrow> i = unat (g - 1)" for i
    by (auto simp: bit_exp_iff possible_bit_def)
  then show ?case using w by (auto simp: nl_mgrp_bit [OF g] bit_or_iff)
qed simp

text \<open>An address is live on an interface when it was announced and not withdrawn since.\<close>

definition live :: "route_netlink_message list \<Rightarrow> u32 \<Rightarrow> ip_addr \<Rightarrow> bool" where
  "live ms i a \<longleftrightarrow> (\<exists>pre m post. ms = pre @ NewAddress m # post \<and> am_index m = i \<and> get_address m = Some a
     \<and> (\<forall>m'. DelAddress m' \<in> set post \<longrightarrow> \<not> (am_index m' = i \<and> get_address m' = Some a)))"

lemma live_Nil [simp]: "\<not> live [] i a"
  by (simp add: live_def)

lemma live_snoc:
  "live (ms @ [m]) i a \<longleftrightarrow>
     (\<exists>am. m = NewAddress am \<and> am_index am = i \<and> get_address am = Some a)
     \<or> live ms i a \<and> \<not> (\<exists>am. m = DelAddress am \<and> am_index am = i \<and> get_address am = Some a)"
  (is "?L \<longleftrightarrow> ?R")
proof
  assume ?L
  then obtain pre am post where split: "ms @ [m] = pre @ NewAddress am # post"
    and am: "am_index am = i" "get_address am = Some a"
    and post: "\<forall>m'. DelAddress m' \<in> set post \<longrightarrow> \<not> (am_index m' = i \<and> get_address m' = Some a)"
    unfolding live_def by blast
  show ?R
  proof (cases post rule: rev_cases)
    case Nil
    then show ?thesis using split am by auto
  next
    case (snoc ys y)
    then have "ms = pre @ NewAddress am # ys" "y = m" using split by simp_all
    then have "live ms i a" using am post snoc unfolding live_def by (intro exI [of _ pre] exI [of _ am] exI [of _ ys]) simp
    moreover have "\<not> (\<exists>am. m = DelAddress am \<and> am_index am = i \<and> get_address am = Some a)"
      using post snoc \<open>y = m\<close> by auto
    ultimately show ?thesis by blast
  qed
next
  assume ?R
  then show ?L
  proof
    assume "\<exists>am. m = NewAddress am \<and> am_index am = i \<and> get_address am = Some a"
    then obtain am where "m = NewAddress am" "am_index am = i" "get_address am = Some a" by blast
    then show ?L unfolding live_def by (intro exI [of _ ms] exI [of _ am] exI [of _ "[]"]) simp
  next
    assume *: "live ms i a \<and> \<not> (\<exists>am. m = DelAddress am \<and> am_index am = i \<and> get_address am = Some a)"
    then obtain pre am post where "ms = pre @ NewAddress am # post"
      "am_index am = i" "get_address am = Some a"
      "\<forall>m'. DelAddress m' \<in> set post \<longrightarrow> \<not> (am_index m' = i \<and> get_address m' = Some a)"
      unfolding live_def by blast
    then show ?L using * unfolding live_def
      by (intro exI [of _ pre] exI [of _ am] exI [of _ "post @ [m]"]) auto
  qed
qed

definition cache_ok :: "route_netlink_message list \<Rightarrow> addr_cache \<Rightarrow> bool" where
  "cache_ok ms cache \<longleftrightarrow> (\<forall>i a. a \<in> set (cache_entry cache i) \<longleftrightarrow> live ms i a)"

text \<open>The routes that are no changes: those of the tables main (254) and local (255) to multicast
  (224.0.0.0/4, ff00::/8) or link-local (169.254.0.0/16, fe80::/10) destinations.\<close>

definition local_route :: "route_message \<Rightarrow> bool" where
  "local_route m \<longleftrightarrow> get_table m \<in> {Some 254, Some 255}
     \<and> (case get_destination m of
          Some (Inet ip) \<Rightarrow> in_block4 (Ipv4 224 0 0 0) 4 ip \<or> in_block4 (Ipv4 169 254 0 0) 16 ip
        | Some (Inet6 ip) \<Rightarrow> in_block6 (Ipv6 0xff00 0 0 0 0 0 0 0) 8 ip \<or> in_block6 (Ipv6 0xfe80 0 0 0 0 0 0 0) 10 ip
        | _ \<Rightarrow> False)"

lemma multicast_block4: "ipv4_is_multicast ip \<longleftrightarrow> in_block4 (Ipv4 224 0 0 0) 4 ip"
proof (cases ip)
  case (Ipv4 a b c d)
  have "(unat a * 256 + unat b) div 4096 = unat a div 16"
    using u8_bound [of b] div_mult2_eq [of "unat a * 256 + unat b" 256 16] by simp
  then have "in_block4 (Ipv4 224 0 0 0) 4 ip \<longleftrightarrow> unat a div 16 = 14" by (simp add: Ipv4 in_block4_first)
  moreover have "unat a div 16 = 14 \<longleftrightarrow> 224 \<le> unat a \<and> unat a \<le> 239" by linarith
  ultimately show ?thesis by (simp add: Ipv4 ipv4_is_multicast_def word_le_nat_alt)
qed

lemma link_local_block4: "ipv4_is_link_local ip \<longleftrightarrow> in_block4 (Ipv4 169 254 0 0) 16 ip"
proof (cases ip)
  case (Ipv4 a b c d)
  then show ?thesis
    using radix_eq [of "unat b" 256 254 "unat a" 169] u8_bound [of b]
    by (simp add: ipv4_is_link_local_def in_block4_first u8_eq_numeral)
qed

lemma multicast_block6: "ipv6_is_multicast ip \<longleftrightarrow> in_block6 (Ipv6 0xff00 0 0 0 0 0 0 0) 8 ip"
proof (cases ip)
  case (Ipv6 s b c d e f g h)
  have "s AND 0xff00 = 0xff00 \<longleftrightarrow> unat s div 256 = 255"
    using and_high_mask_div [of "0xff00" 8 "0xff00" s] by (simp add: mask_eq_exp_minus_1)
  then show ?thesis by (simp add: Ipv6 ipv6_is_multicast_def in_block6_first)
qed

lemma link_local_block6: "is_unicast_link_local ip \<longleftrightarrow> in_block6 (Ipv6 0xfe80 0 0 0 0 0 0 0) 10 ip"
  by (cases ip) (simp add: is_unicast_link_local_def in_block6_first and_ffc0_fe80)

lemma route_skipped_local: "route_skipped m \<longleftrightarrow> local_route m"
  by (auto simp: route_skipped_def local_route_def multicast_block4 link_local_block4 multicast_block6
      link_local_block6 Let_def split: option.split route_address.split)

text \<open>What is announced as a change after the messages \<open>pre\<close>.\<close>

fun announces :: "route_netlink_message list \<Rightarrow> route_netlink_message \<Rightarrow> bool" where
  "announces pre (NewAddress m) \<longleftrightarrow> (\<exists>a. get_address m = Some a \<and> \<not> live pre (am_index m) a)"
| "announces pre (DelAddress m) \<longleftrightarrow> True"
| "announces pre (NewRoute m) \<longleftrightarrow> \<not> local_route m"
| "announces pre (DelRoute m) \<longleftrightarrow> \<not> local_route m"
| "announces pre NewRule \<longleftrightarrow> True"
| "announces pre DelRule \<longleftrightarrow> True"
| "announces pre _ \<longleftrightarrow> False"

lemma handle_message_refines:
  assumes "cache_ok pre cache"
  shows "cache_ok (pre @ [m]) (fst (handle_message m cache))
    \<and> (snd (handle_message m cache) \<longleftrightarrow> announces pre m)"
proof (cases m)
  case (NewAddress am)
  then show ?thesis using assms
    by (cases "get_address am") (auto simp: cache_ok_def live_snoc cache_entry_def Let_def)
next
  case (DelAddress am)
  then show ?thesis using assms
    by (cases "get_address am") (auto simp: cache_ok_def live_snoc cache_entry_def Let_def)
qed (use assms in \<open>simp_all add: cache_ok_def live_snoc route_skipped_local\<close>)

text \<open>The messages of a stream the loop sees, and the number of changes among them.\<close>

definition inner_messages :: "netlink_payload list \<Rightarrow> route_netlink_message list" where
  "inner_messages ps =
     List.map_filter (\<lambda>p. case p of InnerMessage m \<Rightarrow> Some m | _ \<Rightarrow> None)
       (takeWhile (\<lambda>p. p \<noteq> NetlinkDone) ps)"

fun changes_after :: "route_netlink_message list \<Rightarrow> route_netlink_message list \<Rightarrow> nat" where
  "changes_after pre [] = 0"
| "changes_after pre (m # ms) = (if announces pre m then 1 else 0) + changes_after (pre @ [m]) ms"

lemma changes_after_count:
  "changes_after pre ms = length (filter (\<lambda>i. announces (pre @ take i ms) (ms ! i)) [0..<length ms])"
proof (induction ms arbitrary: pre)
  case (Cons m ms)
  have "[0..<length (m # ms)] = 0 # map Suc [0..<length ms]"
    by (simp add: map_Suc_upt upt_conv_Cons del: upt_Suc)
  then show ?case using Cons [of "pre @ [m]"] by (simp add: filter_map o_def del: upt_Suc)
qed simp

definition first_down :: "(nat \<Rightarrow> bool) \<Rightarrow> nat \<Rightarrow> nat" where
  "first_down up n = (LEAST m. n \<le> m \<and> \<not> up m)"

lemma first_down_Suc: "up n \<Longrightarrow> first_down up (Suc n) = first_down up n"
proof -
  assume "up n"
  then have "Suc n \<le> m \<and> \<not> up m \<longleftrightarrow> n \<le> m \<and> \<not> up m" for m
    by (metis Suc_leD Suc_leI le_neq_implies_less)
  then show ?thesis by (simp only: first_down_def)
qed

lemma first_down_self: "\<not> up n \<Longrightarrow> first_down up n = n"
  unfolding first_down_def by (rule Least_equality) auto

lemma process_loop_spec:
  assumes "cache_ok pre cache"
  shows "process_loop up ps cache sent =
     (let k = changes_after pre (inner_messages ps)
      in if \<forall>n. sent \<le> n \<and> n < sent + k \<longrightarrow> up n then (True, sent + k) else (False, first_down up sent))"
  using assms
proof (induction up ps cache sent arbitrary: pre rule: process_loop.induct)
  case (4 up m ps cache sent)
  obtain cache' b where step: "handle_message m cache = (cache', b)" by fastforce
  have ok: "cache_ok (pre @ [m]) cache'" and b: "b = announces pre m"
    using handle_message_refines [OF 4(3), of m] step by simp_all
  have inner: "inner_messages (InnerMessage m # ps) = m # inner_messages ps"
    by (simp add: inner_messages_def map_filter_simps)
  let ?k = "changes_after (pre @ [m]) (inner_messages ps)"
  have range: "(\<forall>n. sent \<le> n \<and> n < Suc sent + ?k \<longrightarrow> up n) \<longleftrightarrow>
      up sent \<and> (\<forall>n. Suc sent \<le> n \<and> n < Suc sent + ?k \<longrightarrow> up n)"
    by (auto simp: Suc_le_eq) (metis le_neq_implies_less)
  show ?case
  proof (cases b)
    case False
    then show ?thesis using 4(2) [OF step [symmetric] _ ok] step b inner by (simp add: Let_def)
  next
    case True
    show ?thesis
    proof (cases "up sent")
      case up: True
      then show ?thesis
        using 4(1) [OF step [symmetric] _ up ok] step b True inner range
        by (auto simp: Let_def first_down_Suc)
    next
      case down: False
      then show ?thesis using step b True inner by (auto simp: Let_def first_down_self)
    qed
  qed
qed (simp_all add: inner_messages_def map_filter_simps)

lemma cache_ok_empty: "cache_ok [] Map.empty"
  by (simp add: cache_ok_def cache_entry_def)

text \<open>The backoff at an attempt: how many attempts failed in a row up to it, the very first one
  counting as a restart.\<close>

definition trailing_failures :: "'a option list \<Rightarrow> nat \<Rightarrow> nat" where
  "trailing_failures attempts i = length (takeWhile (\<lambda>x. x = None) (rev (take (Suc i) attempts)))"

definition backoff_at :: "nat \<Rightarrow> duration" where
  "backoff_at e = min (2 ^ e * initial_backoff) max_backoff"

lemma backoff_at_Suc: "min (backoff_at e * 2) max_backoff = backoff_at (Suc e)"
  by (simp add: backoff_at_def min_def)

lemma backoff_at_0: "backoff_at 0 = initial_backoff"
  by (simp add: backoff_at_def initial_backoff_def max_backoff_def from_secs_def)

lemma trailing_failures_le: "i < length xs \<Longrightarrow> trailing_failures xs i \<le> Suc i"
  using length_takeWhile_le [of "\<lambda>x. x = None" "rev (take (Suc i) xs)"]
  by (simp add: trailing_failures_def)

lemma trailing_failures_Cons:
  assumes "i < length xs"
  shows "trailing_failures (x # xs) (Suc i) =
    (if trailing_failures xs i = Suc i \<and> x = None then Suc (Suc i) else trailing_failures xs i)"
proof -
  have len: "length (rev (take (Suc i) xs)) = Suc i" using assms by simp
  have all: "(\<forall>y\<in>set (take (Suc i) xs). y = None) \<longleftrightarrow> trailing_failures xs i = Suc i"
    using len takeWhile_eq_all_conv [of "\<lambda>x. x = None" "rev (take (Suc i) xs)"]
      takeWhile_eq_take [of "\<lambda>x. x = None" "rev (take (Suc i) xs)"]
    by (metis set_rev take_all_iff order_refl trailing_failures_def)
  show ?thesis
  proof (cases "\<forall>y\<in>set (take (Suc i) xs). y = None")
    case True
    then have "takeWhile (\<lambda>x. x = None) (rev (take (Suc i) xs) @ [x])
        = rev (take (Suc i) xs) @ takeWhile (\<lambda>x. x = None) [x]"
      by (intro takeWhile_append2) simp
    then show ?thesis using True all len by (simp add: trailing_failures_def)
  next
    case False
    then obtain y where "y \<in> set (rev (take (Suc i) xs))" "y \<noteq> None" by auto
    then have "takeWhile (\<lambda>x. x = None) (rev (take (Suc i) xs) @ [x])
        = takeWhile (\<lambda>x. x = None) (rev (take (Suc i) xs))"
      by (intro takeWhile_append1) auto
    then show ?thesis using False all by (simp add: trailing_failures_def)
  qed
qed

definition backoff_exponent :: "nat \<Rightarrow> 'a option list \<Rightarrow> nat \<Rightarrow> nat" where
  "backoff_exponent e attempts i =
     (if trailing_failures attempts i = Suc i then e + i else trailing_failures attempts i)"

lemma backoff_exponent_Cons:
  assumes "i < length xs"
  shows "backoff_exponent e (x # xs) (Suc i) =
    backoff_exponent (Suc (if x = None then e else 0)) xs i"
  using trailing_failures_le [OF assms]
  by (auto simp: backoff_exponent_def trailing_failures_Cons [OF assms])

lemma route_monitor_backoff:
  assumes "route_monitor up attempts (backoff_at e) sent = (ended, n, slept)"
  shows "length slept \<le> length attempts
    \<and> (\<forall>i<length slept. slept ! i = backoff_at (backoff_exponent e attempts i))"
  using assms
proof (induction attempts arbitrary: e sent ended n slept)
  case (Cons attempt attempts)
  let ?e = "if attempt = None then e else 0"
  have zero: "backoff_exponent e (attempt # attempts) 0 = ?e"
    by (simp add: backoff_exponent_def trailing_failures_def)
  obtain stop sent' where step:
    "(case attempt of Some messages \<Rightarrow>
        let (should_reconnect, sent') = process_messages up messages sent
        in (\<not> should_reconnect, sent', initial_backoff)
      | None \<Rightarrow> (False, sent, backoff_at e)) = (stop, sent', backoff_at ?e)"
    by (cases attempt; cases "process_messages up (the attempt) sent") (auto simp: backoff_at_0)
  show ?case
  proof (cases stop)
    case True
    then show ?thesis using Cons.prems step by simp
  next
    case False
    obtain ended' n' slept' where
      rest: "route_monitor up attempts (backoff_at (Suc ?e)) sent' = (ended', n', slept')"
      by (metis prod_cases3)
    then have slept: "slept = backoff_at ?e # slept'"
      using Cons.prems step False by (simp add: backoff_at_Suc del: if_split)
    have "slept' ! i = backoff_at (backoff_exponent e (attempt # attempts) (Suc i))"
      if "i < length slept'" for i
      using Cons.IH [OF rest] that backoff_exponent_Cons [of i attempts e attempt] by auto
    then show ?thesis using Cons.IH [OF rest] zero
      by (auto simp: slept nth_Cons split: nat.splits)
  qed
qed simp

lemma route_monitor_ended:
  assumes "\<And>n. up n"
  shows "fst (route_monitor up attempts backoff sent) = False
    \<and> length (snd (snd (route_monitor up attempts backoff sent))) = length attempts"
proof (induction attempts arbitrary: backoff sent)
  case (Cons attempt attempts)
  have reconnect: "\<exists>n. process_messages up messages sent = (True, n)" for messages
    using assms by (simp add: process_messages_def process_loop_spec [OF cache_ok_empty] Let_def)
  have rest: "\<exists>n slept. route_monitor up attempts b s = (False, n, slept) \<and> length slept = length attempts"
    for b s using Cons [of b s] by (metis prod.exhaust_sel)
  show ?case
  proof (cases attempt)
    case None
    then show ?thesis using rest [of "min (backoff * 2) max_backoff" sent] by auto
  next
    case (Some messages)
    obtain n where "process_messages up messages sent = (True, n)" using reconnect by blast
    then show ?thesis using Some rest [of "min (initial_backoff * 2) max_backoff" n] by auto
  qed
qed simp

section \<open>Properties\<close>

text \<open>C32: what the monitor forwards. While the actor accepts messages, every message up to the end of
  the stream (or a Done message) that announces a change is sent, in order: an address that is not
  already live on its interface, a withdrawn address, a rule, and a route other than a multicast or
  link-local one of the local and main tables; a repeated announcement is suppressed exactly until
  the address is withdrawn. Then the connection is to be reopened; at the first refused message the
  monitor shuts down.\<close>

theorem process_messages_spec:
  "process_messages up messages sent =
     (let ms = inner_messages messages;
          k = length (filter (\<lambda>i. announces (take i ms) (ms ! i)) [0..<length ms])
      in if \<forall>n. sent \<le> n \<and> n < sent + k \<longrightarrow> up n then (True, sent + k)
         else (False, LEAST n. sent \<le> n \<and> \<not> up n))"
  by (simp add: process_messages_def process_loop_spec [OF cache_ok_empty] changes_after_count
      first_down_def Let_def)

theorem process_messages_spec_witness:
  "process_messages (\<lambda>_. True)
     [InnerMessage (NewAddress \<lparr>am_index = 2, am_attributes = [AddressAttr (V4 (Ipv4 10 0 0 1))]\<rparr>),
      InnerMessage (NewAddress \<lparr>am_index = 2, am_attributes = [AddressAttr (V4 (Ipv4 10 0 0 1))]\<rparr>)] 0
   = (True, 1)"
  by (subst process_messages_spec)
    (simp add: inner_messages_def map_filter_simps get_address_def live_snoc [of "[]", simplified])

text \<open>C33: the reconnection backoff. The \<open>i\<close>-th wait is one second doubled for every attempt that
  failed in a row before it, at most 30 seconds; a successful connection resets it; and while the
  actor accepts messages the monitor never gives up.\<close>

theorem route_monitor_backoff_spec:
  "(case route_monitor_new up attempts of (ended, n, slept) \<Rightarrow>
      (\<forall>i<length slept. slept ! i =
         (let f = trailing_failures attempts i
          in min (2 ^ (if f = Suc i then i else f) * from_secs 1) (from_secs 30))))
   \<and> ((\<forall>n. up n) \<longrightarrow> (case route_monitor_new up attempts of (ended, n, slept) \<Rightarrow>
        \<not> ended \<and> length slept = length attempts))"
proof -
  obtain ended n slept where run: "route_monitor_new up attempts = (ended, n, slept)"
    by (metis prod_cases3)
  then have "route_monitor up attempts (backoff_at 0) 0 = (ended, n, slept)"
    by (simp add: route_monitor_new_def backoff_at_0)
  from route_monitor_backoff [OF this] run route_monitor_ended [of up attempts initial_backoff 0]
  show ?thesis
    by (auto simp: backoff_exponent_def backoff_at_def initial_backoff_def max_backoff_def Let_def
        route_monitor_new_def)
qed

theorem route_monitor_backoff_spec_witness:
  "snd (snd (route_monitor_new (\<lambda>_. True) [None, None, Some [], None])) ! 3 = from_secs 2"
proof -
  let ?run = "route_monitor_new (\<lambda>_. True) [None, None, Some [], None]"
  have "3 < length (snd (snd ?run))"
    using route_monitor_backoff_spec [where up = "\<lambda>_. True" and attempts = "[None, None, Some [], None]"]
    by (auto split: prod.splits)
  then have "snd (snd ?run) ! 3 =
         (let f = trailing_failures [None, None, Some ([] :: netlink_payload list), None] 3
          in min (2 ^ (if f = Suc 3 then 3 else f) * from_secs 1) (from_secs 30))"
    using route_monitor_backoff_spec [where up = "\<lambda>_. True" and attempts = "[None, None, Some [], None]"]
    by (auto split: prod.splits)
  then show ?thesis by (simp add: trailing_failures_def from_secs_def numeral_3_eq_3)
qed

end
