(* ===== verification/Bsd_Sockaddr.thy ===== *)
theory Bsd_Sockaddr
  imports Ip_Addr
begin

unbundle bit_operations_syntax

text \<open>
  Platforms and socket addresses of the BSD systems, the first half of
  \<^verbatim>\<open>netwatch/src/interfaces/bsd.rs\<close>. What differs between the systems is a record
  \<open>bsd_platform\<close>: the operating system the code is compiled for, its endianness and pointer width,
  the constants of the \<^verbatim>\<open>libc\<close> crate, the constants of \<^verbatim>\<open>net/route.h\<close>, and the routing stack
  the system's own module builds (theory \<open>Bsd_Stacks\<close>). A \<^verbatim>\<open>String\<close> is its UTF-8 bytes. The
  locale \<open>rib_platform\<close> states what the parsers need of a platform; under it none of them panics.
\<close>

section \<open>Platforms\<close>

datatype bsd_os = FreeBSD | NetBSD | OpenBSD | MacOS

datatype message_type =
  MsgRoute | MsgInterface | MsgInterfaceAddr | MsgInterfaceMulticastAddr | MsgInterfaceAnnounce

record wire_format =
  wf_ext_off :: nat
  wf_body_off :: nat
  wf_typ :: message_type

record routing_stack =
  rs_rtm_version :: int
  rs_kernel_align :: nat
  rs_wire_formats :: "int \<Rightarrow> wire_format option"

record libc_consts =
  lc_ctl_net :: int
  lc_af_route :: int
  lc_af_unspec :: int
  lc_af_inet :: int
  lc_af_inet6 :: int
  lc_af_link :: int
  lc_net_rt_dump :: int
  lc_net_rt_iflist :: int
  lc_net_rt_iflist2 :: int
  lc_rtf_ifscope :: u32
  lc_enomem :: int

record route_consts =
  rc_rtf_gateway :: u32
  rc_rtax_dst :: nat
  rc_rtax_gateway :: nat
  rc_rtax_netmask :: nat
  rc_rtax_ifp :: nat
  rc_rtax_brd :: nat
  rc_rtax_max :: nat
  rc_rta_ifp :: u32
  rc_sizeof_sockaddr_inet :: nat
  rc_sizeof_sockaddr_inet6 :: nat

record bsd_platform =
  bp_os :: bsd_os
  bp_little_endian :: bool
  bp_64bit :: bool
  bp_libc :: libc_consts
  bp_route :: route_consts
  bp_stack :: routing_stack

section \<open>Addresses\<close>

datatype rt_addr =
    Addr_Link int "bytes option" "bytes option"
  | Addr_Inet4 ipv4
  | Addr_Inet6 ipv6 u32
  | Addr_Default int bytes

fun addr_family :: "bsd_platform \<Rightarrow> rt_addr \<Rightarrow> int" where
  "addr_family pf (Addr_Link _ _ _) = lc_af_link (bp_libc pf)"
| "addr_family pf (Addr_Inet4 _) = lc_af_inet (bp_libc pf)"
| "addr_family pf (Addr_Inet6 _ _) = lc_af_inet6 (bp_libc pf)"
| "addr_family pf (Addr_Default af _) = af"

fun addr_name :: "rt_addr \<Rightarrow> bytes option" where
  "addr_name (Addr_Link _ name _) = name"
| "addr_name _ = None"

fun addr_ip :: "rt_addr \<Rightarrow> ip_addr option" where
  "addr_ip (Addr_Inet4 ip) = Some (V4 ip)"
| "addr_ip (Addr_Inet6 ip _) = Some (V6 ip)"
| "addr_ip _ = None"

datatype route_error =
    MessageMismatch
  | MessageTooShort
  | InvalidMessage
  | InvalidAddress
  | InvalidRibType int
  | RouteIo int

section \<open>Reading integers\<close>

definition u16_from_ne :: "bool \<Rightarrow> u8 \<Rightarrow> u8 \<Rightarrow> u16" where
  "u16_from_ne little a b = (if little then u16_from_be b a else u16_from_be a b)"

definition u32_from_ne :: "bool \<Rightarrow> u8 \<Rightarrow> u8 \<Rightarrow> u8 \<Rightarrow> u8 \<Rightarrow> u32" where
  "u32_from_ne little a b c d = (if little then u32_from_be d c b a else u32_from_be a b c d)"

definition u16_from_ne_range :: "bsd_platform \<Rightarrow> bytes \<Rightarrow> nat \<Rightarrow> nat \<Rightarrow> (u16, route_error) res" where
  "u16_from_ne_range pf data a b =
     ok_or (case get_range a b data of
         Some [x, y] \<Rightarrow> Some (u16_from_ne (bp_little_endian pf) x y)
       | _ \<Rightarrow> None) MessageTooShort"

definition u32_from_ne_range :: "bsd_platform \<Rightarrow> bytes \<Rightarrow> nat \<Rightarrow> nat \<Rightarrow> (u32, route_error) res" where
  "u32_from_ne_range pf data a b =
     ok_or (case get_range a b data of
         Some [x, y, z, w] \<Rightarrow> Some (u32_from_ne (bp_little_endian pf) x y z w)
       | _ \<Rightarrow> None) MessageTooShort"

text \<open>\<^verbatim>\<open>x as isize\<close> of a \<^verbatim>\<open>u32\<close>: on 32-bit systems the value wraps.\<close>

definition as_isize :: "bsd_platform \<Rightarrow> u32 \<Rightarrow> int" where
  "as_isize pf w = (if bp_64bit pf then uint w else sint w)"

text \<open>\<^verbatim>\<open>std::str::from_utf8\<close>: the byte sequences it accepts.\<close>

definition utf8_cont :: "u8 \<Rightarrow> bool" where
  "utf8_cont b \<longleftrightarrow> 0x80 \<le> b \<and> b \<le> 0xBF"

fun utf8_valid :: "bytes \<Rightarrow> bool" where
  "utf8_valid [] = True"
| "utf8_valid (b0 # bs) =
     (if b0 \<le> 0x7F then utf8_valid bs
      else case bs of
          [] \<Rightarrow> False
        | b1 # bs \<Rightarrow>
            if 0xC2 \<le> b0 \<and> b0 \<le> 0xDF then utf8_cont b1 \<and> utf8_valid bs
            else case bs of
                [] \<Rightarrow> False
              | b2 # bs \<Rightarrow>
                  if 0xE0 \<le> b0 \<and> b0 \<le> 0xEF then
                    utf8_cont b1 \<and> (b0 = 0xE0 \<longrightarrow> 0xA0 \<le> b1) \<and> (b0 = 0xED \<longrightarrow> b1 \<le> 0x9F)
                    \<and> utf8_cont b2 \<and> utf8_valid bs
                  else case bs of
                      [] \<Rightarrow> False
                    | b3 # bs \<Rightarrow>
                        0xF0 \<le> b0 \<and> b0 \<le> 0xF4
                        \<and> utf8_cont b1 \<and> (b0 = 0xF0 \<longrightarrow> 0x90 \<le> b1) \<and> (b0 = 0xF4 \<longrightarrow> b1 \<le> 0x8F)
                        \<and> utf8_cont b2 \<and> utf8_cont b3 \<and> utf8_valid bs)"

definition from_utf8 :: "bytes \<Rightarrow> (bytes, route_error) res" where
  "from_utf8 bs = (if utf8_valid bs then Ok bs else Err InvalidAddress)"

section \<open>Socket addresses\<close>

text \<open>\<^verbatim>\<open>x &= !(align - 1)\<close>.\<close>

definition roundup :: "bsd_platform \<Rightarrow> nat \<Rightarrow> nat" where
  "roundup pf l =
     (let align = rs_kernel_align (bp_stack pf) in
      if l = 0 then align
      else nat (and (int (l + align - 1)) (not (int align - 1))))"

definition parse_inet_addr :: "bsd_platform \<Rightarrow> int \<Rightarrow> bytes \<Rightarrow> (rt_addr, route_error) res" where
  "parse_inet_addr pf af b =
     (if af = lc_af_inet (bp_libc pf) then
        bind_res (ensure (length b \<ge> rc_sizeof_sockaddr_inet (bp_route pf)) InvalidAddress) (\<lambda>_.
        bind_res (idx b 4) (\<lambda>b4. bind_res (idx b 5) (\<lambda>b5.
        bind_res (idx b 6) (\<lambda>b6. bind_res (idx b 7) (\<lambda>b7.
        Ok (Addr_Inet4 (Ipv4 b4 b5 b6 b7)))))))
      else if af = lc_af_inet6 (bp_libc pf) then
        bind_res (ensure (length b \<ge> rc_sizeof_sockaddr_inet6 (bp_route pf)) InvalidAddress) (\<lambda>_.
        bind_res (u32_from_ne_range pf b 24 28) (\<lambda>zone.
        bind_res (ok_or (get_range 8 24 b) InvalidMessage) (\<lambda>oc.
        let embedded = oc ! 0 = 0xfe \<and> and (oc ! 1) 0xc0 = 0x80
              \<or> oc ! 0 = 0xff \<and> (and (oc ! 1) 0x0f = 0x01 \<or> and (oc ! 1) 0x0f = 0x02);
            ident = u16_from_be (oc ! 2) (oc ! 3);
            (zone, oc) = (if embedded \<and> ident \<noteq> 0 then (ucast ident, oc[2 := 0, 3 := 0]) else (zone, oc))
        in bind_res (ipv6_from_octets oc) (\<lambda>ip. Ok (Addr_Inet6 ip zone)))))
      else Err InvalidAddress)"

text \<open>\<^verbatim>\<open>octets[..n].copy_from_slice(src)\<close> into zeroed octets: the lengths must agree.\<close>

definition copy_into :: "nat \<Rightarrow> nat \<Rightarrow> bytes \<Rightarrow> (bytes, 'e) res" where
  "copy_into sz n src =
     (if n \<le> sz \<and> length src = n then Ok (src @ replicate (sz - n) 0) else Panic)"

text \<open>The length of an address in kernel form. On Darwin such an address is also used as filler.\<close>

definition kernel_addr_len :: "bsd_platform \<Rightarrow> nat \<Rightarrow> nat \<Rightarrow> nat" where
  "kernel_addr_len pf l blen =
     (if bp_os pf = MacOS then (if l = 0 \<or> blen > roundup pf l then roundup pf l else l)
      else roundup pf l)"

text \<open>The octets of an address of length \<open>l\<close> whose first \<open>off\<close> bytes are its header, zero-filled.\<close>

definition kernel_octets :: "nat \<Rightarrow> nat \<Rightarrow> nat \<Rightarrow> bytes \<Rightarrow> (bytes, route_error) res" where
  "kernel_octets sz off l b =
     (if l - 1 < off then bind_res (slice 1 l b) (copy_into sz (l - 1))
      else bind_res (slice (l - off) l b) (copy_into sz sz))"

definition kernel_addr :: "bsd_platform \<Rightarrow> int \<Rightarrow> nat \<Rightarrow> nat \<Rightarrow> bytes \<Rightarrow> (rt_addr, route_error) res" where
  "kernel_addr pf af b0 l b =
     (let off4 = 4; off6 = 8 in
      if b0 = rc_sizeof_sockaddr_inet6 (bp_route pf) then
        bind_res (ok_or (get_range off6 (off6 + 16) b) InvalidMessage) (\<lambda>octets.
        bind_res (ipv6_from_octets octets) (\<lambda>ip. Ok (Addr_Inet6 ip 0)))
      else if af = lc_af_inet6 (bp_libc pf) then
        bind_res (kernel_octets 16 off6 l b) (\<lambda>octets.
        bind_res (ipv6_from_octets octets) (\<lambda>ip. Ok (Addr_Inet6 ip 0)))
      else if b0 = rc_sizeof_sockaddr_inet (bp_route pf) then
        bind_res (ok_or (get_range off4 (off4 + 4) b) InvalidMessage) (\<lambda>octets.
        bind_res (ipv4_from_octets octets) (\<lambda>ip. Ok (Addr_Inet4 ip)))
      else
        bind_res (kernel_octets 4 off4 l b) (\<lambda>octets.
        bind_res (ipv4_from_octets octets) (\<lambda>ip. Ok (Addr_Inet4 ip))))"

definition parse_kernel_inet_addr ::
  "bsd_platform \<Rightarrow> int \<Rightarrow> bytes \<Rightarrow> (nat \<times> rt_addr, route_error) res" where
  "parse_kernel_inet_addr pf af b =
     bind_res (idx b 0) (\<lambda>b0.
     let l = kernel_addr_len pf (unat b0) (length b) in
     bind_res (ensure (length b \<ge> l) InvalidAddress) (\<lambda>_.
     bind_res (kernel_addr pf af (unat b0) l b) (\<lambda>addr. Ok (unat b0, addr))))"

text \<open>All-bit-one of a length field means it is not given.\<close>

definition dont_care :: "u8 \<Rightarrow> nat" where
  "dont_care b = (if unat b = 0xff then 0 else unat b)"

definition parse_kernel_link_addr :: "bytes \<Rightarrow> (nat \<times> rt_addr, route_error) res" where
  "parse_kernel_link_addr b =
     bind_res (idx b 1) (\<lambda>b1. bind_res (idx b 2) (\<lambda>b2. bind_res (idx b 3) (\<lambda>b3.
     let nlen = dont_care b1; alen = dont_care b2; slen = dont_care b3;
         l = 4 + nlen + alen + slen
     in
     bind_res (ensure (length b \<ge> l) InvalidAddress) (\<lambda>_.
     bind_res (slice_from 4 b) (\<lambda>data.
     bind_res
       (if nlen > 0 then
          bind_res (slice_to nlen data) (\<lambda>s.
          bind_res (from_utf8 s) (\<lambda>name.
          bind_res (slice_from nlen data) (\<lambda>data. Ok (Some name, data))))
        else Ok (None, data)) (\<lambda>(name, data).
     bind_res (if alen > 0 then bind_res (slice_to alen data) (\<lambda>a. Ok (Some a)) else Ok None) (\<lambda>addr.
     Ok (l, Addr_Link 0 name addr))))))))"

definition parse_link_addr :: "bsd_platform \<Rightarrow> bytes \<Rightarrow> (rt_addr, route_error) res" where
  "parse_link_addr pf b =
     bind_res (ensure (length b \<ge> 8) InvalidAddress) (\<lambda>_.
     bind_res (slice_from 4 b) (\<lambda>rest.
     bind_res (parse_kernel_link_addr rest) (\<lambda>(l, a).
     case a of
       Addr_Link index name addr \<Rightarrow>
         bind_res (u16_from_ne_range pf b 2 4) (\<lambda>index. Ok (Addr_Link (uint index) name addr))
     | a \<Rightarrow> Ok a)))"

definition parse_default_addr :: "bytes \<Rightarrow> (rt_addr, route_error) res" where
  "parse_default_addr b =
     (if \<not> length b \<ge> 2 then Err InvalidAddress
      else bind_res (idx b 0) (\<lambda>b0.
        if \<not> length b \<ge> unat b0 then Err InvalidAddress
        else bind_res (idx b 1) (\<lambda>b1. bind_res (slice_to (unat b0) b) (\<lambda>raw.
          Ok (Addr_Default (uint b1) raw)))))"

text \<open>\<^verbatim>\<open>ensure!(b.len() >= l, MessageTooShort); b = &b[l..]\<close>.\<close>

definition advance :: "bytes \<Rightarrow> nat \<Rightarrow> (bytes, route_error) res" where
  "advance b l = bind_res (ensure (length b \<ge> l) MessageTooShort) (\<lambda>_. slice_from l b)"

text \<open>The address at the front of \<open>b\<close> for attribute \<open>i\<close>, and what follows it.\<close>

definition parse_one_addr ::
  "bsd_platform \<Rightarrow> (int \<Rightarrow> bytes \<Rightarrow> (nat \<times> rt_addr, route_error) res) \<Rightarrow> nat \<Rightarrow> bytes
     \<Rightarrow> (rt_addr \<times> bytes, route_error) res" where
  "parse_one_addr pf default_fn i b =
     (if i \<le> rc_rtax_brd (bp_route pf) then
        bind_res (idx b 1) (\<lambda>b1.
        if uint b1 = lc_af_link (bp_libc pf) then
          bind_res (parse_link_addr pf b) (\<lambda>a.
          bind_res (idx b 0) (\<lambda>b0.
          bind_res (advance b (roundup pf (unat b0))) (\<lambda>b'. Ok (a, b'))))
        else if uint b1 = lc_af_inet (bp_libc pf) \<or> uint b1 = lc_af_inet6 (bp_libc pf) then
          bind_res (parse_inet_addr pf (uint b1) b) (\<lambda>a.
          bind_res (idx b 0) (\<lambda>b0.
          bind_res (advance b (roundup pf (unat b0))) (\<lambda>b'. Ok (a, b'))))
        else
          bind_res (default_fn (lc_af_unspec (bp_libc pf)) b) (\<lambda>(l, a).
          let ll = roundup pf l in
          bind_res (if length b < ll then slice_from l b else slice_from ll b) (\<lambda>b'. Ok (a, b'))))
      else
        bind_res (parse_default_addr b) (\<lambda>a.
        bind_res (idx b 0) (\<lambda>b0.
        bind_res (advance b (roundup pf (unat b0))) (\<lambda>b'. Ok (a, b')))))"

text \<open>The loop over the attributes, from attribute \<open>i\<close> on, \<open>n\<close> of them.\<close>

primrec parse_addrs_loop ::
  "bsd_platform \<Rightarrow> (int \<Rightarrow> bytes \<Rightarrow> (nat \<times> rt_addr, route_error) res) \<Rightarrow> u32 \<Rightarrow> nat \<Rightarrow> nat \<Rightarrow> bytes
     \<Rightarrow> (rt_addr list, route_error) res" where
  "parse_addrs_loop pf default_fn attrs 0 i b = Ok []"
| "parse_addrs_loop pf default_fn attrs (Suc n) i b =
     (if length b < roundup pf 0 then Ok []
      else if \<not> bit attrs i then parse_addrs_loop pf default_fn attrs n (Suc i) b
      else bind_res (parse_one_addr pf default_fn i b) (\<lambda>(a, b').
        bind_res (parse_addrs_loop pf default_fn attrs n (Suc i) b') (\<lambda>addrs. Ok (a # addrs))))"

definition parse_addrs ::
  "bsd_platform \<Rightarrow> u32 \<Rightarrow> (int \<Rightarrow> bytes \<Rightarrow> (nat \<times> rt_addr, route_error) res) \<Rightarrow> bytes
     \<Rightarrow> (rt_addr list, route_error) res" where
  "parse_addrs pf attrs default_fn data =
     parse_addrs_loop pf default_fn attrs (rc_rtax_max (bp_route pf)) 0 data"

section \<open>Facts\<close>

named_theorems rib_simps \<open>facts that evaluate the readers of routing messages\<close>

lemma ne_range_Ok [rib_simps]:
  "u16_from_ne_range pf data a b = Ok x \<Longrightarrow> b = a + 2 \<and> b \<le> length data"
  "u32_from_ne_range pf data a b = Ok y \<Longrightarrow> b = a + 4 \<and> b \<le> length data"
  by (auto simp: u16_from_ne_range_def u32_from_ne_range_def get_range_def res_simps
      split: option.splits list.splits if_splits dest!: arg_cong [of _ _ length])

lemma ne_range_no_Panic [rib_simps]:
  "u16_from_ne_range pf data a b \<noteq> Panic" "u32_from_ne_range pf data a b \<noteq> Panic"
  by (auto simp: u16_from_ne_range_def u32_from_ne_range_def res_simps)

lemma from_utf8_no_Panic [rib_simps]: "from_utf8 bs \<noteq> Panic"
  by (simp add: from_utf8_def)

lemma parse_kernel_link_addr_no_Panic: "4 \<le> length b \<Longrightarrow> parse_kernel_link_addr b \<noteq> Panic"
  by (auto simp: parse_kernel_link_addr_def Let_def res_simps rib_simps split: if_splits)

lemma parse_link_addr_no_Panic: "parse_link_addr pf b \<noteq> Panic"
proof -
  have "parse_kernel_link_addr (drop 4 b) \<noteq> Panic" if "8 \<le> length b"
    using that by (intro parse_kernel_link_addr_no_Panic) simp
  then show ?thesis
    by (auto simp: parse_link_addr_def res_simps rib_simps split: rt_addr.splits)
qed

lemma parse_default_addr_no_Panic: "parse_default_addr b \<noteq> Panic"
  by (auto simp: parse_default_addr_def res_simps)

lemma advance_Ok [rib_simps]: "advance b l = Ok b' \<longleftrightarrow> l \<le> length b \<and> b' = drop l b"
  by (auto simp: advance_def res_simps)

lemma advance_no_Panic [rib_simps]: "advance b l \<noteq> Panic"
  by (auto simp: advance_def res_simps)

lemma and_not_mask_nat: "nat (and (int m) (not (mask n))) = m - m mod 2 ^ n"
proof -
  have "and (int m) (not (mask n)) = push_bit n (drop_bit n (int m))"
    by (rule bit_eqI) (auto simp: bit_simps)
  also have "\<dots> = int (m div 2 ^ n * 2 ^ n)"
    by (simp add: push_bit_eq_mult drop_bit_eq_div of_nat_div)
  finally show ?thesis by (simp only: nat_int minus_mod_eq_div_mult)
qed

text \<open>
  What the parser needs of a platform: the kernel aligns to four or eight bytes, the sizes of the
  socket addresses are those of the BSDs, and the unspecified family is not the one of IPv6.
\<close>

locale rib_platform =
  fixes pf :: bsd_platform
  assumes align: "rs_kernel_align (bp_stack pf) = 4 \<or> rs_kernel_align (bp_stack pf) = 8"
    and sizes: "rc_sizeof_sockaddr_inet (bp_route pf) = 16" "rc_sizeof_sockaddr_inet6 (bp_route pf) = 28"
    and families: "lc_af_unspec (bp_libc pf) \<noteq> lc_af_inet6 (bp_libc pf)"
begin

lemma roundup_eq: "roundup pf l =
  (let a = rs_kernel_align (bp_stack pf) in if l = 0 then a else (l + a - 1) - (l + a - 1) mod a)"
proof (cases "l = 0")
  case False
  have masks: "(3 :: int) = mask 2" "(7 :: int) = mask 3" by (simp_all add: mask_eq_exp_minus_1)
  have four: "nat (and (int (l + 3)) (not 3)) = l + 3 - (l + 3) mod 4"
    unfolding masks(1) and_not_mask_nat by simp
  have eight: "nat (and (int (l + 7)) (not 7)) = l + 7 - (l + 7) mod 8"
    unfolding masks(2) and_not_mask_nat by simp
  show ?thesis using align four eight False by (auto simp: roundup_def Let_def add.commute)
qed (simp add: roundup_def Let_def)

lemma roundup_ge: "l \<le> roundup pf l" "4 \<le> roundup pf l"
proof -
  show "l \<le> roundup pf l"
    using align unfolding roundup_eq Let_def by (elim disjE; simp) presburger+
  show "4 \<le> roundup pf l"
    using align unfolding roundup_eq Let_def by (elim disjE; simp) presburger+
qed

lemma roundup_zero: "roundup pf 0 = rs_kernel_align (bp_stack pf)" "2 \<le> roundup pf 0"
  using align by (auto simp: roundup_def)

lemma parse_inet_addr_no_Panic: "parse_inet_addr pf af b \<noteq> Panic"
  by (auto simp: parse_inet_addr_def res_simps rib_simps sizes Let_def get_range_def
      from_octets_Panic split: if_splits prod.splits)

lemma kernel_addr_len_pos: "0 < kernel_addr_len pf l n"
  using roundup_ge(2) [of l] by (auto simp: kernel_addr_len_def)

lemma kernel_addr_no_Panic:
  assumes "0 < l" and "l \<le> length b"
  shows "kernel_addr pf (lc_af_unspec (bp_libc pf)) b0 l b \<noteq> Panic"
proof -
  have octets: "length octets = 4" if "kernel_octets 4 4 l b = Ok octets" for octets
    using that assms by (auto simp: kernel_octets_def res_simps copy_into_def split: if_splits)
  have "kernel_octets 4 4 l b \<noteq> Panic"
    using assms by (auto simp: kernel_octets_def res_simps copy_into_def)
  then show ?thesis using families
    by (auto simp: kernel_addr_def res_simps get_range_def dest!: octets)
qed

lemma parse_kernel_inet_addr_no_Panic:
  "0 < length b \<Longrightarrow> parse_kernel_inet_addr pf (lc_af_unspec (bp_libc pf)) b \<noteq> Panic"
  using kernel_addr_no_Panic [OF kernel_addr_len_pos]
  by (auto simp: parse_kernel_inet_addr_def Let_def res_simps)

lemma parse_one_addr_no_Panic:
  assumes "2 \<le> length b"
  shows "parse_one_addr pf (parse_kernel_inet_addr pf) i b \<noteq> Panic"
proof -
  have len: "l \<le> length b" if "parse_kernel_inet_addr pf af b = Ok (l, a)" for af l a
  proof -
    have "l \<le> kernel_addr_len pf l (length b)"
      using roundup_ge(1) [of l] by (simp add: kernel_addr_len_def)
    then show ?thesis using that by (auto simp: parse_kernel_inet_addr_def Let_def res_simps)
  qed
  have "parse_kernel_inet_addr pf (lc_af_unspec (bp_libc pf)) b \<noteq> Panic"
    using assms by (intro parse_kernel_inet_addr_no_Panic) auto
  then show ?thesis
    using assms parse_link_addr_no_Panic parse_inet_addr_no_Panic parse_default_addr_no_Panic
    by (auto simp: parse_one_addr_def Let_def res_simps rib_simps split: if_splits dest!: len)
qed

lemma parse_addrs_no_Panic: "parse_addrs pf attrs (parse_kernel_inet_addr pf) data \<noteq> Panic"
proof -
  have "parse_addrs_loop pf (parse_kernel_inet_addr pf) attrs n i b \<noteq> Panic" for n i b
  proof (induction n arbitrary: i b)
    case (Suc n)
    then show ?case using parse_one_addr_no_Panic [of b] roundup_zero(2)
      by (auto simp: res_simps)
  qed simp
  then show ?thesis by (simp add: parse_addrs_def)
qed

end

end
