(* ===== verification/Linux_Routes.thy ===== *)
theory Linux_Routes
  imports Ip_Addr "HOL-Library.Sublist"
begin

text \<open>
  How Linux and Android find the interface of the default route,
  \<^verbatim>\<open>netwatch/src/interfaces/linux.rs\<close>: the parser of \<^verbatim>\<open>/proc/net/route\<close>, the netlink query
  behind it, and the parser of Android's \<^verbatim>\<open>ip route\<close>. What the system answers (the lines of
  the file, the output of a command, the replies to a netlink request) is an argument; the errors of
  the system are opaque values.
\<close>

section \<open>Strings\<close>

text \<open>\<^verbatim>\<open>str::contains\<close>, \<^verbatim>\<open>split_ascii_whitespace\<close> and \<^verbatim>\<open>lines\<close> of the standard library. A line
  ends with a line feed, which a carriage return may precede.\<close>

fun str_contains :: "string \<Rightarrow> string \<Rightarrow> bool" where
  "str_contains pat [] \<longleftrightarrow> pat = []"
| "str_contains pat (c # s) \<longleftrightarrow> prefix pat (c # s) \<or> str_contains pat s"

definition is_ascii_whitespace :: "char \<Rightarrow> bool" where
  "is_ascii_whitespace c \<longleftrightarrow> c = CHR '' '' \<or> c = CHR 0x09 \<or> c = CHR 0x0A \<or> c = CHR 0x0C \<or> c = CHR 0x0D"

lemma dropWhile_head: "dropWhile P s = c # t \<Longrightarrow> \<not> P c \<and> length t < length s"
  by (induction s) (auto split: if_splits)

function split_ascii_whitespace :: "string \<Rightarrow> string list" where
  "split_ascii_whitespace s =
     (case dropWhile is_ascii_whitespace s of
        [] \<Rightarrow> []
      | t \<Rightarrow> takeWhile (\<lambda>c. \<not> is_ascii_whitespace c) t
             # split_ascii_whitespace (dropWhile (\<lambda>c. \<not> is_ascii_whitespace c) t))"
  by auto

termination
proof (relation "measure length")
  fix s c t
  assume "dropWhile is_ascii_whitespace s = c # t"
  from dropWhile_head [OF this] show
    "(dropWhile (\<lambda>c. \<not> is_ascii_whitespace c) (c # t), s) \<in> measure length"
    using length_dropWhile_le [of "\<lambda>c. \<not> is_ascii_whitespace c" t] by simp
qed simp

declare split_ascii_whitespace.simps [simp del]

definition strip_cr :: "string \<Rightarrow> string" where
  "strip_cr l = (if l \<noteq> [] \<and> last l = CHR 0x0D then butlast l else l)"

function str_lines :: "string \<Rightarrow> string list" where
  "str_lines s =
     (if s = [] then []
      else case dropWhile (\<lambda>c. c \<noteq> CHR 0x0A) s of
          [] \<Rightarrow> [s]
        | _ # rest \<Rightarrow> strip_cr (takeWhile (\<lambda>c. c \<noteq> CHR 0x0A) s) # str_lines rest)"
  by auto

termination by (relation "measure length") (auto dest: dropWhile_head)

declare str_lines.simps [simp del]

section \<open>The file of routes\<close>

datatype 'x linux_error =
    Lx_Io 'x
  | NoResponse
  | InterfaceNotFound
  | MissingIfaceField
  | MissingDestinationField
  | MissingMaskField
  | Lx_Netlink 'x
  | UnexpectedNetlinkMessage
  | NetlinkErrorMessage 'x

record default_route_details = interface_name :: string

definition zero_addr :: string where "zero_addr = ''00000000''"

text \<open>The body of the loop for one line: the default route, or \<open>None\<close> to go on.\<close>

definition proc_line :: "string \<Rightarrow> (default_route_details option, 'x linux_error) res" where
  "proc_line line =
     (if \<not> str_contains zero_addr line then Ok None
      else case split_ascii_whitespace line of
          [] \<Rightarrow> Err MissingIfaceField
        | iface # flds \<Rightarrow>
            (case flds of
               [] \<Rightarrow> Err MissingDestinationField
             | destination # flds \<Rightarrow>
                 if length flds \<le> 5 then Err MissingMaskField
                 else let mask_field = flds ! 5 in
                   if destination = zero_addr \<and> mask_field = zero_addr
                   then Ok (Some \<lparr>interface_name = iface\<rparr>)
                   else Ok None))"

primrec proc_loop :: "(string, 'x) res list \<Rightarrow> (default_route_details option, 'x linux_error) res" where
  "proc_loop [] = Ok None"
| "proc_loop (next_line # lines) =
     bind_res (map_err Lx_Io next_line) (\<lambda>line.
     bind_res (proc_line line) (\<lambda>found. case found of Some d \<Rightarrow> Ok (Some d) | None \<Rightarrow> proc_loop lines))"

definition default_route_proc ::
  "((string, 'x) res list, 'x) res \<Rightarrow> (default_route_details option, 'x linux_error) res" where
  "default_route_proc file = bind_res (map_err Lx_Io file) proc_loop"

section \<open>Netlink\<close>

datatype address_family = Family_Inet | Family_Inet6

datatype rt_table = RT_TABLE_MAIN | Other_table
datatype rt_protocol = Proto_Static | Other_protocol
datatype rt_scope = Scope_Universe | Other_scope
datatype rt_kind = Kind_Unicast | Other_kind

record route_header =
  rh_table :: rt_table
  rh_protocol :: rt_protocol
  rh_scope :: rt_scope
  rh_kind :: rt_kind
  rh_address_family :: address_family

record nl_flags =
  nlm_f_request :: bool
  nlm_f_dump :: bool

datatype rtnl_request = GetRoute route_header nl_flags | GetLink u32 nl_flags

datatype rt_attribute = Gateway ip_addr | Oif u32 | Other_rt_attribute

record rt_message =
  rm_destination_prefix_length :: u8
  rm_attributes :: "rt_attribute list"

datatype link_attribute = IfName string | Other_link_attribute

record link_message = lm_attributes :: "link_attribute list"

datatype 'x nl_reply = ReplyRoute rt_message | ReplyLink link_message | ReplyError 'x | ReplyOther

text \<open>The connection: what a request is answered with, in order, or why it could not be sent.\<close>

type_synonym 'x nl_handle = "rtnl_request \<Rightarrow> ('x nl_reply list, 'x) res"

text \<open>The macro \<^verbatim>\<open>try_rtnl!\<close> for either kind of reply, and the streams of replies it makes.\<close>

fun try_rtnl_route :: "'x nl_reply \<Rightarrow> (rt_message, 'x linux_error) res" where
  "try_rtnl_route (ReplyRoute msg) = Ok msg"
| "try_rtnl_route (ReplyError err) = Err (NetlinkErrorMessage err)"
| "try_rtnl_route _ = Err UnexpectedNetlinkMessage"

fun try_rtnl_link :: "'x nl_reply \<Rightarrow> (link_message, 'x linux_error) res" where
  "try_rtnl_link (ReplyLink msg) = Ok msg"
| "try_rtnl_link (ReplyError err) = Err (NetlinkErrorMessage err)"
| "try_rtnl_link _ = Err UnexpectedNetlinkMessage"

definition get_route :: "'x nl_handle \<Rightarrow> route_header \<Rightarrow> (rt_message, 'x linux_error) res list" where
  "get_route handle message =
     (case handle (GetRoute message \<lparr>nlm_f_request = True, nlm_f_dump = True\<rparr>) of
        Ok response \<Rightarrow> map try_rtnl_route response
      | Err e \<Rightarrow> [Err (Lx_Netlink e)]
      | Panic \<Rightarrow> [Panic])"

definition create_route_message :: "address_family \<Rightarrow> route_header" where
  "create_route_message family =
     \<lparr>rh_table = RT_TABLE_MAIN, rh_protocol = Proto_Static, rh_scope = Scope_Universe,
      rh_kind = Kind_Unicast, rh_address_family = family\<rparr>"

definition get_link :: "'x nl_handle \<Rightarrow> u32 \<Rightarrow> (link_message, 'x linux_error) res list" where
  "get_link handle message =
     (case handle (GetLink message \<lparr>nlm_f_request = True, nlm_f_dump = False\<rparr>) of
        Ok response \<Rightarrow> map try_rtnl_link response
      | Err e \<Rightarrow> [Err (Lx_Netlink e)]
      | Panic \<Rightarrow> [Panic])"

definition create_link_get_message :: "u32 \<Rightarrow> u32" where
  "create_link_get_message index = index"

fun first_if_name :: "link_attribute list \<Rightarrow> (string, 'x linux_error) res" where
  "first_if_name [] = Err InterfaceNotFound"
| "first_if_name (IfName name # nlas) = Ok name"
| "first_if_name (_ # nlas) = first_if_name nlas"

definition iface_by_index :: "'x nl_handle \<Rightarrow> u32 \<Rightarrow> (string, 'x linux_error) res" where
  "iface_by_index handle index =
     (case get_link handle (create_link_get_message index) of
        [] \<Rightarrow> Err NoResponse
      | msg # _ \<Rightarrow> bind_res msg (\<lambda>msg. first_if_name (lm_attributes msg)))"

fun is_gateway :: "rt_attribute \<Rightarrow> bool" where
  "is_gateway (Gateway _) \<longleftrightarrow> True"
| "is_gateway _ \<longleftrightarrow> False"

fun first_oif :: "rt_attribute list \<Rightarrow> u32 option" where
  "first_oif [] = None"
| "first_oif (Oif index # attrs) = Some index"
| "first_oif (_ # attrs) = first_oif attrs"

fun route_loop ::
  "'x nl_handle \<Rightarrow> (rt_message, 'x linux_error) res list \<Rightarrow> ((string \<times> u32) option, 'x linux_error) res"
where
  "route_loop handle [] = Ok None"
| "route_loop handle (route # routes) =
     bind_res route (\<lambda>route.
       if \<not> list_ex is_gateway (rm_attributes route) then route_loop handle routes
       else if rm_destination_prefix_length route > 0 then route_loop handle routes
       else case first_oif (rm_attributes route) of
           Some index \<Rightarrow>
             if index = 0 then route_loop handle routes
             else bind_res (iface_by_index handle index) (\<lambda>name. Ok (Some (name, index)))
         | None \<Rightarrow> route_loop handle routes)"

definition default_route_netlink_family ::
  "'x nl_handle \<Rightarrow> address_family \<Rightarrow> ((string \<times> u32) option, 'x linux_error) res" where
  "default_route_netlink_family handle family =
     route_loop handle (get_route handle (create_route_message family))"

text \<open>\<open>conn\<close> is the result of \<^verbatim>\<open>netlink_proto::new_connection\<close>.\<close>

definition sane_default_route ::
  "('x nl_handle, 'x) res \<Rightarrow> (default_route_details option, 'x linux_error) res" where
  "sane_default_route conn =
     bind_res (map_err Lx_Io conn) (\<lambda>handle.
     bind_res (default_route_netlink_family handle Family_Inet) (\<lambda>dflt.
     bind_res (case dflt of
         Some d \<Rightarrow> Ok (Some d)
       | None \<Rightarrow> default_route_netlink_family handle Family_Inet6) (\<lambda>dflt.
     Ok (map_option (\<lambda>(name, index). \<lparr>interface_name = name\<rparr>) dflt))))"

section \<open>Android\<close>

text \<open>The rest of the iterator after the first \<^verbatim>\<open>dev\<close>.\<close>

fun after_dev :: "string list \<Rightarrow> string list option" where
  "after_dev [] = None"
| "after_dev (f # flds) = (if f = ''dev'' then Some flds else after_dev flds)"

fun android_lines :: "string list \<Rightarrow> string option" where
  "android_lines [] = None"
| "android_lines (line # lines) =
     (if \<not> prefix ''default via'' line then android_lines lines
      else case after_dev (split_ascii_whitespace line) of
          Some flds \<Rightarrow> (case flds of [] \<Rightarrow> None | iface # _ \<Rightarrow> Some iface)
        | None \<Rightarrow> android_lines lines)"

definition parse_android_ip_route :: "string \<Rightarrow> string option" where
  "parse_android_ip_route stdout = android_lines (str_lines stdout)"

definition ip_paths :: "string list" where
  "ip_paths = [''/system/bin/ip'', ''/system/xbin/ip'', ''ip'']"

text \<open>\<open>cmd path\<close> is the standard output of the command, already decoded, or the error of starting it;
  \<open>not_found\<close> is the error returned when no command could be started.\<close>

primrec android_paths ::
  "'x \<Rightarrow> (string \<Rightarrow> (string, 'x) res) \<Rightarrow> string list \<Rightarrow> (default_route_details option, 'x linux_error) res" where
  "android_paths not_found cmd [] = Err (Lx_Io not_found)"
| "android_paths not_found cmd (path # paths) =
     (case cmd path of
        Ok stdout \<Rightarrow> Ok (map_option (\<lambda>iface. \<lparr>interface_name = iface\<rparr>) (parse_android_ip_route stdout))
      | Err err \<Rightarrow> android_paths not_found cmd paths
      | Panic \<Rightarrow> Panic)"

definition android_default_route ::
  "'x \<Rightarrow> (string \<Rightarrow> (string, 'x) res) \<Rightarrow> (default_route_details option, 'x linux_error) res" where
  "android_default_route not_found cmd = android_paths not_found cmd ip_paths"

section \<open>The default route\<close>

text \<open>\<open>fallback\<close> is the platform's second source, netlink or the \<^verbatim>\<open>ip\<close> command.\<close>

definition linux_default_route ::
  "((string, 'x) res list, 'x) res \<Rightarrow> (default_route_details option, 'x linux_error) res
     \<Rightarrow> default_route_details option" where
  "linux_default_route file fallback =
     (case default_route_proc file of
        Ok (Some route) \<Rightarrow> Some route
      | _ \<Rightarrow> (case fallback of Ok res \<Rightarrow> res | _ \<Rightarrow> None))"

section \<open>Facts\<close>

text \<open>A field of a line: not empty, no white space.\<close>

definition is_word :: "string \<Rightarrow> bool" where
  "is_word w \<longleftrightarrow> w \<noteq> [] \<and> (\<forall>c\<in>set w. \<not> is_ascii_whitespace c)"

text \<open>The fields of a line, separated by tabs.\<close>

fun tabbed :: "string list \<Rightarrow> string" where
  "tabbed [] = []"
| "tabbed [w] = w"
| "tabbed (w # ws) = w @ CHR 0x09 # tabbed ws"

lemma split_word:
  assumes "is_word w" and "s = [] \<or> is_ascii_whitespace (hd s)"
  shows "split_ascii_whitespace (w @ s) = w # split_ascii_whitespace s"
proof -
  obtain c w' where w: "w = c # w'" "\<not> is_ascii_whitespace c"
    using assms(1) by (cases w) (auto simp: is_word_def)
  have "takeWhile (\<lambda>c. \<not> is_ascii_whitespace c) (w @ s) = w"
    and "dropWhile (\<lambda>c. \<not> is_ascii_whitespace c) (w @ s) = s"
    using assms by (auto simp: is_word_def takeWhile_append dropWhile_append takeWhile_eq_Nil_iff
        dropWhile_eq_self_iff)
  then show ?thesis using w by (subst split_ascii_whitespace.simps) simp
qed

lemma split_whitespace_Cons:
  "is_ascii_whitespace c \<Longrightarrow> split_ascii_whitespace (c # s) = split_ascii_whitespace s"
  by (subst (1 2) split_ascii_whitespace.simps) simp

lemma split_tabbed: "list_all is_word ws \<Longrightarrow> split_ascii_whitespace (tabbed ws) = ws"
proof (induction ws rule: tabbed.induct)
  case 1
  then show ?case by (simp add: split_ascii_whitespace.simps)
next
  case (2 w)
  then show ?case using split_word [of w "[]"] by (simp add: split_ascii_whitespace.simps [of "[]"])
next
  case (3 w v ws)
  have tab: "is_ascii_whitespace (CHR 0x09)" by (simp add: is_ascii_whitespace_def)
  then show ?case using 3 split_word [of w "CHR 0x09 # tabbed (v # ws)"]
    by (simp add: split_whitespace_Cons)
qed

lemma str_contains_append: "str_contains pat (u @ pat @ v)"
proof (induction u)
  case Nil
  have "prefix pat (pat @ v)" by simp
  then show ?case by (cases "pat @ v") auto
qed simp

lemma tabbed_split: "w \<in> set ws \<Longrightarrow> \<exists>u v. tabbed ws = u @ w @ v"
proof (induction ws rule: tabbed.induct)
  case (2 w')
  then show ?case by (intro exI [of _ "[]"] exI [of _ "[]"]) simp
next
  case (3 w' v ws)
  show ?case
  proof (cases "w = w'")
    case True
    then show ?thesis by (intro exI [of _ "[]"] exI [of _ "CHR 0x09 # tabbed (v # ws)"]) simp
  next
    case False
    then obtain u t where "tabbed (v # ws) = u @ w @ t" using 3 by auto
    then show ?thesis by (intro exI [of _ "w' @ CHR 0x09 # u"] exI [of _ t]) simp
  qed
qed simp

definition is_default_row :: "string list \<Rightarrow> bool" where
  "is_default_row ws \<longleftrightarrow> ws ! 1 = zero_addr \<and> ws ! 7 = zero_addr"

lemma proc_line_tabbed:
  assumes "list_all is_word ws" and "8 \<le> length ws"
  shows "proc_line (tabbed ws) =
    Ok (if is_default_row ws then Some \<lparr>interface_name = hd ws\<rparr> else None)"
proof -
  obtain iface rest where ws: "ws = iface # rest" using assms(2) by (cases ws) auto
  obtain dest rest' where rest: "rest = dest # rest'" using assms(2) ws by (cases rest) auto
  have len: "5 < length rest'" using assms(2) ws rest by simp
  have row: "is_default_row ws \<longleftrightarrow> dest = zero_addr \<and> rest' ! 5 = zero_addr"
    using len by (simp add: is_default_row_def ws rest eval_nat_numeral)
  have "str_contains zero_addr (tabbed ws)" if "is_default_row ws"
  proof -
    have "zero_addr \<in> set ws" using that unfolding row by (simp add: ws rest)
    then show ?thesis using tabbed_split str_contains_append by metis
  qed
  moreover have "split_ascii_whitespace (tabbed ws) = iface # dest # rest'"
    using split_tabbed [OF assms(1)] ws rest by simp
  ultimately show ?thesis using row len ws by (auto simp: proc_line_def Let_def)
qed

text \<open>The first route of a stream the query accepts, when every reply is a route.\<close>

definition is_default_rt :: "rt_message \<Rightarrow> bool" where
  "is_default_rt m \<longleftrightarrow> list_ex is_gateway (rm_attributes m) \<and> rm_destination_prefix_length m = 0
     \<and> (\<exists>i. first_oif (rm_attributes m) = Some i \<and> i \<noteq> 0)"

lemma route_loop_find:
  "route_loop handle (map Ok ms) =
     (case List.find is_default_rt ms of
        None \<Rightarrow> Ok None
      | Some m \<Rightarrow> bind_res (iface_by_index handle (the (first_oif (rm_attributes m))))
          (\<lambda>name. Ok (Some (name, the (first_oif (rm_attributes m))))))"
proof (induction ms)
  case (Cons m ms)
  show ?case
  proof (cases "is_default_rt m")
    case True
    then show ?thesis by (auto simp: is_default_rt_def)
  next
    case False
    then have "route_loop handle (map Ok (m # ms)) = route_loop handle (map Ok ms)"
      by (auto simp: is_default_rt_def word_greater_zero_iff split: option.splits)
    then show ?thesis using Cons False by simp
  qed
qed simp

section \<open>Properties\<close>

text \<open>C34: \<^verbatim>\<open>/proc/net/route\<close> is understood: for every table of rows of at least eight fields,
  separated by tabs, the result is the interface (first field) of the first row whose destination
  (second) and mask (eighth) are both zero, and no interface if there is none.\<close>

theorem default_route_proc_table:
  assumes "\<forall>ws\<in>set rows. list_all is_word ws \<and> 8 \<le> length ws"
  shows "default_route_proc (Ok (map (\<lambda>ws. Ok (tabbed ws)) rows)) =
    Ok (map_option (\<lambda>ws. \<lparr>interface_name = hd ws\<rparr>) (List.find is_default_row rows))"
proof -
  have "proc_loop (map (\<lambda>ws. Ok (tabbed ws)) rows) =
      Ok (map_option (\<lambda>ws. \<lparr>interface_name = hd ws\<rparr>) (List.find is_default_row rows))"
    using assms by (induction rows) (auto simp: proc_line_tabbed)
  then show ?thesis by (simp add: default_route_proc_def)
qed

definition sample_rows :: "string list list" where
  "sample_rows =
     [[''Iface'', ''Destination'', ''Gateway'', ''Flags'', ''RefCnt'', ''Use'', ''Metric'', ''Mask''],
      [''docker0'', ''000011AC'', ''00000000'', ''0001'', ''0'', ''0'', ''0'', ''0000FFFF''],
      [''eth0'', ''00000000'', ''0100A8C0'', ''0003'', ''0'', ''0'', ''100'', ''00000000'', ''0'']]"

theorem default_route_proc_table_witness:
  "default_route_proc (Ok (map (\<lambda>ws. Ok (tabbed ws)) sample_rows) :: ((string, unit) res list, unit) res)
   = Ok (Some \<lparr>interface_name = ''eth0''\<rparr>)"
  using default_route_proc_table [of sample_rows]
  by (simp add: sample_rows_def is_word_def is_ascii_whitespace_def is_default_row_def zero_addr_def)

text \<open>C35: the netlink fallback. When the table has no default route or cannot be read, and netlink
  answers with routes only, the interface reported is the one of the first IPv4 route with a
  gateway, an empty destination prefix and a non-zero outgoing interface, else of the first such
  IPv6 route, under the name the link query returns.\<close>

theorem linux_default_route_netlink:
  assumes "\<not> (\<exists>d. default_route_proc file = Ok (Some d))"
    and "\<And>fam. handle (GetRoute (create_route_message fam) \<lparr>nlm_f_request = True, nlm_f_dump = True\<rparr>)
           = Ok (map ReplyRoute (routes fam))"
    and "\<And>i. iface_by_index handle i = Ok (name i)"
  shows "linux_default_route file (sane_default_route (Ok handle)) =
    map_option (\<lambda>m. \<lparr>interface_name = name (the (first_oif (rm_attributes m)))\<rparr>)
      (case List.find is_default_rt (routes Family_Inet) of
         Some m \<Rightarrow> Some m | None \<Rightarrow> List.find is_default_rt (routes Family_Inet6))"
proof -
  have "default_route_netlink_family handle fam = Ok (map_option
      (\<lambda>m. (name (the (first_oif (rm_attributes m))), the (first_oif (rm_attributes m))))
      (List.find is_default_rt (routes fam)))" for fam
    using assms(3) route_loop_find [of handle "routes fam"]
    by (simp add: default_route_netlink_family_def get_route_def assms(2) o_def split: option.splits)
  then have "sane_default_route (Ok handle) = Ok (map_option
      (\<lambda>m. \<lparr>interface_name = name (the (first_oif (rm_attributes m)))\<rparr>)
      (case List.find is_default_rt (routes Family_Inet) of
         Some m \<Rightarrow> Some m | None \<Rightarrow> List.find is_default_rt (routes Family_Inet6)))"
    by (simp add: sane_default_route_def option.map_comp o_def split: option.splits)
  then show ?thesis using assms(1)
    by (auto simp: linux_default_route_def split: res.splits option.splits)
qed

definition sample_handle :: "unit nl_handle" where
  "sample_handle req =
     (case req of
        GetRoute h _ \<Rightarrow> Ok (map ReplyRoute (if rh_address_family h = Family_Inet then []
          else [\<lparr>rm_destination_prefix_length = 0,
                 rm_attributes = [Gateway (V6 ipv6_localhost), Oif 3]\<rparr>]))
      | GetLink _ _ \<Rightarrow> Ok [ReplyLink \<lparr>lm_attributes = [Other_link_attribute, IfName ''wlan0'']\<rparr>])"

theorem linux_default_route_netlink_witness:
  "linux_default_route (Ok []) (sane_default_route (Ok sample_handle)) = Some \<lparr>interface_name = ''wlan0''\<rparr>"
proof -
  let ?routes = "\<lambda>fam. if fam = Family_Inet then []
    else [\<lparr>rm_destination_prefix_length = 0, rm_attributes = [Gateway (V6 ipv6_localhost), Oif 3]\<rparr>]"
  have "linux_default_route (Ok []) (sane_default_route (Ok sample_handle)) =
    map_option (\<lambda>m. \<lparr>interface_name = ''wlan0''\<rparr>)
      (case List.find is_default_rt (?routes Family_Inet) of
         Some m \<Rightarrow> Some m | None \<Rightarrow> List.find is_default_rt (?routes Family_Inet6))"
    by (rule linux_default_route_netlink)
      (simp_all add: default_route_proc_def sample_handle_def create_route_message_def
        iface_by_index_def get_link_def create_link_get_message_def)
  then show ?thesis by (simp add: is_default_rt_def)
qed

text \<open>The line the parser of Android's routes is tested with.\<close>

lemma parse_android_ip_route_example:
  "parse_android_ip_route ''default via 10.0.2.2. dev radio0 table 1016 proto static mtu 1500''
   = Some ''radio0''"
  by code_simp

end
