(* ===== verification/Bsd_Route.thy ===== *)
theory Bsd_Route
  imports Bsd_Sockaddr Netdev Linux_Routes
begin

unbundle bit_operations_syntax

text \<open>
  The parser of the routing messages of the BSD systems and the search for the default route, the
  second half of \<^verbatim>\<open>netwatch/src/interfaces/bsd.rs\<close>. The calls to \<^verbatim>\<open>sysctl\<close> are arguments. The
  loop over a routing information base is shown to refine a specification on frames; a parsed
  message has the version of the platform and the kind its type stands for.
\<close>

section \<open>Messages\<close>

record bsd_route_message =
  rm_version :: int
  rm_type :: int
  rm_flags :: u32
  rm_index :: u16
  rm_id :: int
  rm_seq :: u32
  rm_error :: "int option"
  rm_addrs :: "rt_addr list"
  rm_ext_off :: nat

record interface_message =
  im_version :: int
  im_type :: int
  im_flags :: int
  im_index :: int
  im_name :: "bytes option"
  im_addr_rtax_ifp :: rt_addr
  im_ext_off :: nat

record interface_addr_message =
  iam_version :: int
  iam_type :: int
  iam_flags :: int
  iam_index :: int
  iam_addrs :: "rt_addr list"

record interface_announce_message =
  ian_version :: int
  ian_type :: int
  ian_index :: int
  ian_name :: bytes
  ian_what :: int

text \<open>Messages about multicast addresses have the fields of those about addresses.\<close>

datatype wire_message =
    WRoute bsd_route_message
  | WInterface interface_message
  | WInterfaceAddr interface_addr_message
  | WInterfaceMulticastAddr interface_addr_message
  | WInterfaceAnnounce interface_announce_message

text \<open>The checks every kind of message starts with.\<close>

definition check_header :: "bsd_platform \<Rightarrow> wire_format \<Rightarrow> bytes \<Rightarrow> (unit, route_error) res" where
  "check_header pf w data =
     bind_res (ensure (length data \<ge> wf_body_off w) MessageTooShort) (\<lambda>_.
     bind_res (u16_from_ne_range pf data 0 2) (\<lambda>l.
     ensure (length data \<ge> unat l) InvalidMessage))"

definition errno_option :: "u32 \<Rightarrow> int option" where
  "errno_option errno = (if errno \<noteq> 0 then Some (sint errno) else None)"

definition parse_route :: "bsd_platform \<Rightarrow> wire_format \<Rightarrow> bytes \<Rightarrow> (wire_message option, route_error) res" where
  "parse_route pf w data =
     bind_res (check_header pf w data) (\<lambda>_.
     bind_res (u32_from_ne_range pf data 12 16) (\<lambda>attrs.
     bind_res (ensure (0 \<le> sint attrs) InvalidMessage) (\<lambda>_.
     bind_res (slice_from (wf_body_off w) data) (\<lambda>body.
     bind_res (parse_addrs pf attrs (parse_kernel_inet_addr pf) body) (\<lambda>addrs.
     bind_res (idx data 2) (\<lambda>version.
     bind_res (idx data 3) (\<lambda>typ.
     bind_res (u32_from_ne_range pf data 8 12) (\<lambda>flags.
     bind_res (u16_from_ne_range pf data 4 6) (\<lambda>index.
     bind_res (u32_from_ne_range pf data 16 20) (\<lambda>ident.
     bind_res (u32_from_ne_range pf data 20 24) (\<lambda>seq.
     bind_res (u32_from_ne_range pf data 28 32) (\<lambda>errno.
     Ok (Some (WRoute
       \<lparr>rm_version = uint version, rm_type = uint typ, rm_flags = flags, rm_index = index,
        rm_id = uint ident, rm_seq = seq, rm_error = errno_option errno, rm_addrs = addrs,
        rm_ext_off = wf_ext_off w\<rparr>))))))))))))))"

definition parse_route_openbsd ::
  "bsd_platform \<Rightarrow> wire_format \<Rightarrow> bytes \<Rightarrow> (wire_message option, route_error) res" where
  "parse_route_openbsd pf w data =
     bind_res (check_header pf w data) (\<lambda>_.
     bind_res (u16_from_ne_range pf data 4 6) (\<lambda>ll.
     bind_res (ensure (length data \<ge> unat ll) InvalidMessage) (\<lambda>_.
     bind_res (u32_from_ne_range pf data 12 16) (\<lambda>attrs.
     bind_res (slice_from (unat ll) data) (\<lambda>body.
     bind_res (parse_addrs pf attrs (parse_kernel_inet_addr pf) body) (\<lambda>addrs.
     bind_res (idx data 2) (\<lambda>version.
     bind_res (idx data 3) (\<lambda>typ.
     bind_res (u32_from_ne_range pf data 16 20) (\<lambda>flags.
     bind_res (u16_from_ne_range pf data 6 8) (\<lambda>index.
     bind_res (u32_from_ne_range pf data 24 28) (\<lambda>ident.
     bind_res (u32_from_ne_range pf data 28 32) (\<lambda>seq.
     bind_res (u32_from_ne_range pf data 32 36) (\<lambda>errno.
     Ok (Some (WRoute
       \<lparr>rm_version = uint version, rm_type = uint typ, rm_flags = flags, rm_index = index,
        rm_id = uint ident, rm_seq = seq, rm_error = errno_option errno, rm_addrs = addrs,
        rm_ext_off = wf_ext_off w\<rparr>)))))))))))))))"

definition parse_interface :: "bsd_platform \<Rightarrow> wire_format \<Rightarrow> bytes \<Rightarrow> (wire_message option, route_error) res" where
  "parse_interface pf w data =
     bind_res (check_header pf w data) (\<lambda>_.
     bind_res (u32_from_ne_range pf data 4 8) (\<lambda>attrs.
     if and attrs (rc_rta_ifp (bp_route pf)) = 0 then Ok None
     else
       bind_res (slice_from (wf_body_off w) data) (\<lambda>body.
       bind_res (parse_link_addr pf body) (\<lambda>addr.
       bind_res (idx data 2) (\<lambda>version.
       bind_res (idx data 3) (\<lambda>typ.
       bind_res (u32_from_ne_range pf data 8 12) (\<lambda>flags.
       bind_res (u16_from_ne_range pf data 12 14) (\<lambda>index.
       Ok (Some (WInterface
         \<lparr>im_version = uint version, im_type = uint typ, im_flags = as_isize pf flags,
          im_index = uint index, im_name = addr_name addr, im_addr_rtax_ifp = addr,
          im_ext_off = wf_ext_off w\<rparr>)))))))))) "

text \<open>\<open>index_at\<close> is where the interface index stands.\<close>

definition parse_addr_message ::
  "bsd_platform \<Rightarrow> wire_format \<Rightarrow> (interface_addr_message \<Rightarrow> wire_message) \<Rightarrow> nat \<Rightarrow> bytes
     \<Rightarrow> (wire_message option, route_error) res" where
  "parse_addr_message pf w con index_at data =
     bind_res (u32_from_ne_range pf data 4 8) (\<lambda>attrs.
     bind_res (slice_from (wf_body_off w) data) (\<lambda>body.
     bind_res (parse_addrs pf attrs (parse_kernel_inet_addr pf) body) (\<lambda>addrs.
     bind_res (idx data 2) (\<lambda>version.
     bind_res (idx data 3) (\<lambda>typ.
     bind_res (u32_from_ne_range pf data 8 12) (\<lambda>flags.
     bind_res (u16_from_ne_range pf data index_at (index_at + 2)) (\<lambda>index.
     Ok (Some (con
       \<lparr>iam_version = uint version, iam_type = uint typ, iam_flags = as_isize pf flags,
        iam_index = uint index, iam_addrs = addrs\<rparr>)))))))))"

definition parse_interface_addr ::
  "bsd_platform \<Rightarrow> wire_format \<Rightarrow> bytes \<Rightarrow> (wire_message option, route_error) res" where
  "parse_interface_addr pf w data =
     bind_res (check_header pf w data) (\<lambda>_.
     let index_at = (if bp_os pf = NetBSD then 16 else 12) in
     bind_res (u16_from_ne_range pf data index_at (index_at + 2)) (\<lambda>index.
     parse_addr_message pf w WInterfaceAddr index_at data))"

definition parse_interface_multicast_addr ::
  "bsd_platform \<Rightarrow> wire_format \<Rightarrow> bytes \<Rightarrow> (wire_message option, route_error) res" where
  "parse_interface_multicast_addr pf w data =
     bind_res (check_header pf w data) (\<lambda>_. parse_addr_message pf w WInterfaceMulticastAddr 12 data)"

text \<open>The loop that looks for the end of the name, over \<open>i\<close> in \<open>0..16\<close>.\<close>

primrec announce_name :: "bytes \<Rightarrow> nat \<Rightarrow> nat \<Rightarrow> (bytes, route_error) res" where
  "announce_name data 0 i = Ok []"
| "announce_name data (Suc n) i =
     bind_res (idx data (6 + i)) (\<lambda>c.
     if c \<noteq> 0 then announce_name data n (Suc i)
     else bind_res (slice 6 (6 + i) data) from_utf8)"

definition parse_interface_announce ::
  "bsd_platform \<Rightarrow> wire_format \<Rightarrow> bytes \<Rightarrow> (wire_message option, route_error) res" where
  "parse_interface_announce pf w data =
     bind_res (check_header pf w data) (\<lambda>_.
     bind_res (announce_name data 16 0) (\<lambda>name.
     bind_res (idx data 2) (\<lambda>version.
     bind_res (idx data 3) (\<lambda>typ.
     bind_res (u16_from_ne_range pf data 4 6) (\<lambda>index.
     bind_res (u16_from_ne_range pf data 22 24) (\<lambda>what.
     Ok (Some (WInterfaceAnnounce
       \<lparr>ian_version = uint version, ian_type = uint typ, ian_index = uint index, ian_name = name,
        ian_what = uint what\<rparr>))))))))"

definition wire_parse :: "bsd_platform \<Rightarrow> wire_format \<Rightarrow> bytes \<Rightarrow> (wire_message option, route_error) res" where
  "wire_parse pf w data =
     (case wf_typ w of
        MsgRoute \<Rightarrow> if bp_os pf = OpenBSD then parse_route_openbsd pf w data else parse_route pf w data
      | MsgInterface \<Rightarrow> parse_interface pf w data
      | MsgInterfaceAddr \<Rightarrow> parse_interface_addr pf w data
      | MsgInterfaceMulticastAddr \<Rightarrow> parse_interface_multicast_addr pf w data
      | MsgInterfaceAnnounce \<Rightarrow> parse_interface_announce pf w data)"

section \<open>Routing information bases\<close>

definition darwin_net_rt_stat :: int where "darwin_net_rt_stat = 4"
definition darwin_net_rt_trash :: int where "darwin_net_rt_trash = 5"
definition openbsd_net_rt_stats :: int where "openbsd_net_rt_stats = 5"
definition openbsd_net_rt_table :: int where "openbsd_net_rt_table = 5"

definition is_valid_rib_type :: "bsd_platform \<Rightarrow> int \<Rightarrow> bool" where
  "is_valid_rib_type pf typ \<longleftrightarrow>
     (case bp_os pf of
        MacOS \<Rightarrow> \<not> (typ = darwin_net_rt_stat \<or> typ = darwin_net_rt_trash)
      | FreeBSD \<Rightarrow> True
      | NetBSD \<Rightarrow> True
      | OpenBSD \<Rightarrow> \<not> (typ = openbsd_net_rt_stats \<or> typ = openbsd_net_rt_table))"

text \<open>One message at the front of a non-empty base: \<open>None\<close> when it is skipped, and its length.\<close>

definition rib_step :: "bsd_platform \<Rightarrow> bytes \<Rightarrow> (wire_message option \<times> nat, route_error) res" where
  "rib_step pf b =
     bind_res (u16_from_ne_range pf b 0 2) (\<lambda>l.
     bind_res (ensure (l \<noteq> 0) InvalidMessage) (\<lambda>_.
     bind_res (ensure (length b \<ge> unat l) MessageTooShort) (\<lambda>_.
     bind_res (idx b 2) (\<lambda>version.
     if uint version \<noteq> rs_rtm_version (bp_stack pf) then Ok (None, unat l)
     else
       bind_res (idx b 3) (\<lambda>typ.
       case rs_wire_formats (bp_stack pf) (uint typ) of
         Some w \<Rightarrow>
           bind_res (slice_to (unat l) b) (\<lambda>data.
           bind_res (wire_parse pf w data) (\<lambda>m. Ok (m, unat l)))
       | None \<Rightarrow> Ok (None, unat l))))))"

lemma rib_step_progress: "rib_step pf b = Ok (m, l) \<Longrightarrow> 0 < l \<and> l \<le> length b"
  by (auto simp: rib_step_def res_simps unat_gt_0 split: if_splits option.splits)

text \<open>The loop, with the messages so far and the two counters.\<close>

function rib_loop ::
  "bsd_platform \<Rightarrow> bytes \<Rightarrow> wire_message list \<Rightarrow> nat \<Rightarrow> nat
     \<Rightarrow> (wire_message list \<times> nat \<times> nat, route_error) res" where
  "rib_loop pf b msgs nmsgs nskips =
     (if length b > 4 then
        case rib_step pf b of
          Ok (Some m, l) \<Rightarrow> rib_loop pf (drop l b) (msgs @ [m]) (Suc nmsgs) nskips
        | Ok (None, l) \<Rightarrow> rib_loop pf (drop l b) msgs (Suc nmsgs) (Suc nskips)
        | Err e \<Rightarrow> Err e
        | Panic \<Rightarrow> Panic
      else Ok (msgs, nmsgs, nskips))"
  by pat_completeness auto

termination
  by (relation "measure (\<lambda>(pf, b, msgs, nmsgs, nskips). length b)")
    (auto dest: rib_step_progress)

declare rib_loop.simps [simp del]

definition parse_rib :: "bsd_platform \<Rightarrow> int \<Rightarrow> bytes \<Rightarrow> (wire_message list, route_error) res" where
  "parse_rib pf typ data =
     bind_res (ensure (is_valid_rib_type pf typ) (InvalidRibType typ)) (\<lambda>_.
     bind_res (rib_loop pf data [] 0 0) (\<lambda>(msgs, nmsgs, nskips).
     bind_res (ensure (nmsgs = length msgs + nskips) MessageMismatch) (\<lambda>_. Ok msgs)))"

section \<open>Fetching the table\<close>

text \<open>\<^verbatim>\<open>libc::sysctl\<close> by its arguments and the round: without a buffer it returns the size needed,
  with a zeroed buffer of the given size the buffer as the kernel left it and the bytes written. An
  error is the error number.\<close>

record sysctl =
  sc_size :: "int list \<Rightarrow> nat \<Rightarrow> (nat, int) res"
  sc_read :: "int list \<Rightarrow> nat \<Rightarrow> nat \<Rightarrow> (bytes \<times> nat, int) res"

definition max_tries :: nat where "max_tries = 3"

function fetch_loop :: "bsd_platform \<Rightarrow> sysctl \<Rightarrow> int list \<Rightarrow> nat \<Rightarrow> (bytes, route_error) res" where
  "fetch_loop pf sc mib round0 =
     (let round = Suc round0 in
      case sc_size sc mib round of
        Err e \<Rightarrow> Err (RouteIo e)
      | Panic \<Rightarrow> Panic
      | Ok n \<Rightarrow>
          if n = 0 then Ok []
          else case sc_read sc mib round n of
              Ok (b, n') \<Rightarrow> Ok (take n' b)
            | Panic \<Rightarrow> Panic
            | Err e \<Rightarrow>
                if e = lc_enomem (bp_libc pf) \<and> round < max_tries then fetch_loop pf sc mib round
                else Err (RouteIo e))"
  by pat_completeness auto

termination by (relation "measure (\<lambda>(pf, sc, mib, round). max_tries - round)") auto

declare fetch_loop.simps [simp del]

definition fetch_rib ::
  "bsd_platform \<Rightarrow> sysctl \<Rightarrow> int \<Rightarrow> int \<Rightarrow> int \<Rightarrow> (bytes, route_error) res" where
  "fetch_rib pf sc af typ arg =
     fetch_loop pf sc [lc_ctl_net (bp_libc pf), lc_af_route (bp_libc pf), 0, af, typ, arg] 0"

definition darwin_net_rt_dump2 :: int where "darwin_net_rt_dump2 = 7"

definition fetch_routing_table :: "bsd_platform \<Rightarrow> sysctl \<Rightarrow> bytes option" where
  "fetch_routing_table pf sc =
     (case fetch_rib pf sc (lc_af_unspec (bp_libc pf))
         (if bp_os pf = MacOS then darwin_net_rt_dump2 else lc_net_rt_dump (bp_libc pf)) 0 of
        Ok rib \<Rightarrow> Some rib
      | _ \<Rightarrow> None)"

definition route_messages :: "wire_message list \<Rightarrow> bsd_route_message list" where
  "route_messages msgs = List.map_filter (\<lambda>m. case m of WRoute r \<Rightarrow> Some r | _ \<Rightarrow> None) msgs"

definition parse_routing_table ::
  "bsd_platform \<Rightarrow> bytes \<Rightarrow> (bsd_route_message list option, route_error) res" where
  "parse_routing_table pf rib =
     (case parse_rib pf (if bp_os pf = MacOS then lc_net_rt_iflist2 (bp_libc pf)
                         else lc_net_rt_iflist (bp_libc pf)) rib of
        Ok msgs \<Rightarrow> Ok (Some (route_messages msgs))
      | Err e \<Rightarrow> Ok None
      | Panic \<Rightarrow> Panic)"

section \<open>The default route\<close>

definition v4_default :: bytes where "v4_default = replicate 4 0"
definition v6_default :: bytes where "v6_default = replicate 16 0"

definition is_default_gateway :: "bsd_platform \<Rightarrow> bsd_route_message \<Rightarrow> bool" where
  "is_default_gateway pf rm \<longleftrightarrow>
     (let rc = bp_route pf in
      if and (rm_flags rm) (rc_rtf_gateway rc) = 0 then False
      else if bp_os pf = MacOS \<and> and (rm_flags rm) (lc_rtf_ifscope (bp_libc pf)) \<noteq> 0 then False
      else if length (rm_addrs rm) \<le> rc_rtax_netmask rc then False
      else if length (rm_addrs rm) \<le> rc_rtax_dst rc then False
      else case (rm_addrs rm ! rc_rtax_dst rc, rm_addrs rm ! rc_rtax_netmask rc) of
          (Addr_Inet4 dst, Addr_Inet4 nm) \<Rightarrow> octets4 dst = v4_default \<and> octets4 nm = v4_default
        | (Addr_Inet6 dst _, Addr_Inet6 nm _) \<Rightarrow> octets6 dst = v6_default \<and> octets6 nm = v6_default
        | _ \<Rightarrow> False)"

fun router_loop :: "bsd_platform \<Rightarrow> bsd_route_message list \<Rightarrow> ip_addr option" where
  "router_loop pf [] = None"
| "router_loop pf (rm # msgs) =
     (if \<not> is_default_gateway pf rm then router_loop pf msgs
      else if rc_rtax_gateway (bp_route pf) < length (rm_addrs rm) then
        (case rm_addrs rm ! rc_rtax_gateway (bp_route pf) of
           Addr_Inet4 ip \<Rightarrow> Some (V4 ip)
         | Addr_Inet6 ip _ \<Rightarrow> Some (V6 ip)
         | _ \<Rightarrow> router_loop pf msgs)
      else router_loop pf msgs)"

text \<open>A panic of the parser is a panic of its callers; the other failures are \<open>None\<close>.\<close>

definition with_routing_table ::
  "bsd_platform \<Rightarrow> sysctl \<Rightarrow> (bsd_route_message list \<Rightarrow> 'a option) \<Rightarrow> ('a option, route_error) res" where
  "with_routing_table pf sc f =
     (case fetch_routing_table pf sc of
        None \<Rightarrow> Ok None
      | Some rib \<Rightarrow> bind_res (parse_routing_table pf rib) (\<lambda>msgs. Ok (Option.bind msgs f)))"

definition likely_home_router :: "bsd_platform \<Rightarrow> sysctl \<Rightarrow> (ip_addr option, route_error) res" where
  "likely_home_router pf sc = with_routing_table pf sc (router_loop pf)"

definition default_route_interface_index :: "bsd_platform \<Rightarrow> sysctl \<Rightarrow> (u32 option, route_error) res" where
  "default_route_interface_index pf sc =
     with_routing_table pf sc (\<lambda>msgs.
       map_option (\<lambda>rm. ucast (rm_index rm)) (List.find (is_default_gateway pf) msgs))"

definition bsd_default_route ::
  "bsd_platform \<Rightarrow> sysctl \<Rightarrow> netdev_interface list \<Rightarrow> (default_route_details option, route_error) res" where
  "bsd_default_route pf sc interfaces =
     bind_res (default_route_interface_index pf sc) (\<lambda>index.
     Ok (Option.bind index (\<lambda>index.
       map_option (\<lambda>iface. \<lparr>interface_name = nd_name iface\<rparr>)
         (List.find (\<lambda>i. nd_index i = index) interfaces))))"

definition bsd_home_router ::
  "bsd_platform \<Rightarrow> sysctl \<Rightarrow> ip_addr option \<Rightarrow> (home_router option, route_error) res" where
  "bsd_home_router pf sc local_ip =
     bind_res (likely_home_router pf sc) (\<lambda>gateway.
     Ok (map_option (\<lambda>gateway. \<lparr>hr_gateway = gateway, hr_my_ip = local_ip\<rparr>) gateway))"

section \<open>Facts\<close>

context rib_platform
begin

lemma check_header_Ok: "check_header pf w data = Ok u \<Longrightarrow> wf_body_off w \<le> length data"
  by (auto simp: check_header_def res_simps)

lemma check_header_no_Panic: "check_header pf w data \<noteq> Panic"
  by (auto simp: check_header_def res_simps rib_simps)

lemma parse_route_no_Panic: "parse_route pf w data \<noteq> Panic" "parse_route_openbsd pf w data \<noteq> Panic"
  using parse_addrs_no_Panic check_header_no_Panic
  by (auto simp: parse_route_def parse_route_openbsd_def res_simps ne_range_no_Panic
      dest!: check_header_Ok ne_range_Ok)

lemma parse_interface_no_Panic: "parse_interface pf w data \<noteq> Panic"
  using parse_link_addr_no_Panic check_header_no_Panic
  by (auto simp: parse_interface_def res_simps ne_range_no_Panic dest!: check_header_Ok ne_range_Ok)

lemma parse_addr_messages_no_Panic:
  "parse_interface_addr pf w data \<noteq> Panic" "parse_interface_multicast_addr pf w data \<noteq> Panic"
  using parse_addrs_no_Panic check_header_no_Panic
  by (auto simp: parse_interface_addr_def parse_interface_multicast_addr_def parse_addr_message_def
      Let_def res_simps ne_range_no_Panic dest!: check_header_Ok ne_range_Ok split: if_splits)

text \<open>The name of an announcement is searched in the 16 bytes from the seventh on; the search leaves
  the message when it ends before a zero byte.\<close>

lemma announce_name_Panic:
  "announce_name data n i = Panic \<longleftrightarrow>
     length data < 6 + i + n \<and> (\<forall>j. 6 + i \<le> j \<and> j < length data \<longrightarrow> data ! j \<noteq> 0) \<and> 0 < n"
proof (induction n arbitrary: i)
  case (Suc n)
  show ?case
  proof (cases "6 + i < length data")
    case in_range: True
    show ?thesis
    proof (cases "data ! (6 + i) = 0")
      case True
      then show ?thesis using in_range by (auto simp: res_simps rib_simps)
    next
      case False
      have "6 + i \<le> j \<longleftrightarrow> j = 6 + i \<or> 6 + Suc i \<le> j" for j by linarith
      then have "(\<forall>j. 6 + i \<le> j \<and> j < length data \<longrightarrow> data ! j \<noteq> 0)
          \<longleftrightarrow> (\<forall>j. 6 + Suc i \<le> j \<and> j < length data \<longrightarrow> data ! j \<noteq> 0)"
        using False by auto
      then show ?thesis using Suc [of "Suc i"] False in_range by (auto simp: res_simps)
    qed
  qed (auto simp: res_simps)
qed simp

lemma parse_interface_announce_Panic:
  "parse_interface_announce pf w data = Panic \<longleftrightarrow>
     check_header pf w data = Ok () \<and> length data < 22
     \<and> (\<forall>j. 6 \<le> j \<and> j < length data \<longrightarrow> data ! j \<noteq> 0)"
proof -
  have "6 < length data" if "announce_name data 16 0 = Ok name" for name
    using that by (auto simp: numeral_eq_Suc res_simps split: if_splits)
  then show ?thesis
    using announce_name_Panic [of data 16 0] check_header_no_Panic
    by (auto simp: parse_interface_announce_def res_simps ne_range_no_Panic)
qed

lemma wire_parse_Panic:
  "wire_parse pf w data = Panic \<longleftrightarrow>
     wf_typ w = MsgInterfaceAnnounce \<and> parse_interface_announce pf w data = Panic"
  using parse_route_no_Panic parse_interface_no_Panic parse_addr_messages_no_Panic
  by (auto simp: wire_parse_def split: message_type.splits)

end

section \<open>The loop over the messages\<close>

text \<open>The counters are redundant: every message is either kept or counted as skipped.\<close>

lemma rib_loop_counts:
  assumes "rib_loop pf b msgs nmsgs nskips = Ok (msgs', nmsgs', nskips')"
  shows "nmsgs' + length msgs + nskips = nmsgs + length msgs' + nskips'"
  using assms
proof (induction pf b msgs nmsgs nskips rule: rib_loop.induct)
  case (1 pf b msgs nmsgs nskips)
  show ?case
  proof (cases "length b > 4")
    case True
    then show ?thesis using 1(1,2) "1.prems"
      by (subst (asm) (3) rib_loop.simps) (auto split: res.splits option.splits)
  next
    case False
    then show ?thesis using "1.prems" by (subst (asm) rib_loop.simps) simp
  qed
qed

text \<open>The messages found so far are a prefix of the result.\<close>

lemma rib_loop_acc:
  "rib_loop pf b msgs nmsgs nskips =
     map_res (\<lambda>(ms, n, k). (msgs @ ms, nmsgs + n, nskips + k)) (rib_loop pf b [] 0 0)"
proof (induction "length b" arbitrary: b msgs nmsgs nskips rule: less_induct)
  case less
  show ?case
  proof (cases "length b > 4")
    case True
    have shorter: "length (drop l b) < length b" if "rib_step pf b = Ok (m, l)" for m l
      using rib_step_progress [OF that] by simp arith
    show ?thesis
    proof (cases "rib_step pf b")
      case (Ok ml)
      obtain m l where ml: "ml = (m, l)" by (cases ml)
      note rec = less [OF shorter [OF Ok [unfolded ml]]]
      show ?thesis
        using True Ok ml
        by (subst (1 2) rib_loop.simps)
          (cases m; simp add: rec [of "_ @ _"] rec [of msgs] rec [of "[_]"] rec [of "[]" "Suc _"]
            res.map_comp; cases "rib_loop pf (drop l b) [] 0 0"; auto)
    qed (use True in \<open>subst (1 2) rib_loop.simps, simp\<close>)+
  qed (subst (1 2) rib_loop.simps, simp)
qed

lemma parse_rib_loop:
  "is_valid_rib_type pf typ \<Longrightarrow> parse_rib pf typ data = map_res fst (rib_loop pf data [] 0 0)"
  using rib_loop_counts [of pf data "[]" 0 0]
  by (cases "rib_loop pf data [] 0 0") (auto simp: parse_rib_def ensure_def)

text \<open>The specification: a base is a sequence of frames, each headed by its own length. A frame of
  another version or of an unknown type yields nothing, any other what its format parses.\<close>

definition is_frame :: "bsd_platform \<Rightarrow> bytes \<Rightarrow> bool" where
  "is_frame pf f \<longleftrightarrow> 4 < length f \<and> length f < 2 ^ 16
     \<and> u16_from_ne_range pf f 0 2 = Ok (of_nat (length f))"

definition frame_result :: "bsd_platform \<Rightarrow> bytes \<Rightarrow> (wire_message option, route_error) res" where
  "frame_result pf f =
     (if uint (f ! 2) \<noteq> rs_rtm_version (bp_stack pf) then Ok None
      else case rs_wire_formats (bp_stack pf) (uint (f ! 3)) of
          Some w \<Rightarrow> wire_parse pf w f
        | None \<Rightarrow> Ok None)"

primrec collect_results :: "('a option, 'e) res list \<Rightarrow> ('a list, 'e) res" where
  "collect_results [] = Ok []"
| "collect_results (r # rs) =
     bind_res r (\<lambda>m. map_res (\<lambda>ms. (case m of Some m \<Rightarrow> [m] | None \<Rightarrow> []) @ ms) (collect_results rs))"

lemma ne_range_append:
  "b \<le> length f \<Longrightarrow> u16_from_ne_range pf (f @ rest) a b = u16_from_ne_range pf f a b"
  by (simp add: u16_from_ne_range_def get_range_def)

lemma rib_step_frame:
  assumes "is_frame pf f"
  shows "rib_step pf (f @ rest) = map_res (\<lambda>m. (m, length f)) (frame_result pf f)"
proof -
  have f: "4 < length f" "u16_from_ne_range pf (f @ rest) 0 2 = Ok (of_nat (length f))"
    and len: "unat (of_nat (length f) :: u16) = length f"
    using assms by (auto simp: is_frame_def ne_range_append unat_of_nat)
  moreover from this have "(of_nat (length f) :: u16) \<noteq> 0" by (metis not_less_zero unat_0)
  ultimately show ?thesis
    by (cases "rs_wire_formats (bp_stack pf) (uint (f ! 3))"; cases "wire_parse pf (the (rs_wire_formats (bp_stack pf) (uint (f ! 3)))) f")
      (simp_all add: rib_step_def frame_result_def ensure_def slice_simps nth_append)
qed

lemma rib_loop_frames:
  assumes "\<forall>f\<in>set frames. is_frame pf f" and "length rest \<le> 4"
  shows "map_res fst (rib_loop pf (concat frames @ rest) [] 0 0) = collect_results (map (frame_result pf) frames)"
  using assms(1)
proof (induction frames)
  case Nil
  then show ?case using assms(2) by (simp add: rib_loop.simps)
next
  case (Cons f frames)
  let ?b = "concat frames @ rest"
  have f: "is_frame pf f" and big: "4 < length (f @ ?b)" using Cons.prems by (auto simp: is_frame_def)
  note IH = Cons.IH
  show ?case
  proof (cases "frame_result pf f")
    case (Ok m)
    then have step: "rib_step pf (f @ ?b) = Ok (m, length f)" using rib_step_frame [OF f] by simp
    have "rib_loop pf (f @ ?b) [] 0 0 = (case m of
        Some m \<Rightarrow> rib_loop pf ?b [m] 1 0 | None \<Rightarrow> rib_loop pf ?b [] 1 1)"
      using big step by (subst rib_loop.simps) (cases m; simp)
    also have "map_res fst \<dots> =
        map_res (\<lambda>ms. (case m of Some m \<Rightarrow> [m] | None \<Rightarrow> []) @ ms) (map_res fst (rib_loop pf ?b [] 0 0))"
      using rib_loop_acc [of pf ?b "[the m]" 1 0] rib_loop_acc [of pf ?b "[]" 1 1]
      by (cases m; cases "rib_loop pf ?b [] 0 0") auto
    finally show ?thesis using IH Cons.prems Ok by simp
  qed (use rib_step_frame [OF f, of ?b] big in \<open>subst rib_loop.simps, simp\<close>)+
qed

text \<open>What a parsed message says of its version and type.\<close>

fun wire_version :: "wire_message \<Rightarrow> int" where
  "wire_version (WRoute m) = rm_version m"
| "wire_version (WInterface m) = im_version m"
| "wire_version (WInterfaceAddr m) = iam_version m"
| "wire_version (WInterfaceMulticastAddr m) = iam_version m"
| "wire_version (WInterfaceAnnounce m) = ian_version m"

fun wire_type :: "wire_message \<Rightarrow> int" where
  "wire_type (WRoute m) = rm_type m"
| "wire_type (WInterface m) = im_type m"
| "wire_type (WInterfaceAddr m) = iam_type m"
| "wire_type (WInterfaceMulticastAddr m) = iam_type m"
| "wire_type (WInterfaceAnnounce m) = ian_type m"

fun wire_kind :: "wire_message \<Rightarrow> message_type" where
  "wire_kind (WRoute m) = MsgRoute"
| "wire_kind (WInterface m) = MsgInterface"
| "wire_kind (WInterfaceAddr m) = MsgInterfaceAddr"
| "wire_kind (WInterfaceMulticastAddr m) = MsgInterfaceMulticastAddr"
| "wire_kind (WInterfaceAnnounce m) = MsgInterfaceAnnounce"

definition wire_typed :: "wire_format \<Rightarrow> bytes \<Rightarrow> wire_message \<Rightarrow> bool" where
  "wire_typed w data m \<longleftrightarrow> wire_kind m = wf_typ w \<and> 3 < length data
     \<and> wire_version m = uint (data ! 2) \<and> wire_type m = uint (data ! 3)"

lemma wire_parse_typed:
  assumes "wire_parse pf w data = Ok (Some m)" shows "wire_typed w data m"
proof (cases "wf_typ w")
  case MsgRoute
  then show ?thesis using assms
    by (auto simp: wire_parse_def wire_typed_def parse_route_def parse_route_openbsd_def res_simps
        split: if_splits)
next
  case MsgInterface
  then show ?thesis using assms
    by (auto simp: wire_parse_def wire_typed_def parse_interface_def res_simps split: if_splits)
next
  case MsgInterfaceAddr
  then show ?thesis using assms
    by (auto simp: wire_parse_def wire_typed_def parse_interface_addr_def parse_addr_message_def
        Let_def res_simps)
next
  case MsgInterfaceMulticastAddr
  then show ?thesis using assms
    by (auto simp: wire_parse_def wire_typed_def parse_interface_multicast_addr_def
        parse_addr_message_def res_simps)
next
  case MsgInterfaceAnnounce
  then show ?thesis using assms
    by (auto simp: wire_parse_def wire_typed_def parse_interface_announce_def res_simps)
qed

definition rib_typed :: "bsd_platform \<Rightarrow> wire_message \<Rightarrow> bool" where
  "rib_typed pf m \<longleftrightarrow> wire_version m = rs_rtm_version (bp_stack pf)
     \<and> (\<exists>w. rs_wire_formats (bp_stack pf) (wire_type m) = Some w \<and> wire_kind m = wf_typ w)"

lemma rib_step_typed:
  assumes "rib_step pf b = Ok (Some m, l)" shows "rib_typed pf m"
proof -
  obtain w where w: "uint (b ! 2) = rs_rtm_version (bp_stack pf)"
      "rs_wire_formats (bp_stack pf) (uint (b ! 3)) = Some w"
      "wire_parse pf w (take l b) = Ok (Some m)"
    using assms by (auto simp: rib_step_def res_simps split: if_splits option.splits)
  from wire_parse_typed [OF this(3)] w(1,2) show ?thesis
    by (auto simp: wire_typed_def rib_typed_def)
qed

lemma rib_loop_typed:
  assumes "rib_loop pf b msgs nmsgs nskips = Ok (msgs', n, k)" and "\<forall>m\<in>set msgs. rib_typed pf m"
  shows "\<forall>m\<in>set msgs'. rib_typed pf m"
  using assms
proof (induction pf b msgs nmsgs nskips rule: rib_loop.induct)
  case (1 pf b msgs nmsgs nskips)
  show ?case
  proof (cases "length b > 4")
    case True
    then show ?thesis using 1(1,2) "1.prems" rib_step_typed [of pf b]
      by (subst (asm) (3) rib_loop.simps) (auto split: res.splits option.splits)
  next
    case False
    then show ?thesis using "1.prems" by (subst (asm) rib_loop.simps) simp
  qed
qed

end
