(* ===== verification/Bsd_Stacks.thy ===== *)
theory Bsd_Stacks
  imports Bsd_Route
begin

unbundle bit_operations_syntax

text \<open>
  The routing stacks of the BSD systems, \<^verbatim>\<open>netwatch/src/interfaces/bsd/*.rs\<close>: the constants of
  each system (for FreeBSD by architecture) and the table of message formats. On Darwin the codes of
  the messages and the version come from the \<^verbatim>\<open>libc\<close> crate and are arguments. The stacks
  interpret the locales of the parser; the end-to-end properties are stated for them.
\<close>

section \<open>Message types\<close>

datatype rtm =
    RTM_ADD | RTM_DELETE | RTM_CHANGE | RTM_GET | RTM_LOSING | RTM_REDIRECT | RTM_MISS
    | RTM_LOCK | RTM_OLDADD | RTM_OLDDEL | RTM_RESOLVE | RTM_NEWADDR | RTM_DELADDR | RTM_IFINFO
    | RTM_NEWMADDR | RTM_DELMADDR | RTM_IFANNOUNCE | RTM_IEEE80211 | RTM_ONEWADDR
    | RTM_ODELADDR | RTM_OOIFINFO | RTM_OIFINFO | RTM_SETGATE | RTM_LLINFO_UPD | RTM_OCHGADDR
    | RTM_CHGADDR | RTM_DESYNC | RTM_INVALIDATE | RTM_BFD | RTM_PROPOSAL | RTM_CHGADDRATTR
    | RTM_80211INFO | RTM_SOURCE | RTM_IFINFO2 | RTM_NEWMADDR2 | RTM_GET2

definition freebsd_rtm :: "(rtm \<times> int) list" where
  "freebsd_rtm =
      [(RTM_ADD, 0x1), (RTM_DELETE, 0x2), (RTM_CHANGE, 0x3), (RTM_GET, 0x4), (RTM_LOSING, 0x5),
    (RTM_REDIRECT, 0x6), (RTM_MISS, 0x7), (RTM_LOCK, 0x8), (RTM_OLDADD, 0x9), (RTM_OLDDEL, 0xa),
    (RTM_RESOLVE, 0xb), (RTM_NEWADDR, 0xc), (RTM_DELADDR, 0xd), (RTM_IFINFO, 0xe),
    (RTM_NEWMADDR, 0xf), (RTM_DELMADDR, 0x10), (RTM_IFANNOUNCE, 0x11), (RTM_IEEE80211, 0x12)]"

definition netbsd_rtm :: "(rtm \<times> int) list" where
  "netbsd_rtm =
      [(RTM_ADD, 0x1), (RTM_DELETE, 0x2), (RTM_CHANGE, 0x3), (RTM_GET, 0x4), (RTM_LOSING, 0x5),
    (RTM_REDIRECT, 0x6), (RTM_MISS, 0x7), (RTM_LOCK, 0x8), (RTM_OLDADD, 0x9), (RTM_OLDDEL, 0xa),
    (RTM_ONEWADDR, 0xc), (RTM_ODELADDR, 0xd), (RTM_OOIFINFO, 0xe), (RTM_OIFINFO, 0xf),
    (RTM_NEWMADDR, 0xf), (RTM_IFANNOUNCE, 0x10), (RTM_IEEE80211, 0x11), (RTM_SETGATE, 0x12),
    (RTM_LLINFO_UPD, 0x13), (RTM_IFINFO, 0x14), (RTM_OCHGADDR, 0x15), (RTM_NEWADDR, 0x16),
    (RTM_DELADDR, 0x17), (RTM_CHGADDR, 0x18)]"

definition openbsd_rtm :: "(rtm \<times> int) list" where
  "openbsd_rtm =
      [(RTM_ADD, 0x1), (RTM_DELETE, 0x2), (RTM_CHANGE, 0x3), (RTM_GET, 0x4), (RTM_LOSING, 0x5),
    (RTM_REDIRECT, 0x6), (RTM_MISS, 0x7), (RTM_RESOLVE, 0xb), (RTM_NEWADDR, 0xc),
    (RTM_DELADDR, 0xd), (RTM_IFINFO, 0xe), (RTM_IFANNOUNCE, 0xf), (RTM_DESYNC, 0x10),
    (RTM_INVALIDATE, 0x11), (RTM_BFD, 0x12), (RTM_PROPOSAL, 0x13), (RTM_CHGADDRATTR, 0x14),
    (RTM_80211INFO, 0x15), (RTM_SOURCE, 0x16)]"

text \<open>\<^verbatim>\<open>[...].into_iter().collect()\<close>: of two formats for one code the later one counts.\<close>

definition wire_table :: "(rtm \<Rightarrow> int) \<Rightarrow> (rtm \<times> wire_format) list \<Rightarrow> int \<Rightarrow> wire_format option" where
  "wire_table code formats = map_of (rev (map (\<lambda>(t, w). (code t, w)) formats))"

definition code_in :: "(rtm \<times> int) list \<Rightarrow> rtm \<Rightarrow> int" where
  "code_in codes t = (case map_of codes t of Some c \<Rightarrow> c | None \<Rightarrow> 0)"

definition wire_fmt :: "nat \<Rightarrow> nat \<Rightarrow> message_type \<Rightarrow> wire_format" where
  "wire_fmt ext_off body_off typ = \<lparr>wf_ext_off = ext_off, wf_body_off = body_off, wf_typ = typ\<rparr>"

section \<open>FreeBSD\<close>

record freebsd_layout =
  fb_if_msghdrl10 :: nat
  fb_ifa_msghdr10 :: nat
  fb_ifa_msghdrl10 :: nat
  fb_ifma_msghdr10 :: nat
  fb_if_announcemsghdr10 :: nat
  fb_rt_msghdr10 :: nat
  fb_rt_metrics10 :: nat
  fb_if_msghdr7 :: nat
  fb_if_msghdr8 :: nat
  fb_if_msghdr9 :: nat
  fb_if_msghdr10 :: nat
  fb_if_msghdr11 :: nat
  fb_if_data7 :: nat
  fb_if_data8 :: nat
  fb_if_data9 :: nat
  fb_if_data10 :: nat
  fb_if_data11 :: nat

record freebsd_consts =
  fc_native :: freebsd_layout
  fc_emu :: freebsd_layout
  fc_sockaddr_storage :: nat
  fc_sockaddr_inet :: nat
  fc_sockaddr_inet6 :: nat

definition freebsd_amd64 :: freebsd_consts where
  "freebsd_amd64 =
     \<lparr>fc_native =
      \<lparr>fb_if_msghdrl10 = 0xb0, fb_ifa_msghdr10 = 0x14, fb_ifa_msghdrl10 = 0xb0,
       fb_ifma_msghdr10 = 0x10, fb_if_announcemsghdr10 = 0x18, fb_rt_msghdr10 = 0x98,
       fb_rt_metrics10 = 0x70, fb_if_msghdr7 = 0xa8, fb_if_msghdr8 = 0xa8, fb_if_msghdr9 = 0xa8,
       fb_if_msghdr10 = 0xa8, fb_if_msghdr11 = 0xa8, fb_if_data7 = 0x98, fb_if_data8 = 0x98,
       fb_if_data9 = 0x98, fb_if_data10 = 0x98, fb_if_data11 = 0x98\<rparr>,
      fc_emu =
      \<lparr>fb_if_msghdrl10 = 0xb0, fb_ifa_msghdr10 = 0x14, fb_ifa_msghdrl10 = 0xb0,
       fb_ifma_msghdr10 = 0x10, fb_if_announcemsghdr10 = 0x18, fb_rt_msghdr10 = 0x98,
       fb_rt_metrics10 = 0x70, fb_if_msghdr7 = 0xa8, fb_if_msghdr8 = 0xa8, fb_if_msghdr9 = 0xa8,
       fb_if_msghdr10 = 0xa8, fb_if_msghdr11 = 0xa8, fb_if_data7 = 0x98, fb_if_data8 = 0x98,
       fb_if_data9 = 0x98, fb_if_data10 = 0x98, fb_if_data11 = 0x98\<rparr>,
      fc_sockaddr_storage = 0x80, fc_sockaddr_inet = 0x10, fc_sockaddr_inet6 = 0x1c\<rparr>"

definition freebsd_i686 :: freebsd_consts where
  "freebsd_i686 =
     \<lparr>fc_native =
      \<lparr>fb_if_msghdrl10 = 0x68, fb_ifa_msghdr10 = 0x14, fb_ifa_msghdrl10 = 0x6c,
       fb_ifma_msghdr10 = 0x10, fb_if_announcemsghdr10 = 0x18, fb_rt_msghdr10 = 0x5c,
       fb_rt_metrics10 = 0x38, fb_if_msghdr7 = 0x60, fb_if_msghdr8 = 0x60, fb_if_msghdr9 = 0x60,
       fb_if_msghdr10 = 0x64, fb_if_msghdr11 = 0xa8, fb_if_data7 = 0x50, fb_if_data8 = 0x50,
       fb_if_data9 = 0x50, fb_if_data10 = 0x54, fb_if_data11 = 0x98\<rparr>,
      fc_emu =
      \<lparr>fb_if_msghdrl10 = 0xb0, fb_ifa_msghdr10 = 0x14, fb_ifa_msghdrl10 = 0xb0,
       fb_ifma_msghdr10 = 0x10, fb_if_announcemsghdr10 = 0x18, fb_rt_msghdr10 = 0x98,
       fb_rt_metrics10 = 0x70, fb_if_msghdr7 = 0xa8, fb_if_msghdr8 = 0xa8, fb_if_msghdr9 = 0xa8,
       fb_if_msghdr10 = 0xa8, fb_if_msghdr11 = 0xa8, fb_if_data7 = 0x98, fb_if_data8 = 0x98,
       fb_if_data9 = 0x98, fb_if_data10 = 0x98, fb_if_data11 = 0x98\<rparr>,
      fc_sockaddr_storage = 0x80, fc_sockaddr_inet = 0x10, fc_sockaddr_inet6 = 0x1c\<rparr>"

definition freebsd_arm :: freebsd_consts where
  "freebsd_arm =
     \<lparr>fc_native =
      \<lparr>fb_if_msghdrl10 = 0x68, fb_ifa_msghdr10 = 0x14, fb_ifa_msghdrl10 = 0x6c,
       fb_ifma_msghdr10 = 0x10, fb_if_announcemsghdr10 = 0x18, fb_rt_msghdr10 = 0x5c,
       fb_rt_metrics10 = 0x38, fb_if_msghdr7 = 0x70, fb_if_msghdr8 = 0x70, fb_if_msghdr9 = 0x70,
       fb_if_msghdr10 = 0x70, fb_if_msghdr11 = 0xa8, fb_if_data7 = 0x60, fb_if_data8 = 0x60,
       fb_if_data9 = 0x60, fb_if_data10 = 0x60, fb_if_data11 = 0x98\<rparr>,
      fc_emu =
      \<lparr>fb_if_msghdrl10 = 0x68, fb_ifa_msghdr10 = 0x14, fb_ifa_msghdrl10 = 0x6c,
       fb_ifma_msghdr10 = 0x10, fb_if_announcemsghdr10 = 0x18, fb_rt_msghdr10 = 0x5c,
       fb_rt_metrics10 = 0x38, fb_if_msghdr7 = 0x70, fb_if_msghdr8 = 0x70, fb_if_msghdr9 = 0x70,
       fb_if_msghdr10 = 0x70, fb_if_msghdr11 = 0xa8, fb_if_data7 = 0x60, fb_if_data8 = 0x60,
       fb_if_data9 = 0x60, fb_if_data10 = 0x60, fb_if_data11 = 0x98\<rparr>,
      fc_sockaddr_storage = 0x80, fc_sockaddr_inet = 0x10, fc_sockaddr_inet6 = 0x1c\<rparr>"

definition freebsd_lp64 :: freebsd_consts where
  "freebsd_lp64 =
     \<lparr>fc_native =
      \<lparr>fb_if_msghdrl10 = 0xb0, fb_ifa_msghdr10 = 0x14, fb_ifa_msghdrl10 = 0xb0,
       fb_ifma_msghdr10 = 0x10, fb_if_announcemsghdr10 = 0x18, fb_rt_msghdr10 = 0x98,
       fb_rt_metrics10 = 0x70, fb_if_msghdr7 = 0xa8, fb_if_msghdr8 = 0xa8, fb_if_msghdr9 = 0xa8,
       fb_if_msghdr10 = 0xa8, fb_if_msghdr11 = 0xa8, fb_if_data7 = 0x98, fb_if_data8 = 0x98,
       fb_if_data9 = 0x98, fb_if_data10 = 0x98, fb_if_data11 = 0x98\<rparr>,
      fc_emu =
      \<lparr>fb_if_msghdrl10 = 0xb0, fb_ifa_msghdr10 = 0x14, fb_ifa_msghdrl10 = 0xb0,
       fb_ifma_msghdr10 = 0x10, fb_if_announcemsghdr10 = 0x18, fb_rt_msghdr10 = 0x98,
       fb_rt_metrics10 = 0x70, fb_if_msghdr7 = 0xa8, fb_if_msghdr8 = 0xa8, fb_if_msghdr9 = 0xa8,
       fb_if_msghdr10 = 0xa8, fb_if_msghdr11 = 0xa8, fb_if_data7 = 0x98, fb_if_data8 = 0x98,
       fb_if_data9 = 0x98, fb_if_data10 = 0x98, fb_if_data11 = 0x98\<rparr>,
      fc_sockaddr_storage = 0x80, fc_sockaddr_inet = 0x10, fc_sockaddr_inet6 = 0x1c\<rparr>"

definition freebsd_route_consts :: "freebsd_consts \<Rightarrow> route_consts" where
  "freebsd_route_consts fc =
     \<lparr>rc_rtf_gateway = 0x2, rc_rtax_dst = 0, rc_rtax_gateway = 1, rc_rtax_netmask = 2,
      rc_rtax_ifp = 4, rc_rtax_brd = 7, rc_rtax_max = 8, rc_rta_ifp = 0x10,
      rc_sizeof_sockaddr_inet = fc_sockaddr_inet fc, rc_sizeof_sockaddr_inet6 = fc_sockaddr_inet6 fc\<rparr>"

definition detect_compat_freebsd32 :: bool where "detect_compat_freebsd32 = False"

text \<open>The branch for 32-bit emulation is not implemented and, by \<open>detect_compat_freebsd32\<close>, not taken.\<close>

definition freebsd_formats :: "freebsd_consts \<Rightarrow> routing_stack" where
  "freebsd_formats fc =
     (let l = fc_native fc;
          rtm = wire_fmt (fb_rt_msghdr10 l - fb_rt_metrics10 l) (fb_rt_msghdr10 l) MsgRoute;
          ifm = wire_fmt 16 (fb_if_msghdr11 l) MsgInterface;
          ifam = wire_fmt (fb_ifa_msghdr10 l) (fb_ifa_msghdr10 l) MsgInterfaceAddr;
          ifmam = wire_fmt (fb_ifma_msghdr10 l) (fb_ifma_msghdr10 l) MsgInterfaceMulticastAddr;
          ifanm = wire_fmt (fb_if_announcemsghdr10 l) (fb_if_announcemsghdr10 l) MsgInterfaceAnnounce
      in \<lparr>rs_rtm_version = 5, rs_kernel_align = 4,
          rs_wire_formats = wire_table (code_in freebsd_rtm)
         [(RTM_ADD, rtm), (RTM_DELETE, rtm), (RTM_CHANGE, rtm), (RTM_GET, rtm),
          (RTM_LOSING, rtm), (RTM_REDIRECT, rtm), (RTM_MISS, rtm), (RTM_LOCK, rtm),
          (RTM_RESOLVE, rtm), (RTM_NEWADDR, ifam), (RTM_DELADDR, ifam), (RTM_IFINFO, ifm),
          (RTM_NEWMADDR, ifmam), (RTM_DELMADDR, ifmam), (RTM_IFANNOUNCE, ifanm),
          (RTM_IEEE80211, ifanm)]\<rparr>)"

definition freebsd_stack :: "freebsd_consts \<Rightarrow> (routing_stack, route_error) res" where
  "freebsd_stack fc = (if detect_compat_freebsd32 then Panic else Ok (freebsd_formats fc))"

section \<open>NetBSD\<close>

definition netbsd_route_consts :: "route_consts" where
  "netbsd_route_consts =
     \<lparr>rc_rtf_gateway = 0x2, rc_rtax_dst = 0, rc_rtax_gateway = 1, rc_rtax_netmask = 2,
      rc_rtax_ifp = 4, rc_rtax_brd = 7, rc_rtax_max = 9, rc_rta_ifp = 0x10,
      rc_sizeof_sockaddr_inet = 0x10, rc_sizeof_sockaddr_inet6 = 0x1c\<rparr>"

definition netbsd_stack :: routing_stack where
  "netbsd_stack =
     (let rtm = wire_fmt 40 0x78 MsgRoute;
          ifm = wire_fmt 16 0x98 MsgInterface;
          ifam = wire_fmt 0x18 0x18 MsgInterfaceAddr;
          ifannm = wire_fmt 0x18 0x18 MsgInterfaceAnnounce
      in \<lparr>rs_rtm_version = 4, rs_kernel_align = 8,
          rs_wire_formats = wire_table (code_in netbsd_rtm)
         [(RTM_ADD, rtm), (RTM_DELETE, rtm), (RTM_CHANGE, rtm), (RTM_GET, rtm),
          (RTM_LOSING, rtm), (RTM_REDIRECT, rtm), (RTM_MISS, rtm), (RTM_LOCK, rtm),
          (RTM_NEWADDR, ifam), (RTM_DELADDR, ifam), (RTM_IFANNOUNCE, ifannm), (RTM_IFINFO, ifm)]\<rparr>)"

section \<open>OpenBSD\<close>

definition openbsd_route_consts :: "route_consts" where
  "openbsd_route_consts =
     \<lparr>rc_rtf_gateway = 0x2, rc_rtax_dst = 0, rc_rtax_gateway = 1, rc_rtax_netmask = 2,
      rc_rtax_ifp = 4, rc_rtax_brd = 7, rc_rtax_max = 15, rc_rta_ifp = 0x10,
      rc_sizeof_sockaddr_inet = 0x10, rc_sizeof_sockaddr_inet6 = 0x1c\<rparr>"

definition openbsd_stack :: routing_stack where
  "openbsd_stack =
     (let rtm = wire_fmt 0 0 MsgRoute;
          ifm = wire_fmt 0 0 MsgInterface;
          ifam = wire_fmt 0 0 MsgInterfaceAddr;
          ifannm = wire_fmt 0 0 MsgInterfaceAnnounce
      in \<lparr>rs_rtm_version = 5, rs_kernel_align = 8,
          rs_wire_formats = wire_table (code_in openbsd_rtm)
         [(RTM_ADD, rtm), (RTM_DELETE, rtm), (RTM_CHANGE, rtm), (RTM_GET, rtm),
          (RTM_LOSING, rtm), (RTM_REDIRECT, rtm), (RTM_MISS, rtm), (RTM_RESOLVE, rtm),
          (RTM_NEWADDR, ifam), (RTM_DELADDR, ifam), (RTM_IFINFO, ifm), (RTM_IFANNOUNCE, ifannm),
          (RTM_DESYNC, ifannm)]\<rparr>)"

section \<open>Darwin\<close>

text \<open>\<open>code\<close> and \<open>version\<close> are the constants of \<^verbatim>\<open>libc\<close>.\<close>

definition darwin_sizeof_sockaddr_inet :: nat where "darwin_sizeof_sockaddr_inet = 0x10"
definition darwin_sizeof_sockaddr_inet6 :: nat where "darwin_sizeof_sockaddr_inet6 = 0x1c"

definition darwin_stack :: "(rtm \<Rightarrow> int) \<Rightarrow> int \<Rightarrow> routing_stack" where
  "darwin_stack code version =
     (let rtm = wire_fmt 36 0x5c MsgRoute;
          rtm2 = wire_fmt 36 0x5c MsgRoute;
          ifm = wire_fmt 16 0x70 MsgInterface;
          ifm2 = wire_fmt 32 0xa0 MsgInterface;
          ifam = wire_fmt 0x14 0x14 MsgInterfaceAddr;
          ifmam = wire_fmt 0x10 0x10 MsgInterfaceMulticastAddr;
          ifmam2 = wire_fmt 0x14 0x14 MsgInterfaceMulticastAddr
      in \<lparr>rs_rtm_version = version, rs_kernel_align = 4,
          rs_wire_formats = wire_table code
         [(RTM_ADD, rtm), (RTM_DELETE, rtm), (RTM_CHANGE, rtm), (RTM_GET, rtm),
          (RTM_LOSING, rtm), (RTM_REDIRECT, rtm), (RTM_MISS, rtm), (RTM_LOCK, rtm),
          (RTM_RESOLVE, rtm), (RTM_NEWADDR, ifam), (RTM_DELADDR, ifam), (RTM_IFINFO, ifm),
          (RTM_NEWMADDR, ifmam), (RTM_DELMADDR, ifmam), (RTM_IFINFO2, ifm2),
          (RTM_NEWMADDR2, ifmam2), (RTM_GET2, rtm2)]\<rparr>)"

section \<open>Platforms\<close>

text \<open>The arguments are the constants of \<^verbatim>\<open>libc\<close>, the endianness, and whether pointers have 64 bits.\<close>

definition freebsd_platform :: "libc_consts \<Rightarrow> bool \<Rightarrow> bool \<Rightarrow> freebsd_consts \<Rightarrow> bsd_platform" where
  "freebsd_platform lc little is64 fc =
     \<lparr>bp_os = FreeBSD, bp_little_endian = little, bp_64bit = is64, bp_libc = lc,
      bp_route = freebsd_route_consts fc, bp_stack = freebsd_formats fc\<rparr>"

definition netbsd_platform :: "libc_consts \<Rightarrow> bool \<Rightarrow> bool \<Rightarrow> bsd_platform" where
  "netbsd_platform lc little is64 =
     \<lparr>bp_os = NetBSD, bp_little_endian = little, bp_64bit = is64, bp_libc = lc,
      bp_route = netbsd_route_consts, bp_stack = netbsd_stack\<rparr>"

definition openbsd_platform :: "libc_consts \<Rightarrow> bool \<Rightarrow> bool \<Rightarrow> bsd_platform" where
  "openbsd_platform lc little is64 =
     \<lparr>bp_os = OpenBSD, bp_little_endian = little, bp_64bit = is64, bp_libc = lc,
      bp_route = openbsd_route_consts, bp_stack = openbsd_stack\<rparr>"

text \<open>On Darwin the constants of \<^verbatim>\<open>net/route.h\<close> are those of \<^verbatim>\<open>libc\<close>; the sizes of the socket
  addresses are the module's own.\<close>

definition darwin_platform ::
  "libc_consts \<Rightarrow> route_consts \<Rightarrow> (rtm \<Rightarrow> int) \<Rightarrow> int \<Rightarrow> bool \<Rightarrow> bool \<Rightarrow> bsd_platform" where
  "darwin_platform lc rc code version little is64 =
     \<lparr>bp_os = MacOS, bp_little_endian = little, bp_64bit = is64, bp_libc = lc,
      bp_route = rc\<lparr>rc_sizeof_sockaddr_inet := darwin_sizeof_sockaddr_inet,
        rc_sizeof_sockaddr_inet6 := darwin_sizeof_sockaddr_inet6\<rparr>,
      bp_stack = darwin_stack code version\<rparr>"

lemmas platform_defs = freebsd_platform_def netbsd_platform_def openbsd_platform_def darwin_platform_def
lemmas stack_defs = freebsd_formats_def netbsd_stack_def openbsd_stack_def darwin_stack_def Let_def
lemmas freebsd_arch_defs = freebsd_amd64_def freebsd_i686_def freebsd_arm_def freebsd_lp64_def
lemmas route_consts_defs = freebsd_route_consts_def netbsd_route_consts_def openbsd_route_consts_def
  darwin_sizeof_sockaddr_inet_def darwin_sizeof_sockaddr_inet6_def

section \<open>Facts\<close>

text \<open>The address families of \<^verbatim>\<open>libc\<close> are different octets.\<close>

definition libc_ok :: "libc_consts \<Rightarrow> bool" where
  "libc_ok lc \<longleftrightarrow> distinct [lc_af_unspec lc, lc_af_inet lc, lc_af_inet6 lc, lc_af_link lc]
     \<and> 0 \<le> lc_af_inet lc \<and> lc_af_inet lc < 256"

definition freebsd_archs :: "freebsd_consts list" where
  "freebsd_archs = [freebsd_amd64, freebsd_i686, freebsd_arm, freebsd_lp64]"

text \<open>An assignment of the constants (FreeBSD's values), for the concrete evaluations.\<close>

definition sample_libc :: libc_consts where
  "sample_libc =
     \<lparr>lc_ctl_net = 4, lc_af_route = 17, lc_af_unspec = 0, lc_af_inet = 2, lc_af_inet6 = 28, lc_af_link = 18,
      lc_net_rt_dump = 1, lc_net_rt_iflist = 3, lc_net_rt_iflist2 = 6, lc_rtf_ifscope = 0x1000000,
      lc_enomem = 12\<rparr>"

lemma sample_libc_ok: "libc_ok sample_libc"
  by (simp add: libc_ok_def sample_libc_def)

lemma freebsd_stack_Ok: "freebsd_stack fc = Ok (freebsd_formats fc)"
  by (simp add: freebsd_stack_def detect_compat_freebsd32_def)

lemma wire_table_range: "wire_table code formats t = Some w \<Longrightarrow> w \<in> snd ` set formats"
  by (force simp: wire_table_def dest!: map_of_SomeD)

text \<open>A platform on which announcements are long enough to hold a name: nothing panics there.\<close>

locale rib_announce = rib_platform +
  assumes announce: "rs_wire_formats (bp_stack pf) t = Some w \<Longrightarrow> wf_typ w = MsgInterfaceAnnounce
    \<Longrightarrow> 22 \<le> wf_body_off w"
begin

lemma rib_step_no_Panic:
  assumes "4 < length b" shows "rib_step pf b \<noteq> Panic"
proof -
  have "wire_parse pf w data \<noteq> Panic" if "rs_wire_formats (bp_stack pf) t = Some w" for t w data
    using announce [OF that] check_header_Ok
    by (fastforce simp: wire_parse_Panic parse_interface_announce_Panic)
  then show ?thesis using assms
    by (auto simp: rib_step_def res_simps ne_range_no_Panic split: if_splits option.splits)
qed

lemma rib_loop_no_Panic: "rib_loop pf b msgs nmsgs nskips \<noteq> Panic"
proof (induction "length b" arbitrary: b msgs nmsgs nskips rule: less_induct)
  case less
  show ?case
  proof (cases "4 < length b")
    case True
    have "length (drop l b) < length b" if "rib_step pf b = Ok (m, l)" for m l
      using rib_step_progress [OF that] by simp arith
    then show ?thesis using less rib_step_no_Panic [OF True] True
      by (subst rib_loop.simps) (auto split: res.splits option.splits)
  qed (simp add: rib_loop.simps)
qed

lemma parse_rib_no_Panic: "parse_rib pf typ data \<noteq> Panic"
  using rib_loop_no_Panic by (auto simp: parse_rib_def res_simps)

end

lemma rib_platforms:
  assumes "libc_ok lc"
  shows "fc \<in> set freebsd_archs \<Longrightarrow> rib_platform (freebsd_platform lc little is64 fc)"
    and "rib_platform (netbsd_platform lc little is64)"
    and "rib_platform (openbsd_platform lc little is64)"
    and "rib_platform (darwin_platform lc rc code version little is64)"
  using assms
  by (auto simp: rib_platform_def platform_defs stack_defs route_consts_defs libc_ok_def
      freebsd_archs_def freebsd_arch_defs)

lemma announce_formats:
  shows "fc \<in> set freebsd_archs \<Longrightarrow> rs_wire_formats (freebsd_formats fc) t = Some w
      \<Longrightarrow> wf_typ w = MsgInterfaceAnnounce \<Longrightarrow> 22 \<le> wf_body_off w"
    and "rs_wire_formats netbsd_stack t = Some w \<Longrightarrow> wf_typ w = MsgInterfaceAnnounce \<Longrightarrow> 22 \<le> wf_body_off w"
    and "rs_wire_formats (darwin_stack code version) t = Some w
      \<Longrightarrow> wf_typ w = MsgInterfaceAnnounce \<Longrightarrow> 22 \<le> wf_body_off w"
  by (auto simp: stack_defs wire_fmt_def freebsd_archs_def freebsd_arch_defs dest!: wire_table_range)

lemma rib_announce_platforms:
  assumes "libc_ok lc"
  shows "fc \<in> set freebsd_archs \<Longrightarrow> rib_announce (freebsd_platform lc little is64 fc)"
    and "rib_announce (netbsd_platform lc little is64)"
    and "rib_announce (darwin_platform lc rc code version little is64)"
  using rib_platforms [OF assms] announce_formats
  by (auto simp: rib_announce_def rib_announce_axioms_def platform_defs)

interpretation freebsd: rib_announce "freebsd_platform sample_libc little is64 freebsd_amd64"
  for little is64
  by (rule rib_announce_platforms(1) [OF sample_libc_ok]) (simp add: freebsd_archs_def)

interpretation openbsd: rib_platform "openbsd_platform sample_libc little is64"
  for little is64
  by (rule rib_platforms(3) [OF sample_libc_ok])

section \<open>Routes as the kernel writes them\<close>

definition u16_to_ne :: "bool \<Rightarrow> u16 \<Rightarrow> bytes" where
  "u16_to_ne little w = (if little then rev (u16_to_be_bytes w) else u16_to_be_bytes w)"

definition u32_to_ne :: "bool \<Rightarrow> u32 \<Rightarrow> bytes" where
  "u32_to_ne little w = (if little then rev (u32_to_be_bytes w) else u32_to_be_bytes w)"

text \<open>
  The forms of a socket address in a routing message: an IPv4 address, an IPv6 address with its
  zone, a link-layer address with index, name and hardware address, and a netmask in kernel form,
  which is cut off after its last octet that is not zero and carries no family. All are padded to
  the alignment of the platform.
\<close>

datatype kaddr = KInet4 ipv4 | KInet6 ipv6 u32 | KLink u16 bytes bytes | KMask bytes

definition pad :: "bsd_platform \<Rightarrow> bytes \<Rightarrow> bytes" where
  "pad pf b = b @ replicate (roundup pf (length b) - length b) 0"

definition sockaddr_in :: "bsd_platform \<Rightarrow> ipv4 \<Rightarrow> bytes" where
  "sockaddr_in pf ip = [16, of_int (lc_af_inet (bp_libc pf)), 0, 0] @ octets4 ip @ replicate 8 0"

definition sockaddr_in6 :: "bsd_platform \<Rightarrow> ipv6 \<Rightarrow> u32 \<Rightarrow> bytes" where
  "sockaddr_in6 pf ip zone = [28, of_int (lc_af_inet6 (bp_libc pf)), 0, 0, 0, 0, 0, 0] @ octets6 ip
     @ u32_to_ne (bp_little_endian pf) zone"

definition sockaddr_dl :: "bsd_platform \<Rightarrow> u16 \<Rightarrow> bytes \<Rightarrow> bytes \<Rightarrow> bytes" where
  "sockaddr_dl pf index name hw =
     [of_nat (8 + length name + length hw), of_int (lc_af_link (bp_libc pf))]
     @ u16_to_ne (bp_little_endian pf) index @ [6, of_nat (length name), of_nat (length hw), 0] @ name @ hw"

fun kaddr_bytes :: "bsd_platform \<Rightarrow> kaddr \<Rightarrow> bytes" where
  "kaddr_bytes pf (KInet4 ip) = pad pf (sockaddr_in pf ip)"
| "kaddr_bytes pf (KInet6 ip zone) = pad pf (sockaddr_in6 pf ip zone)"
| "kaddr_bytes pf (KLink index name hw) = pad pf (sockaddr_dl pf index name hw)"
| "kaddr_bytes pf (KMask oc) =
     (if oc = [] then replicate (rs_kernel_align (bp_stack pf)) 0
      else pad pf ([of_nat (4 + length oc), 0, 0, 0] @ oc))"

fun kaddr_ok :: "kaddr \<Rightarrow> bool" where
  "kaddr_ok (KLink index name hw) \<longleftrightarrow> 8 + length name + length hw < 256 \<and> utf8_valid name"
| "kaddr_ok (KMask oc) \<longleftrightarrow> length oc \<le> 4"
| "kaddr_ok _ \<longleftrightarrow> True"

text \<open>What they stand for. The kernels of the KAME family store the zone of a link-local or scoped
  multicast address in its second segment.\<close>

definition kame_scoped :: "u16 \<Rightarrow> bool" where
  "kame_scoped s \<longleftrightarrow>
     (let hi = ucast (drop_bit 8 s) :: u8; lo = ucast s :: u8 in
      hi = 0xfe \<and> and lo 0xc0 = 0x80 \<or> hi = 0xff \<and> (and lo 0x0f = 0x01 \<or> and lo 0x0f = 0x02))"

fun kame :: "ipv6 \<Rightarrow> u32 \<Rightarrow> ipv6 \<times> u32" where
  "kame (Ipv6 a b c d e f g h) zone =
     (if kame_scoped a \<and> b \<noteq> 0 then (Ipv6 a 0 c d e f g h, ucast b) else (Ipv6 a b c d e f g h, zone))"

definition mask4 :: "bytes \<Rightarrow> ipv4" where
  "mask4 oc = (let m = oc @ replicate 4 0 in Ipv4 (m ! 0) (m ! 1) (m ! 2) (m ! 3))"

fun kaddr_value :: "kaddr \<Rightarrow> rt_addr" where
  "kaddr_value (KInet4 ip) = Addr_Inet4 ip"
| "kaddr_value (KInet6 ip zone) = (case kame ip zone of (ip, zone) \<Rightarrow> Addr_Inet6 ip zone)"
| "kaddr_value (KLink index name hw) =
     Addr_Link (uint index) (if name = [] then None else Some name) (if hw = [] then None else Some hw)"
| "kaddr_value (KMask oc) = Addr_Inet4 (mask4 oc)"

fun kaddr_ip :: "kaddr \<Rightarrow> ip_addr option" where
  "kaddr_ip (KInet4 ip) = Some (V4 ip)"
| "kaddr_ip (KInet6 ip zone) = Some (V6 (fst (kame ip zone)))"
| "kaddr_ip (KLink index name hw) = None"
| "kaddr_ip (KMask oc) = Some (V4 (mask4 oc))"

text \<open>
  An entry of the table: the interface, the flags, the addresses of destination and gateway, of the
  netmask unless the route is to a host, and of the further attributes the kernel may add (cloning
  mask, interface name and address, author, broadcast address).
\<close>

record kroute =
  kr_index :: u16
  kr_flags :: u32
  kr_dst :: kaddr
  kr_gateway :: kaddr
  kr_netmask :: "kaddr option"
  kr_more :: "kaddr option list"

definition kr_attrs :: "kroute \<Rightarrow> kaddr option list" where
  "kr_attrs r = [Some (kr_dst r), Some (kr_gateway r), kr_netmask r] @ kr_more r"

definition present :: "'a option list \<Rightarrow> 'a list" where
  "present xs = concat (map (\<lambda>x. case x of None \<Rightarrow> [] | Some a \<Rightarrow> [a]) xs)"

definition attrs_word :: "'a option list \<Rightarrow> u32" where
  "attrs_word xs = horner_sum of_bool 2 (map (\<lambda>x. x \<noteq> None) xs)"

definition attrs_bytes :: "bsd_platform \<Rightarrow> kaddr option list \<Rightarrow> bytes" where
  "attrs_bytes pf xs = concat (map (kaddr_bytes pf) (present xs))"

definition zero4 :: "kaddr \<Rightarrow> bool" where
  "zero4 a \<longleftrightarrow> a = KInet4 ipv4_unspecified \<or> (\<exists>oc. a = KMask oc \<and> set oc \<subseteq> {0})"

definition zero6 :: "kaddr \<Rightarrow> bool" where
  "zero6 a \<longleftrightarrow> (\<exists>zone. a = KInet6 ipv6_unspecified zone)"

definition kroute_ok :: "kroute \<Rightarrow> bool" where
  "kroute_ok r \<longleftrightarrow> length (kr_more r) \<le> 5 \<and> (\<forall>a\<in>set (present (kr_attrs r)). kaddr_ok a)
     \<and> (kr_netmask r = None \<longrightarrow> \<not> zero4 (kr_dst r) \<and> \<not> zero6 (kr_dst r))"

text \<open>A route in an entry of \<^verbatim>\<open>NET_RT_DUMP\<close>: the header of type \<^verbatim>\<open>RTM_GET\<close> of \<open>off\<close> bytes, then the
  addresses that are present, in the order of the attributes.\<close>

definition kernel_route_header :: "bsd_platform \<Rightarrow> nat \<Rightarrow> kroute \<Rightarrow> bytes" where
  "kernel_route_header pf off r =
     (let e = bp_little_endian pf; len = off + length (attrs_bytes pf (kr_attrs r)) in
      u16_to_ne e (of_nat len) @ [of_int (rs_rtm_version (bp_stack pf)), 4]
      @ u16_to_ne e (kr_index r) @ [0, 0] @ u32_to_ne e (kr_flags r) @ u32_to_ne e (attrs_word (kr_attrs r))
      @ replicate 16 0 @ replicate (off - 32) 0)"

definition kernel_route :: "bsd_platform \<Rightarrow> nat \<Rightarrow> kroute \<Rightarrow> bytes" where
  "kernel_route pf off r = kernel_route_header pf off r @ attrs_bytes pf (kr_attrs r)"

text \<open>A default route, of either family, as the kernel means it.\<close>

definition is_default_kroute :: "bsd_platform \<Rightarrow> kroute \<Rightarrow> bool" where
  "is_default_kroute pf r \<longleftrightarrow> and (kr_flags r) (rc_rtf_gateway (bp_route pf)) \<noteq> 0
     \<and> (\<exists>nm. kr_netmask r = Some nm \<and> (zero4 (kr_dst r) \<and> zero4 nm \<or> zero6 (kr_dst r) \<and> zero6 nm))"

text \<open>The parsed message of a route.\<close>

definition represents :: "kroute \<Rightarrow> bsd_route_message \<Rightarrow> bool" where
  "represents r m \<longleftrightarrow> kroute_ok r \<and> rm_index m = kr_index r \<and> rm_flags m = kr_flags r
     \<and> rm_addrs m = map kaddr_value (present (kr_attrs r))"

text \<open>The families of \<^verbatim>\<open>libc\<close> are octets, and the unspecified one is zero.\<close>

definition families_ok :: "libc_consts \<Rightarrow> bool" where
  "families_ok lc \<longleftrightarrow> libc_ok lc \<and> lc_af_unspec lc = 0 \<and> lc_af_inet lc \<in> {0..255} \<and> lc_af_inet6 lc \<in> {0..255}
     \<and> lc_af_link lc \<in> {0..255}"

lemma sample_families_ok: "families_ok sample_libc"
  using sample_libc_ok by (simp add: families_ok_def sample_libc_def)

lemma present_simps [simp]:
  "present [] = []" "present (None # xs) = present xs" "present (Some a # xs) = a # present xs"
  by (simp_all add: present_def)

lemma attrs_bytes_simps [simp]:
  "attrs_bytes pf [] = []" "attrs_bytes pf (None # xs) = attrs_bytes pf xs"
  "attrs_bytes pf (Some a # xs) = kaddr_bytes pf a @ attrs_bytes pf xs"
  by (simp_all add: attrs_bytes_def)

lemma length_present: "length (present xs) \<le> length xs"
  by (induction xs) (auto simp: present_def split: option.split)

lemma bit_attrs_word: "length xs \<le> 32 \<Longrightarrow> bit (attrs_word xs) i \<longleftrightarrow> i < length xs \<and> xs ! i \<noteq> None"
  by (auto simp: attrs_word_def bit_horner_sum_bit_iff)

lemma octets6_segments:
  "octets6 (Ipv6 a b c d e f g h) ! 0 = ucast (drop_bit 8 a)" "octets6 (Ipv6 a b c d e f g h) ! Suc 0 = ucast a"
  "(octets6 (Ipv6 a b c d e f g h))[2 := 0, 3 := 0] = octets6 (Ipv6 a 0 c d e f g h)"
  by (simp_all add: octets6_def u16_to_be_bytes_def numeral_eq_Suc)

lemma octets6_second: "u16_from_be (octets6 (Ipv6 a b c d e f g h) ! 2) (octets6 (Ipv6 a b c d e f g h) ! 3) = b"
  by (simp add: octets6_def u16_to_be_bytes_def u16_from_to_be)

text \<open>The values that stand for the unspecified addresses.\<close>

lemma mask4_zero: "length oc \<le> 4 \<Longrightarrow> mask4 oc = ipv4_unspecified \<longleftrightarrow> set oc \<subseteq> {0}"
proof -
  assume "length oc \<le> 4"
  then consider "oc = []" | a where "oc = [a]" | a b where "oc = [a, b]" | a b c where "oc = [a, b, c]"
    | a b c d where "oc = [a, b, c, d]"
    by (auto simp: le_Suc_eq numeral_eq_Suc length_Suc_conv)
  then show ?thesis
    by cases (auto simp: mask4_def ipv4_unspecified_def Let_def numeral_eq_Suc)
qed

lemma zero4_value:
  assumes "kaddr_ok a"
  shows "zero4 a \<longleftrightarrow> (\<exists>ip. kaddr_value a = Addr_Inet4 ip \<and> octets4 ip = v4_default)"
proof -
  have zero: "octets4 ip = v4_default \<longleftrightarrow> ip = ipv4_unspecified" for ip
    by (cases ip) (simp add: v4_default_def ipv4_unspecified_def numeral_eq_Suc)
  show ?thesis using assms by (cases a) (auto simp: zero zero4_def mask4_zero split: prod.splits)
qed

lemma octets6_zero: "octets6 ip = v6_default \<longleftrightarrow> ip = ipv6_unspecified"
proof -
  have "v6_default = octets6 ipv6_unspecified"
    by (simp add: v6_default_def ipv6_unspecified_def octets6_def u16_to_be_bytes_def numeral_eq_Suc)
  then show ?thesis by (metis ipv6_from_octets6 res.inject(1))
qed

lemma kame_zero: "fst (kame ip zone) = ipv6_unspecified \<longleftrightarrow> ip = ipv6_unspecified"
  by (cases ip) (auto simp: ipv6_unspecified_def kame_scoped_def)

lemma zero6_value: "zero6 a \<longleftrightarrow> (\<exists>ip zone. kaddr_value a = Addr_Inet6 ip zone \<and> octets6 ip = v6_default)"
proof (cases a)
  case (KInet6 ip zone)
  then show ?thesis using kame_zero [of ip zone] by (auto simp: octets6_zero zero6_def split: prod.splits)
qed (simp_all add: zero6_def)

text \<open>What the encoding of routes relies on, beside what the parser needs.\<close>

locale route_platform = rib_platform +
  fixes fmt :: wire_format
  assumes os: "bp_os pf = FreeBSD \<or> bp_os pf = NetBSD"
    and families_ok: "families_ok (bp_libc pf)"
    and rtax: "rc_rtax_dst (bp_route pf) = 0" "rc_rtax_gateway (bp_route pf) = 1"
      "rc_rtax_netmask (bp_route pf) = 2" "rc_rtax_brd (bp_route pf) = 7" "8 \<le> rc_rtax_max (bp_route pf)"
    and version: "0 \<le> rs_rtm_version (bp_stack pf)" "rs_rtm_version (bp_stack pf) < 256"
    and format: "rs_wire_formats (bp_stack pf) 4 = Some fmt" "wf_typ fmt = MsgRoute"
      "32 \<le> wf_body_off fmt" "wf_body_off fmt \<le> 1000"
begin

lemma fams:
  "uint (of_int (lc_af_inet (bp_libc pf)) :: u8) = lc_af_inet (bp_libc pf)"
  "uint (of_int (lc_af_inet6 (bp_libc pf)) :: u8) = lc_af_inet6 (bp_libc pf)"
  "uint (of_int (lc_af_link (bp_libc pf)) :: u8) = lc_af_link (bp_libc pf)"
  "lc_af_unspec (bp_libc pf) = 0"
  "lc_af_inet (bp_libc pf) \<noteq> 0" "lc_af_inet6 (bp_libc pf) \<noteq> 0" "lc_af_link (bp_libc pf) \<noteq> 0"
  "lc_af_inet (bp_libc pf) \<noteq> lc_af_inet6 (bp_libc pf)" "lc_af_inet (bp_libc pf) \<noteq> lc_af_link (bp_libc pf)"
  "lc_af_inet6 (bp_libc pf) \<noteq> lc_af_link (bp_libc pf)"
  using families_ok by (auto simp: families_ok_def libc_ok_def uint_word_of_int_eq take_bit_eq_mod)

lemma uint_octet: "0 \<le> x \<Longrightarrow> x < 256 \<Longrightarrow> uint (of_int x :: u8) = x"
  by (simp add: uint_word_of_int_eq take_bit_eq_mod)

lemma length_sockaddrs:
  "length (sockaddr_in pf ip) = 16" "length (sockaddr_in6 pf ip6 zone) = 28"
  "length (sockaddr_dl pf index name hw) = 8 + length name + length hw"
  by (cases ip) (simp_all add: sockaddr_in_def sockaddr_in6_def sockaddr_dl_def u16_to_ne_def u32_to_ne_def)

lemma length_pad: "length (pad pf b) = roundup pf (length b)"
  using roundup_ge(1) [of "length b"] by (simp add: pad_def)

lemma roundup_le: "roundup pf l \<le> l + 8"
  using align unfolding roundup_eq Let_def by auto

lemma kaddr_bytes_bounds:
  assumes "kaddr_ok a"
  shows "roundup pf 0 \<le> length (kaddr_bytes pf a) \<and> length (kaddr_bytes pf a) \<le> 300"
proof -
  have "rs_kernel_align (bp_stack pf) \<le> roundup pf l" for l
    using align unfolding roundup_eq Let_def by (elim disjE; simp) presburger+
  then have "roundup pf 0 \<le> roundup pf l" for l by (simp add: roundup_zero)
  moreover have "roundup pf l \<le> 300" if "l < 256" for l using roundup_le [of l] that by simp
  ultimately show ?thesis using assms align
    by (cases a) (auto simp: length_pad length_sockaddrs roundup_zero)
qed

lemma parse_one_inet:
  assumes "i \<le> 7" and "af = lc_af_inet (bp_libc pf) \<or> af = lc_af_inet6 (bp_libc pf)"
    and "uint (b ! 1) = af" and "unat (b ! 0) = length b" and "2 \<le> length b"
    and "parse_inet_addr pf af (pad pf b @ rest) = Ok a"
  shows "parse_one_addr pf f i (pad pf b @ rest) = Ok (a, rest)"
proof -
  have "idx (pad pf b @ rest) 0 = (Ok (b ! 0) :: (_, route_error) res)"
    "idx (pad pf b @ rest) 1 = (Ok (b ! 1) :: (_, route_error) res)"
    using assms(5) by (auto simp: pad_def idx_def nth_append)
  moreover have "advance (pad pf b @ rest) (roundup pf (length b)) = Ok rest"
    by (simp add: advance_Ok length_pad)
  ultimately show ?thesis using assms fams by (auto simp: parse_one_addr_def rtax)
qed

lemma parse_one_KInet4: "i \<le> 7 \<Longrightarrow> parse_one_addr pf f i (kaddr_bytes pf (KInet4 ip) @ rest) = Ok (Addr_Inet4 ip, rest)"
  unfolding kaddr_bytes.simps
  by (rule parse_one_inet [of _ "lc_af_inet (bp_libc pf)"]; cases ip)
    (simp_all add: sockaddr_in_def fams parse_inet_addr_def sizes ensure_def idx_def pad_def)

lemma ne_read:
  "length u = a \<Longrightarrow> u16_from_ne_range pf (u @ u16_to_ne (bp_little_endian pf) w @ v) a (a + 2) = Ok w"
  "length u = a \<Longrightarrow> u32_from_ne_range pf (u @ u32_to_ne (bp_little_endian pf) x @ v) a (a + 4) = Ok x"
  by (simp_all add: u16_from_ne_range_def u32_from_ne_range_def get_range_def u16_to_ne_def u32_to_ne_def
      to_be_bytes_def u16_from_ne_def u32_from_ne_def codec_simps ok_or_def)

lemma parse_one_KInet6:
  assumes "i \<le> 7"
  shows "parse_one_addr pf f i (kaddr_bytes pf (KInet6 ip zone) @ rest) = Ok (kaddr_value (KInet6 ip zone), rest)"
proof -
  let ?b = "pad pf (sockaddr_in6 pf ip zone) @ rest"
  let ?u = "[28, of_int (lc_af_inet6 (bp_libc pf)), 0, 0, 0, 0, 0, 0] @ octets6 ip"
  obtain v where b: "?b = ?u @ u32_to_ne (bp_little_endian pf) zone @ v"
    by (simp add: pad_def sockaddr_in6_def)
  have zone: "u32_from_ne_range pf ?b 24 28 = Ok zone"
    unfolding b using ne_read(2) [of ?u 24] by simp
  have octets: "get_range 8 24 ?b = Some (octets6 ip)"
    unfolding b by (simp add: get_range_def u32_to_ne_def)
  have "28 \<le> length ?b" by (simp add: length_pad length_sockaddrs roundup_ge(1) trans_le_add1)
  then have "parse_inet_addr pf (lc_af_inet6 (bp_libc pf)) ?b = Ok (kaddr_value (KInet6 ip zone))"
    using zone octets fams(8)
    by (cases ip) (simp add: parse_inet_addr_def sizes ensure_def ok_or_def octets6_segments octets6_second kame_scoped_def
        ipv6_from_octets6 Let_def)
  then show ?thesis unfolding kaddr_bytes.simps
    by (intro parse_one_inet [OF assms, of "lc_af_inet6 (bp_libc pf)"])
      (simp_all add: sockaddr_in6_def fams length_sockaddrs u32_to_ne_def)
qed

lemma parse_one_KLink:
  assumes "i \<le> 7" and "kaddr_ok (KLink index name hw)"
  shows "parse_one_addr pf f i (kaddr_bytes pf (KLink index name hw) @ rest) =
    Ok (kaddr_value (KLink index name hw), rest)"
proof -
  let ?sa = "sockaddr_dl pf index name hw"
  let ?b = "pad pf ?sa @ rest"
  let ?u = "[of_nat (8 + length name + length hw), of_int (lc_af_link (bp_libc pf))] :: bytes"
  obtain v where b: "?b = ?u @ u16_to_ne (bp_little_endian pf) index
      @ [6, of_nat (length name), of_nat (length hw), 0] @ name @ hw @ v"
    by (simp add: pad_def sockaddr_dl_def)
  have len: "unat (of_nat (8 + length name + length hw) :: u8) = 8 + length name + length hw"
      "dont_care (of_nat (length name)) = length name" "dont_care (of_nat (length hw)) = length hw"
      "dont_care 0 = 0"
    using assms(2) by (simp_all add: dont_care_def unat_of_nat del: of_nat_add)
  have index: "u16_from_ne_range pf ?b 2 4 = Ok index" unfolding b using ne_read(1) [of ?u 2] by simp
  have "drop 4 ?b = [6, of_nat (length name), of_nat (length hw), 0] @ name @ hw @ v"
    unfolding b by (simp add: u16_to_ne_def)
  moreover have "8 \<le> length ?b" unfolding b by (simp add: u16_to_ne_def)
  ultimately have "parse_link_addr pf ?b = Ok (kaddr_value (KLink index name hw))"
    using assms(2) index
    by (simp add: parse_link_addr_def parse_kernel_link_addr_def len idx_def ensure_def slice_simps from_utf8_def
        Let_def)
  moreover have "idx ?b 0 = (Ok (of_nat (8 + length name + length hw)) :: (_, route_error) res)"
    "idx ?b 1 = (Ok (of_int (lc_af_link (bp_libc pf))) :: (_, route_error) res)"
    unfolding b by (simp_all add: idx_def)
  moreover have "advance ?b (roundup pf (8 + length name + length hw)) = Ok rest"
    by (simp add: advance_Ok length_pad length_sockaddrs)
  ultimately show ?thesis using assms(1) by (simp add: parse_one_addr_def rtax fams len del: of_nat_add)
qed

lemma parse_one_kernel_form:
  assumes "i \<le> 7" and "b ! 1 = 0" and "2 \<le> length b" and "unat (b ! 0) \<noteq> 28" "unat (b ! 0) \<noteq> 16"
    and "length b = roundup pf (unat (b ! 0))" and "kernel_octets 4 4 (length b) (b @ rest) = Ok (octets4 ip)"
  shows "parse_one_addr pf (parse_kernel_inet_addr pf) i (b @ rest) = Ok (Addr_Inet4 ip, rest)"
proof -
  have "b \<noteq> []" using assms(3) by auto
  then have b0: "idx (b @ rest) 0 = (Ok (b ! 0) :: (_, route_error) res)" and
    b1: "idx (b @ rest) (Suc 0) = (Ok 0 :: (_, route_error) res)"
    using assms(2,3) by (simp_all add: idx_def nth_append)
  have l: "kernel_addr_len pf (unat (b ! 0)) (length (b @ rest)) = length b"
    using os assms(6) by (auto simp: kernel_addr_len_def)
  have "parse_kernel_inet_addr pf 0 (b @ rest) = Ok (unat (b ! 0), Addr_Inet4 ip)"
    unfolding parse_kernel_inet_addr_def b0 bind_res.simps l Let_def
    using assms(4,5,7) fams by (simp add: kernel_addr_def sizes ensure_def ipv4_from_octets4)
  then show ?thesis using assms(1,6) fams
    by (simp add: parse_one_addr_def rtax b1 slice_from_in Let_def flip: assms(6))
qed

lemma octets4_mask4: "length oc \<le> 4 \<Longrightarrow> octets4 (mask4 oc) = oc @ replicate (4 - length oc) 0"
proof -
  assume "length oc \<le> 4"
  then have "take 4 (oc @ replicate 4 0) = oc @ replicate (4 - length oc) (0 :: u8)" by simp
  moreover have "octets4 (mask4 oc) = take 4 (oc @ replicate 4 0)"
    using take_drop_nth [of 0 4 "oc @ replicate 4 (0 :: u8)"]
    by (simp add: mask4_def Let_def upt_rec numeral_2_eq_2 numeral_3_eq_3 del: take_append)
  ultimately show ?thesis by simp
qed

lemma parse_one_KMask:
  assumes "i \<le> 7" and "kaddr_ok (KMask oc)"
  shows "parse_one_addr pf (parse_kernel_inet_addr pf) i (kaddr_bytes pf (KMask oc) @ rest) =
    Ok (kaddr_value (KMask oc), rest)"
proof (cases "oc = []")
  case True
  have "replicate 4 (0 :: u8) = [0, 0, 0, 0]" by (simp add: numeral_eq_Suc)
  note simps = kernel_octets_def slice_simps copy_into_def octets4_mask4 this True assms(1)
  consider (four) "roundup pf 0 = 4" "kaddr_bytes pf (KMask oc) = [0, 0, 0, 0]"
    | (eight) "roundup pf 0 = 8" "kaddr_bytes pf (KMask oc) = [0, 0, 0, 0, 0, 0, 0, 0]"
    using True align by (auto simp: numeral_eq_Suc roundup_zero)
  then show ?thesis
  proof cases
    case four
    show ?thesis unfolding four(2) kaddr_value.simps
      by (rule parse_one_kernel_form) (simp_all add: four(1) simps)
  next
    case eight
    show ?thesis unfolding eight(2) kaddr_value.simps
      by (rule parse_one_kernel_form) (simp_all add: eight(1) simps)
  qed
next
  case False
  let ?b = "pad pf ([of_nat (4 + length oc), 0, 0, 0] @ oc)"
  have n: "1 \<le> length oc" "length oc \<le> 4" using False assms(2) by (simp_all add: Suc_leI)
  then have r: "roundup pf (4 + length oc) = 8"
    using align unfolding roundup_eq Let_def by (elim disjE; simp) presburger+
  have len: "unat (of_nat (4 + length oc) :: u8) = 4 + length oc" using n by (simp add: unat_of_nat del: of_nat_add)
  have b: "?b = [of_nat (4 + length oc), 0, 0, 0] @ oc @ replicate (4 - length oc) 0"
  proof -
    have l: "length ([of_nat (4 + length oc), 0, 0, 0] @ oc :: bytes) = 4 + length oc" by simp
    show ?thesis unfolding pad_def l r by (simp del: of_nat_add)
  qed
  have "kernel_octets 4 4 (length ?b) (?b @ rest) = Ok (octets4 (mask4 oc))"
    unfolding b using n by (simp add: kernel_octets_def slice_simps copy_into_def octets4_mask4 del: of_nat_add)
  then have "parse_one_addr pf (parse_kernel_inet_addr pf) i (?b @ rest) = Ok (Addr_Inet4 (mask4 oc), rest)"
    unfolding b using n assms(1) by (intro parse_one_kernel_form) (simp_all add: len r del: of_nat_add)
  then show ?thesis using False by simp
qed

lemma parse_one_kaddr:
  "i \<le> 7 \<Longrightarrow> kaddr_ok a \<Longrightarrow>
     parse_one_addr pf (parse_kernel_inet_addr pf) i (kaddr_bytes pf a @ rest) = Ok (kaddr_value a, rest)"
  by (cases a) (simp_all only: parse_one_KInet4 parse_one_KInet6 parse_one_KLink parse_one_KMask kaddr_value.simps(1))

lemma parse_attrs:
  assumes "i + length xs \<le> 8" and "length xs \<le> n" and "\<forall>a\<in>set (present xs). kaddr_ok a"
    and "\<forall>j<length xs. bit attrs (i + j) \<longleftrightarrow> xs ! j \<noteq> None"
  shows "parse_addrs_loop pf (parse_kernel_inet_addr pf) attrs n i (attrs_bytes pf xs) =
    Ok (map kaddr_value (present xs))"
  using assms
proof (induction xs arbitrary: i n)
  case Nil
  then show ?case using roundup_ge(2) [of 0] by (cases n) simp_all
next
  case (Cons x xs)
  obtain n' where n: "n = Suc n'" using Cons.prems(2) by (cases n) auto
  have "\<forall>j<length xs. bit attrs (Suc i + j) \<longleftrightarrow> xs ! j \<noteq> None"
    using Cons.prems(4) by (metis Suc_less_eq add_Suc_shift length_Cons nth_Cons_Suc)
  then have "parse_addrs_loop pf (parse_kernel_inet_addr pf) attrs n' (Suc i) (attrs_bytes pf xs) =
      Ok (map kaddr_value (present xs))"
    using Cons.prems(1-3) by (intro Cons.IH) (auto simp: n present_def split: option.splits)
  moreover have "bit attrs i \<longleftrightarrow> x \<noteq> None" using Cons.prems(4) by auto
  ultimately show ?case
  proof (cases x)
    case None
    have "present xs = []" if "length (attrs_bytes pf xs) < roundup pf 0"
    proof (rule ccontr)
      assume "present xs \<noteq> []"
      then obtain a as where "present xs = a # as" by (cases "present xs") auto
      then show False using that kaddr_bytes_bounds [of a] Cons.prems(3) None by (simp add: attrs_bytes_def)
    qed
    then show ?thesis using None \<open>bit attrs i \<longleftrightarrow> x \<noteq> None\<close> \<open>parse_addrs_loop _ _ _ n' _ _ = _\<close> by (auto simp: n)
  next
    case (Some a)
    then show ?thesis
      using \<open>bit attrs i \<longleftrightarrow> x \<noteq> None\<close> \<open>parse_addrs_loop _ _ _ n' _ _ = _\<close> Cons.prems(1,3)
        parse_one_kaddr [of i a "attrs_bytes pf xs"] kaddr_bytes_bounds [of a]
      by (simp add: n)
  qed
qed

lemma length_attrs_bytes:
  assumes "kroute_ok r"
  shows "length (attrs_bytes pf (kr_attrs r)) \<le> 2400"
proof -
  have "length (concat (map (kaddr_bytes pf) as)) \<le> 300 * length as" if "\<forall>a\<in>set as. kaddr_ok a" for as
    using that kaddr_bytes_bounds by (induction as) fastforce+
  moreover have "length (present (kr_attrs r)) \<le> 8"
    using assms length_present [of "kr_attrs r"] by (simp add: kroute_ok_def kr_attrs_def)
  ultimately show ?thesis using assms unfolding attrs_bytes_def kroute_ok_def by fastforce
qed

lemma length_kernel_route_header: "length (kernel_route_header pf (wf_body_off fmt) r) = wf_body_off fmt"
  using format(3) by (simp add: kernel_route_header_def Let_def u16_to_ne_def u32_to_ne_def)

lemma length_kernel_route:
  "length (kernel_route pf (wf_body_off fmt) r) = wf_body_off fmt + length (attrs_bytes pf (kr_attrs r))"
  by (simp add: kernel_route_def length_kernel_route_header)

lemma kernel_route_body:
  "drop (wf_body_off fmt) (kernel_route pf (wf_body_off fmt) r) = attrs_bytes pf (kr_attrs r)"
  by (simp add: kernel_route_def length_kernel_route_header)

lemma kernel_route_fields:
  "u16_from_ne_range pf (kernel_route pf (wf_body_off fmt) r) 0 2 =
     Ok (of_nat (wf_body_off fmt + length (attrs_bytes pf (kr_attrs r))))"
  "u16_from_ne_range pf (kernel_route pf (wf_body_off fmt) r) 4 6 = Ok (kr_index r)"
  "u32_from_ne_range pf (kernel_route pf (wf_body_off fmt) r) 8 12 = Ok (kr_flags r)"
  "u32_from_ne_range pf (kernel_route pf (wf_body_off fmt) r) 12 16 = Ok (attrs_word (kr_attrs r))"
  "kernel_route pf (wf_body_off fmt) r ! 2 = of_int (rs_rtm_version (bp_stack pf))"
  "kernel_route pf (wf_body_off fmt) r ! 3 = 4"
proof -
  let ?e = "bp_little_endian pf" and ?m = "kernel_route pf (wf_body_off fmt) r"
  let ?n = "of_nat (wf_body_off fmt + length (attrs_bytes pf (kr_attrs r)))"
  let ?len = "u16_to_ne ?e ?n"
  let ?vt = "[of_int (rs_rtm_version (bp_stack pf)), 4] :: bytes"
  have len: "length (u16_to_ne ?e w) = 2" "length (u32_to_ne ?e x) = 4" for w x
    by (simp_all add: u16_to_ne_def u32_to_ne_def)
  show "u16_from_ne_range pf ?m 0 2 = Ok ?n"
    using ne_read(1) [of "[]" 0 ?n] by (simp add: numeral_2_eq_2 kernel_route_def kernel_route_header_def Let_def)
  show "u16_from_ne_range pf ?m 4 6 = Ok (kr_index r)"
    using ne_read(1) [of "?len @ ?vt" 4] len by (simp add: kernel_route_def kernel_route_header_def Let_def)
  show "u32_from_ne_range pf ?m 8 12 = Ok (kr_flags r)"
    using ne_read(2) [of "?len @ ?vt @ u16_to_ne ?e (kr_index r) @ [0, 0]" 8] len
    by (simp add: kernel_route_def kernel_route_header_def Let_def)
  show "u32_from_ne_range pf ?m 12 16 = Ok (attrs_word (kr_attrs r))"
    using ne_read(2) [of "?len @ ?vt @ u16_to_ne ?e (kr_index r) @ [0, 0] @ u32_to_ne ?e (kr_flags r)" 12] len
    by (simp add: kernel_route_def kernel_route_header_def Let_def)
  show "?m ! 2 = of_int (rs_rtm_version (bp_stack pf))" "?m ! 3 = 4"
    using len(1) by (simp_all add: kernel_route_def kernel_route_header_def Let_def nth_append)
qed

lemma kernel_route_frame: "kroute_ok r \<Longrightarrow> is_frame pf (kernel_route pf (wf_body_off fmt) r)"
  using format(3,4) length_attrs_bytes [of r]
  by (simp add: is_frame_def length_kernel_route kernel_route_fields)

lemma ne_read_total:
  "a + 4 \<le> length data \<Longrightarrow> \<exists>x. u32_from_ne_range pf data a (a + 4) = Ok x"
  by (auto simp: u32_from_ne_range_def get_range_def ok_or_def take_drop_nth eval_nat_numeral)

lemma kroute_addrs:
  assumes "kroute_ok r"
  shows "parse_addrs pf (attrs_word (kr_attrs r)) (parse_kernel_inet_addr pf) (attrs_bytes pf (kr_attrs r)) =
      Ok (map kaddr_value (present (kr_attrs r)))"
    and "0 \<le> sint (attrs_word (kr_attrs r))"
proof -
  have n: "length (kr_attrs r) \<le> 8" using assms by (simp add: kroute_ok_def kr_attrs_def)
  then show "parse_addrs pf (attrs_word (kr_attrs r)) (parse_kernel_inet_addr pf) (attrs_bytes pf (kr_attrs r)) =
      Ok (map kaddr_value (present (kr_attrs r)))"
    unfolding parse_addrs_def using assms rtax(5)
    by (intro parse_attrs) (auto simp: kroute_ok_def bit_attrs_word)
  show "0 \<le> sint (attrs_word (kr_attrs r))"
    using n bit_attrs_word [of "kr_attrs r" 31] by (simp add: sint_uint bit_uint_iff not_less [symmetric])
qed

lemma kernel_route_parsed:
  assumes "kroute_ok r"
  shows "\<exists>m. frame_result pf (kernel_route pf (wf_body_off fmt) r) = Ok (Some (WRoute m)) \<and> represents r m"
proof -
  let ?m = "kernel_route pf (wf_body_off fmt) r"
  let ?n = "wf_body_off fmt + length (attrs_bytes pf (kr_attrs r))"
  obtain ident seq errno where reads: "u32_from_ne_range pf ?m 16 20 = Ok ident"
      "u32_from_ne_range pf ?m 20 24 = Ok seq" "u32_from_ne_range pf ?m 28 32 = Ok errno"
    using ne_read_total [of 16 ?m] ne_read_total [of 20 ?m] ne_read_total [of 28 ?m] format(3)
    by (auto simp: length_kernel_route)
  have "unat (of_nat ?n :: u16) = ?n"
    using format(4) length_attrs_bytes [OF assms] by (simp add: unat_of_nat del: of_nat_add)
  then have "check_header pf fmt ?m = Ok ()"
    by (simp add: check_header_def length_kernel_route kernel_route_fields ensure_def del: of_nat_add)
  moreover have "frame_result pf ?m = parse_route pf fmt ?m"
    using os format version by (auto simp: frame_result_def kernel_route_fields uint_octet wire_parse_def)
  moreover have "slice_from (wf_body_off fmt) ?m = (Ok (drop (wf_body_off fmt) ?m) :: (_, route_error) res)"
    by (simp add: slice_from_in length_kernel_route)
  ultimately show ?thesis
    using format(3) assms by (simp add: parse_route_def kernel_route_fields reads kernel_route_body kroute_addrs
        ensure_def idx_def length_kernel_route represents_def)
qed

lemma table_parsed:
  assumes "\<forall>r\<in>set rs. kroute_ok r"
  shows "\<exists>ms. parse_rib pf typ (concat (map (kernel_route pf (wf_body_off fmt)) rs)) = Ok (map WRoute ms)
     \<and> list_all2 represents rs ms"
proof -
  let ?kr = "kernel_route pf (wf_body_off fmt)"
  have "\<exists>ms. collect_results (map (frame_result pf) (map ?kr rs)) = Ok (map WRoute ms)
      \<and> list_all2 represents rs ms"
    using assms
  proof (induction rs)
    case (Cons r rs)
    then obtain m where "frame_result pf (?kr r) = Ok (Some (WRoute m))" "represents r m"
      using kernel_route_parsed [of r] by auto
    moreover obtain ms where "collect_results (map (frame_result pf) (map ?kr rs)) = Ok (map WRoute ms)"
        "list_all2 represents rs ms"
      using Cons by auto
    ultimately show ?case by (intro exI [of _ "m # ms"]) simp
  qed simp
  moreover have "is_valid_rib_type pf typ" using os by (auto simp: is_valid_rib_type_def)
  ultimately show ?thesis
    using rib_loop_frames [of "map ?kr rs" pf "[]"] kernel_route_frame assms by (auto simp: parse_rib_loop)
qed

lemma is_default_gateway_represents:
  assumes "represents r m"
  shows "is_default_gateway pf m \<longleftrightarrow> is_default_kroute pf r"
proof -
  let ?dst = "kaddr_value (kr_dst r)"
  have m: "rm_flags m = kr_flags r"
      "rm_addrs m = ?dst # kaddr_value (kr_gateway r) # map kaddr_value (present (kr_netmask r # kr_more r))"
    and ok: "kaddr_ok (kr_dst r)" "\<forall>nm. kr_netmask r = Some nm \<longrightarrow> kaddr_ok nm"
    using assms by (auto simp: represents_def kr_attrs_def kroute_ok_def)
  have "bp_os pf \<noteq> MacOS" using os by auto
  show ?thesis
  proof (cases "kr_netmask r")
    case None
    then have "\<not> zero4 (kr_dst r)" "\<not> zero6 (kr_dst r)" using assms by (simp_all add: represents_def kroute_ok_def)
    then show ?thesis using None zero4_value [OF ok(1)] zero6_value [of "kr_dst r"]
      by (cases ?dst) (simp_all add: is_default_gateway_def is_default_kroute_def m rtax split: rt_addr.split)
  next
    case (Some nm)
    then show ?thesis using \<open>bp_os pf \<noteq> MacOS\<close> ok
      by (cases ?dst; cases "kaddr_value nm")
        (auto simp: is_default_gateway_def is_default_kroute_def m rtax zero4_value zero6_value Let_def)
  qed
qed

lemma router_loop_represents:
  "list_all2 represents rs ms \<Longrightarrow>
     router_loop pf ms = Option.bind (List.find (\<lambda>r. is_default_kroute pf r \<and> kaddr_ip (kr_gateway r) \<noteq> None) rs)
       (\<lambda>r. kaddr_ip (kr_gateway r))"
proof (induction rule: list_all2_induct)
  case (Cons r rs m ms)
  have "rm_addrs m ! 1 = kaddr_value (kr_gateway r)" "1 < length (rm_addrs m)"
    using Cons.hyps(1) by (simp_all add: represents_def kr_attrs_def)
  then show ?case using Cons is_default_gateway_represents [OF Cons.hyps(1)]
    by (cases "kr_gateway r") (auto simp: rtax split: prod.splits)
qed simp

lemma find_represents:
  "list_all2 represents rs ms \<Longrightarrow>
     map_option rm_index (List.find (is_default_gateway pf) ms)
     = map_option kr_index (List.find (is_default_kroute pf) rs)"
  by (induction rule: list_all2_induct)
    (auto simp: is_default_gateway_represents, auto simp: represents_def)

lemma route_messages_WRoute: "route_messages (map WRoute ms) = ms"
  by (induction ms) (simp_all add: route_messages_def map_filter_simps)

lemma routing_table_found:
  assumes "fetch_routing_table pf sc = Some (concat (map (kernel_route pf (wf_body_off fmt)) rs))"
    and "\<forall>r\<in>set rs. kroute_ok r"
  shows "likely_home_router pf sc =
      Ok (Option.bind (List.find (\<lambda>r. is_default_kroute pf r \<and> kaddr_ip (kr_gateway r) \<noteq> None) rs)
        (\<lambda>r. kaddr_ip (kr_gateway r)))"
    and "default_route_interface_index pf sc =
      Ok (map_option (\<lambda>r. ucast (kr_index r)) (List.find (is_default_kroute pf) rs))"
proof -
  let ?table = "concat (map (kernel_route pf (wf_body_off fmt)) rs)"
  obtain ms where ms: "parse_routing_table pf ?table = Ok (Some ms)" "list_all2 represents rs ms"
    using table_parsed [OF assms(2), of "if bp_os pf = MacOS then lc_net_rt_iflist2 (bp_libc pf)
        else lc_net_rt_iflist (bp_libc pf)"]
    by (auto simp: parse_routing_table_def route_messages_WRoute)
  show "likely_home_router pf sc =
      Ok (Option.bind (List.find (\<lambda>r. is_default_kroute pf r \<and> kaddr_ip (kr_gateway r) \<noteq> None) rs)
        (\<lambda>r. kaddr_ip (kr_gateway r)))"
    by (simp add: likely_home_router_def with_routing_table_def assms(1) ms(1) router_loop_represents [OF ms(2)])
  have "map_option (\<lambda>rm. ucast (rm_index rm) :: u32) (List.find (is_default_gateway pf) ms)
      = map_option (\<lambda>r. ucast (kr_index r)) (List.find (is_default_kroute pf) rs)"
    using arg_cong [OF find_represents [OF ms(2)], of "map_option ucast"] by (simp add: option.map_comp o_def)
  then show "default_route_interface_index pf sc =
      Ok (map_option (\<lambda>r. ucast (kr_index r)) (List.find (is_default_kroute pf) rs))"
    by (simp add: default_route_interface_index_def with_routing_table_def assms(1) ms)
qed

end

text \<open>The formats of routes of FreeBSD, by architecture, and of NetBSD.\<close>

definition freebsd_route_format :: "freebsd_consts \<Rightarrow> wire_format" where
  "freebsd_route_format fc = wire_fmt (fb_rt_msghdr10 (fc_native fc) - fb_rt_metrics10 (fc_native fc))
     (fb_rt_msghdr10 (fc_native fc)) MsgRoute"

definition netbsd_route_format :: wire_format where
  "netbsd_route_format = wire_fmt 40 0x78 MsgRoute"

lemma route_formats:
  "rs_wire_formats (freebsd_formats fc) 4 = Some (freebsd_route_format fc)"
  "rs_wire_formats netbsd_stack 4 = Some netbsd_route_format"
  by (simp_all add: stack_defs wire_table_def code_in_def freebsd_rtm_def netbsd_rtm_def
      freebsd_route_format_def netbsd_route_format_def)

lemma stack_versions: "rs_rtm_version (freebsd_formats fc) = 5" "rs_rtm_version netbsd_stack = 4"
    "rs_rtm_version openbsd_stack = 5"
  by (simp_all add: stack_defs)

lemma freebsd_route_format_bounds:
  "fc \<in> set freebsd_archs \<Longrightarrow> 32 \<le> wf_body_off (freebsd_route_format fc)
     \<and> wf_body_off (freebsd_route_format fc) \<le> 1000"
  by (auto simp: freebsd_archs_def freebsd_arch_defs freebsd_route_format_def wire_fmt_def)

lemma route_platforms:
  assumes "families_ok lc"
  shows "fc \<in> set freebsd_archs \<Longrightarrow>
      route_platform (freebsd_platform lc little is64 fc) (freebsd_route_format fc)"
    and "route_platform (netbsd_platform lc little is64) netbsd_route_format"
proof -
  have libc: "libc_ok lc" using assms by (simp add: families_ok_def)
  show "route_platform (freebsd_platform lc little is64 fc) (freebsd_route_format fc)"
    if "fc \<in> set freebsd_archs"
    using rib_platforms(1) [OF libc that] assms freebsd_route_format_bounds [OF that]
    by (simp add: route_platform_def route_platform_axioms_def platform_defs route_formats stack_versions
        freebsd_route_consts_def) (simp add: freebsd_route_format_def wire_fmt_def)
  show "route_platform (netbsd_platform lc little is64) netbsd_route_format"
    using rib_platforms(2) [OF libc] assms
    by (simp add: route_platform_def route_platform_axioms_def platform_defs route_formats stack_versions
        netbsd_route_consts_def) (simp add: netbsd_route_format_def wire_fmt_def)
qed

interpretation netbsd_routes: route_platform "netbsd_platform sample_libc little is64" netbsd_route_format
  for little is64
  by (rule route_platforms(2) [OF sample_families_ok])

section \<open>Properties\<close>

definition sample_platform :: bsd_platform where
  "sample_platform = freebsd_platform sample_libc True True freebsd_amd64"

text \<open>The route to the own network, over the interface \<open>em0\<close>, and a default route with a netmask in
  kernel form.\<close>

definition sample_link :: kaddr where
  "sample_link = KLink 2 [0x65, 0x6d, 0x30] [2, 0, 0, 0, 0, 1]"

definition sample_net_route :: kroute where
  "sample_net_route = \<lparr>kr_index = 2, kr_flags = 1, kr_dst = KInet4 (Ipv4 192 168 0 0), kr_gateway = sample_link,
     kr_netmask = Some (KMask [255, 255, 255]), kr_more = [None, Some sample_link]\<rparr>"

definition sample_kroute :: kroute where
  "sample_kroute = \<lparr>kr_index = 2, kr_flags = 3, kr_dst = KInet4 ipv4_unspecified,
     kr_gateway = KInet4 (Ipv4 192 168 0 1), kr_netmask = Some (KMask []), kr_more = [None, Some sample_link]\<rparr>"

lemma sample_routes_ok: "kroute_ok sample_net_route" "kroute_ok sample_kroute"
  by (auto simp: kroute_ok_def kr_attrs_def sample_net_route_def sample_kroute_def sample_link_def)


text \<open>A message of eight bytes with the version after FreeBSD's.\<close>

definition other_version :: bytes where "other_version = [8, 0, 6, 0, 0, 0, 0, 0]"

text \<open>C11: on FreeBSD (every architecture), NetBSD and Darwin the parser of routing messages never panics,
  on any bytes and for any type of base: truncated, overlong and malformed messages and addresses are
  reported as errors or skipped.\<close>

theorem parse_rib_no_panic:
  assumes "libc_ok lc"
  shows "(\<forall>fc\<in>set freebsd_archs. parse_rib (freebsd_platform lc little is64 fc) typ data \<noteq> Panic)
    \<and> parse_rib (netbsd_platform lc little is64) typ data \<noteq> Panic
    \<and> parse_rib (darwin_platform lc rc code version little is64) typ data \<noteq> Panic"
  using rib_announce_platforms [OF assms] rib_announce.parse_rib_no_Panic by blast

theorem parse_rib_no_panic_witness:
  "parse_rib (freebsd_platform sample_libc True True freebsd_amd64) 1 [5, 0, 5, 4, 0] \<noteq> Panic"
proof -
  have "freebsd_amd64 \<in> set freebsd_archs" by (simp add: freebsd_archs_def)
  then show ?thesis
    using parse_rib_no_panic [OF sample_libc_ok] by blast
qed

text \<open>C38: on OpenBSD, where the formats have no minimal length, an announcement (or a desynchronisation
  message) makes the parser panic exactly when it ends before byte 22 without a zero byte after the
  header: the search for the end of the name runs past the message.\<close>

theorem openbsd_announce_panics:
  assumes "libc_ok lc" and "is_frame (openbsd_platform lc little is64) f"
    and "f ! 2 = 5" and "f ! 3 = 0xf \<or> f ! 3 = 0x10" and "typ \<noteq> 5"
  shows "parse_rib (openbsd_platform lc little is64) typ f = Panic \<longleftrightarrow>
    length f < 22 \<and> (\<forall>j. 6 \<le> j \<and> j < length f \<longrightarrow> f ! j \<noteq> 0)"
proof -
  let ?pf = "openbsd_platform lc little is64"
  let ?w = "wire_fmt 0 0 MsgInterfaceAnnounce"
  have plat: "rib_platform ?pf" by (rule rib_platforms(3) [OF assms(1)])
  have "rs_wire_formats (bp_stack ?pf) (uint (f ! 3)) = Some ?w"
    using assms(4) by (auto simp: platform_defs stack_defs wire_table_def code_in_def openbsd_rtm_def)
  then have frame: "frame_result ?pf f = wire_parse ?pf ?w f"
    using assms(3) by (simp add: frame_result_def platform_defs stack_versions)
  have "check_header ?pf ?w f = Ok ()"
    using assms(2) by (auto simp: check_header_def is_frame_def ensure_def wire_fmt_def unat_of_nat)
  then have "wire_parse ?pf ?w f = Panic \<longleftrightarrow>
      length f < 22 \<and> (\<forall>j. 6 \<le> j \<and> j < length f \<longrightarrow> f ! j \<noteq> 0)"
    by (simp add: rib_platform.wire_parse_Panic [OF plat]
        rib_platform.parse_interface_announce_Panic [OF plat], simp add: wire_fmt_def)
  moreover have "is_valid_rib_type ?pf typ"
    using assms(5) by (simp add: is_valid_rib_type_def platform_defs openbsd_net_rt_stats_def
        openbsd_net_rt_table_def)
  ultimately show ?thesis
    using rib_loop_frames [of "[f]" ?pf "[]"] assms(2) frame
    by (auto simp: parse_rib_loop bind_res_eq_Panic map_res_eq)
qed

theorem openbsd_announce_panics_witness:
  "parse_rib (openbsd_platform sample_libc True True) 3 [8, 0, 5, 0xf, 1, 0, 101, 109] = Panic"
proof -
  let ?f = "[8, 0, 5, 0xf, 1, 0, 101, 109] :: bytes"
  have "is_frame (openbsd_platform sample_libc True True) ?f"
    by (simp add: is_frame_def u16_from_ne_range_def get_range_def ok_or_def u16_from_ne_def u16_from_be_def
        platform_defs)
  then have "parse_rib (openbsd_platform sample_libc True True) 3 ?f = Panic \<longleftrightarrow>
    length ?f < 22 \<and> (\<forall>j. 6 \<le> j \<and> j < length ?f \<longrightarrow> ?f ! j \<noteq> 0)"
    by (intro openbsd_announce_panics [OF sample_libc_ok]) simp_all
  moreover have "\<forall>j. 6 \<le> j \<and> j < length ?f \<longrightarrow> ?f ! j \<noteq> 0"
    by (auto simp: nth_Cons' )
  ultimately show ?thesis by simp
qed

text \<open>C12: parsing a routing information base is parsing its messages one by one. For every sequence of
  messages that are headed by their own length, followed by at most four bytes of padding, the loop
  with its two counters returns, in order, what each message parses to, without those of another
  version or an unknown type, or the first error; it never reports a message mismatch.\<close>

theorem parse_rib_frames:
  assumes "is_valid_rib_type pf typ" and "\<forall>f\<in>set frames. is_frame pf f" and "length padding \<le> 4"
  shows "parse_rib pf typ (concat frames @ padding) = collect_results (map (frame_result pf) frames)"
  using rib_loop_frames [OF assms(2,3)] by (simp add: parse_rib_loop [OF assms(1)])

theorem parse_rib_frames_witness:
  "parse_rib sample_platform 3 (other_version @ other_version @ [1, 2, 3]) = Ok []"
proof -
  have frame: "is_frame sample_platform other_version"
    by (simp add: is_frame_def u16_from_ne_range_def get_range_def ok_or_def u16_from_ne_def u16_from_be_def
        platform_defs sample_platform_def other_version_def)
  have skipped: "frame_result sample_platform other_version = Ok None"
    by (simp add: frame_result_def sample_platform_def platform_defs stack_versions other_version_def)
  have "parse_rib sample_platform 3 (concat [other_version, other_version] @ [1, 2, 3]) =
      collect_results (map (frame_result sample_platform) [other_version, other_version])"
    using frame by (intro parse_rib_frames)
      (simp_all add: is_valid_rib_type_def sample_platform_def platform_defs)
  then show ?thesis using skipped by simp
qed

text \<open>C24: every message the parser returns has the version of the platform's routing stack, and its
  kind is the one the stack assigns to its type.\<close>

theorem parse_rib_typed:
  assumes "parse_rib pf typ data = Ok msgs" and "m \<in> set msgs"
  shows "wire_version m = rs_rtm_version (bp_stack pf)
    \<and> (\<exists>w. rs_wire_formats (bp_stack pf) (wire_type m) = Some w \<and> wire_kind m = wf_typ w)"
proof -
  obtain n k where "rib_loop pf data [] 0 0 = Ok (msgs, n, k)"
    using assms(1) by (auto simp: parse_rib_def res_simps)
  from rib_loop_typed [OF this] assms(2) show ?thesis by (simp add: rib_typed_def)
qed

theorem parse_rib_typed_witness:
  "\<exists>m. parse_rib (netbsd_platform sample_libc True True) 3
       (kernel_route (netbsd_platform sample_libc True True) 0x78 sample_kroute) = Ok [WRoute m]
     \<and> wire_version (WRoute m) = 4"
proof -
  let ?pf = "netbsd_platform sample_libc True True"
  have "wf_body_off netbsd_route_format = 0x78" by (simp add: netbsd_route_format_def wire_fmt_def)
  then obtain m where m: "parse_rib ?pf 3 (kernel_route ?pf 0x78 sample_kroute) = Ok [WRoute m]"
    using netbsd_routes.table_parsed [of "[sample_kroute]" True True 3] sample_routes_ok
    by (auto simp: list_all2_Cons1)
  have "wire_version (WRoute m) = rs_rtm_version (bp_stack ?pf)"
    using parse_rib_typed [OF m] by simp
  then show ?thesis using m by (simp add: platform_defs stack_versions)
qed



end
