(* ===== verification/Netmon_Bsd.thy ===== *)
theory Netmon_Bsd
  imports Bsd_Stacks
begin

text \<open>
  The route monitor of the BSD systems, \<^verbatim>\<open>netwatch/src/netmon/bsd.rs\<close>: which routing messages count
  as a change, draining the routing socket, and recreating it with a backoff. What the socket
  answers, whether a socket can be created, and whether the actor still accepts changes
  (\<open>up n\<close> for the \<open>n\<close>-th) are arguments.
\<close>

section \<open>Interesting messages\<close>

text \<open>A name as the string the other modules use: its bytes as characters.\<close>

definition name_string :: "bytes \<Rightarrow> string" where
  "name_string bs = map (\<lambda>b. char_of (unat b)) bs"

fun is_interesting_message :: "bsd_platform \<Rightarrow> wire_message \<Rightarrow> bool" where
  "is_interesting_message pf (WInterfaceMulticastAddr _) = True"
| "is_interesting_message pf (WInterface _) = False"
| "is_interesting_message pf (WInterfaceAddr msg) =
     (if rc_rtax_ifp (bp_route pf) < length (iam_addrs msg) then
        (case addr_name (iam_addrs msg ! rc_rtax_ifp (bp_route pf)) of
           Some name \<Rightarrow> if \<not> is_interesting_interface True (name_string name) then False else True
         | None \<Rightarrow> True)
      else True)"
| "is_interesting_message pf (WRoute msg) =
     (if rc_rtax_dst (bp_route pf) < length (rm_addrs msg) then
        (case addr_ip (rm_addrs msg ! rc_rtax_dst (bp_route pf)) of
           Some ip \<Rightarrow> if is_link_local ip then False else True
         | None \<Rightarrow> True)
      else True)"
| "is_interesting_message pf (WInterfaceAnnounce _) = False"

definition contains_interesting_message :: "bsd_platform \<Rightarrow> wire_message list \<Rightarrow> bool" where
  "contains_interesting_message pf msgs \<longleftrightarrow> list_ex (is_interesting_message pf) msgs"

section \<open>Reading the socket\<close>

text \<open>The state of the socket's queue at a read: a message (cut off at the size of the buffer), nothing
  left, or an error.\<close>

datatype read_answer = ReadMessage bytes | ReadWouldBlock | ReadError

datatype read_outcome = ReadBreak | ReadCount nat | ReadFailed | ReadPanic

definition initial_buffer :: nat where "initial_buffer = 2048"
definition buffer_limit :: nat where "buffer_limit = 65536"

text \<open>\<open>None\<close> when the answers given do not suffice for the call to return. The result has the new size of
  the buffer and the number of changes sent.\<close>

fun read_available ::
  "bsd_platform \<Rightarrow> (nat \<Rightarrow> bool) \<Rightarrow> read_answer list \<Rightarrow> nat \<Rightarrow> nat \<Rightarrow> nat
     \<Rightarrow> (read_outcome \<times> nat \<times> nat) option" where
  "read_available pf up [] blen read_count sent = None"
| "read_available pf up (ReadWouldBlock # rest) blen read_count sent = Some (ReadCount read_count, blen, sent)"
| "read_available pf up (ReadError # rest) blen read_count sent = Some (ReadFailed, blen, sent)"
| "read_available pf up (ReadMessage m # rest) blen read_count sent =
     (let data = take blen m; read = length data in
      if read = 0 then Some (ReadCount read_count, blen, sent)
      else
        let read_count = Suc read_count;
            blen = (if read = blen \<and> blen < buffer_limit then blen * 2 else blen)
        in case parse_rib pf (lc_net_rt_dump (bp_libc pf)) data of
             Ok msgs \<Rightarrow>
               if contains_interesting_message pf msgs then
                 (if up sent then read_available pf up rest blen read_count (Suc sent)
                  else Some (ReadBreak, blen, sent))
               else read_available pf up rest blen read_count sent
           | Err e \<Rightarrow> read_available pf up rest blen read_count sent
           | Panic \<Rightarrow> Some (ReadPanic, blen, sent))"

section \<open>The task\<close>

definition bsd_initial_backoff :: duration where "bsd_initial_backoff = from_millis 50"
definition bsd_max_backoff :: duration where "bsd_max_backoff = from_secs 30"

text \<open>Recreating the socket: the outcomes of the attempts are consumed until one succeeds, \<open>None\<close> when
  they do not suffice; the waits are recorded.\<close>

fun recreate_socket :: "bool list \<Rightarrow> duration \<Rightarrow> duration list \<times> bool list option" where
  "recreate_socket [] backoff = ([], None)"
| "recreate_socket (created # attempts) backoff =
     (if created then ([backoff], Some attempts)
      else case recreate_socket attempts (min (backoff * 2) bsd_max_backoff) of
          (slept, rest) \<Rightarrow> (backoff # slept, rest))"

text \<open>One turn of the task: waiting for the socket fails (\<open>None\<close>), or the answers of one episode.\<close>

fun bsd_run ::
  "bsd_platform \<Rightarrow> (nat \<Rightarrow> bool) \<Rightarrow> read_answer list option list \<Rightarrow> bool list \<Rightarrow> nat \<Rightarrow> duration \<Rightarrow> nat
     \<Rightarrow> (read_outcome option \<times> nat \<times> duration list)" where
  "bsd_run pf up [] attempts blen backoff sent = (None, sent, [])"
| "bsd_run pf up (None # turns) attempts blen backoff sent =
     (case recreate_socket attempts backoff of
        (slept, None) \<Rightarrow> (None, sent, slept)
      | (slept, Some attempts') \<Rightarrow>
          (case bsd_run pf up turns attempts' blen bsd_initial_backoff sent of
             (out, sent', slept') \<Rightarrow> (out, sent', slept @ slept')))"
| "bsd_run pf up (Some answers # turns) attempts blen backoff sent =
     (case read_available pf up answers blen 0 sent of
        None \<Rightarrow> (None, sent, [])
      | Some (ReadBreak, blen', sent') \<Rightarrow> (Some ReadBreak, sent', [])
      | Some (ReadPanic, blen', sent') \<Rightarrow> (Some ReadPanic, sent', [])
      | Some (ReadCount n, blen', sent') \<Rightarrow> bsd_run pf up turns attempts blen' bsd_initial_backoff sent'
      | Some (ReadFailed, blen', sent') \<Rightarrow>
          (case recreate_socket attempts backoff of
             (slept, None) \<Rightarrow> (None, sent', slept)
           | (slept, Some attempts') \<Rightarrow>
               (case bsd_run pf up turns attempts' blen' bsd_initial_backoff sent' of
                  (out, sent'', slept') \<Rightarrow> (out, sent'', slept @ slept'))))"

text \<open>\<open>created\<close> is the result of creating the first socket.\<close>

definition bsd_route_monitor ::
  "bsd_platform \<Rightarrow> (nat \<Rightarrow> bool) \<Rightarrow> (unit, 'e) res \<Rightarrow> read_answer list option list \<Rightarrow> bool list
     \<Rightarrow> (read_outcome option \<times> nat \<times> duration list, 'e) res" where
  "bsd_route_monitor pf up created turns attempts =
     bind_res created (\<lambda>_. Ok (bsd_run pf up turns attempts initial_buffer bsd_initial_backoff 0))"

section \<open>Facts\<close>

text \<open>
  What is read, as a specification: the kernel cuts a message off at the size of the buffer, which
  starts with some size and, below 64 KiB, is doubled by every message that fills it.
\<close>

fun buffer_after :: "nat \<Rightarrow> read_answer list \<Rightarrow> nat" where
  "buffer_after blen [] = blen"
| "buffer_after blen (ReadMessage m # answers) =
     buffer_after (if blen \<le> length m \<and> blen < 65536 then 2 * blen else blen) answers"
| "buffer_after blen (_ # answers) = buffer_after blen answers"

definition data_at :: "nat \<Rightarrow> read_answer list \<Rightarrow> nat \<Rightarrow> bytes" where
  "data_at blen answers i =
     (case answers ! i of ReadMessage m \<Rightarrow> take (buffer_after blen (take i answers)) m | _ \<Rightarrow> [])"

lemma data_at_0 [simp]: "data_at blen (ReadMessage m # answers) 0 = take blen m"
  by (simp add: data_at_def)

lemma data_at_Suc [simp]: "data_at blen (a # answers) (Suc i) = data_at (buffer_after blen [a]) answers i"
  by (cases a) (simp_all add: data_at_def split: read_answer.split)

lemma data_at_snoc:
  "i = length answers \<Longrightarrow> data_at blen (answers @ [a]) i =
     (case a of ReadMessage m \<Rightarrow> take (buffer_after blen answers) m | _ \<Rightarrow> [])"
  by (simp add: data_at_def split: read_answer.split)

lemma buffer_after_append: "buffer_after blen (as @ bs) = buffer_after (buffer_after blen as) bs"
  by (induction blen as rule: buffer_after.induct) simp_all

text \<open>The sizes the buffer can have.\<close>

definition buffer_ok :: "nat \<Rightarrow> bool" where
  "buffer_ok blen \<longleftrightarrow> (\<exists>k\<le>5. blen = 2048 * 2 ^ k)"

lemma buffer_ok_initial: "buffer_ok 2048"
  unfolding buffer_ok_def by (rule exI [of _ 0]) simp

lemma buffer_ok_bounds: "buffer_ok blen \<Longrightarrow> 2048 \<le> blen \<and> blen \<le> 65536"
proof -
  assume "buffer_ok blen"
  then obtain k where k: "k \<le> 5" "blen = 2048 * 2 ^ k" by (auto simp: buffer_ok_def)
  have "(2 :: nat) ^ k \<le> 2 ^ 5" using k(1) by (intro power_increasing) simp_all
  then show ?thesis using k(2) by simp
qed

lemma buffer_ok_double:
  assumes "buffer_ok blen" and "blen < 65536"
  shows "buffer_ok (2 * blen)"
proof -
  obtain k where k: "k \<le> 5" "blen = 2048 * 2 ^ k" using assms(1) by (auto simp: buffer_ok_def)
  then have "(2 :: nat) ^ k < 2 ^ 5" using assms(2) by simp
  then have "k < 5" by (rule power_less_imp_less_exp [rotated]) simp
  then show ?thesis using k(2) by (auto simp: buffer_ok_def intro!: exI [of _ "Suc k"])
qed

lemma buffer_ok_after: "buffer_ok blen \<Longrightarrow> buffer_ok (buffer_after blen answers)"
  by (induction blen answers rule: buffer_after.induct) (auto simp: buffer_ok_double split: if_splits)

text \<open>The changes of an episode that leaves no message in the queue.\<close>

definition change_in :: "bsd_platform \<Rightarrow> bytes \<Rightarrow> bool" where
  "change_in pf m \<longleftrightarrow> (\<exists>msgs. parse_rib pf (lc_net_rt_dump (bp_libc pf)) m = Ok msgs
     \<and> list_ex (is_interesting_message pf) msgs)"

lemma filter_upt_Suc: "length (filter P [0..<Suc n]) = (if P 0 then 1 else 0) + length (filter (\<lambda>i. P (Suc i)) [0..<n])"
  by (simp add: upt_conv_Cons map_Suc_upt [symmetric] filter_map o_def del: upt_Suc)

lemma read_available_drained:
  assumes "rib_announce pf" and "\<forall>m\<in>set ms. m \<noteq> []" and "\<And>n. up n" and "0 < blen"
  shows "read_available pf up (map ReadMessage ms @ [ReadWouldBlock]) blen n sent =
    Some (ReadCount (n + length ms), buffer_after blen (map ReadMessage ms),
      sent + length (filter (\<lambda>i. change_in pf (data_at blen (map ReadMessage ms) i)) [0..<length ms]))"
  using assms(2,4)
proof (induction ms arbitrary: blen n sent)
  case (Cons m ms)
  let ?blen = "if blen \<le> length m \<and> blen < 65536 then 2 * blen else blen"
  let ?sent = "if change_in pf (take blen m) then Suc sent else sent"
  have "parse_rib pf (lc_net_rt_dump (bp_libc pf)) (take blen m) \<noteq> Panic"
    by (rule rib_announce.parse_rib_no_Panic [OF assms(1)])
  moreover have "(min (length m) blen = blen \<and> blen < buffer_limit) = (blen \<le> length m \<and> blen < 65536)"
    by (auto simp: buffer_limit_def)
  ultimately have step: "read_available pf up (map ReadMessage (m # ms) @ [ReadWouldBlock]) blen n sent =
      read_available pf up (map ReadMessage ms @ [ReadWouldBlock]) ?blen (Suc n) ?sent"
    using assms(3) Cons.prems
    by (auto simp: Let_def change_in_def contains_interesting_message_def mult.commute split: res.splits)
  have "0 < ?blen" "\<forall>m\<in>set ms. m \<noteq> []" using Cons.prems by simp_all
  from Cons.IH [OF this(2,1)] show ?case unfolding step by (simp add: filter_upt_Suc del: upt_Suc)
qed simp

text \<open>The waits between attempts to recreate the socket.\<close>

definition bsd_backoff_at :: "nat \<Rightarrow> duration" where
  "bsd_backoff_at k = min (2 ^ k * bsd_initial_backoff) bsd_max_backoff"

lemma bsd_backoff_Suc: "min (bsd_backoff_at k * 2) bsd_max_backoff = bsd_backoff_at (Suc k)"
  by (simp add: bsd_backoff_at_def min_def)

lemma recreate_socket_waits:
  "recreate_socket (replicate n False @ True # attempts) (bsd_backoff_at k) =
     (map bsd_backoff_at [k..<Suc (k + n)], Some attempts)"
proof (induction n arbitrary: k)
  case (Suc n)
  then show ?case using Suc [of "Suc k"] by (simp add: bsd_backoff_Suc upt_conv_Cons del: upt_Suc)
qed simp

text \<open>The waits of a run.\<close>

definition wait_ok :: "duration \<Rightarrow> bool" where
  "wait_ok d \<longleftrightarrow> bsd_initial_backoff \<le> d \<and> d \<le> bsd_max_backoff"

lemma wait_ok_initial: "wait_ok bsd_initial_backoff"
  by (simp add: wait_ok_def bsd_initial_backoff_def bsd_max_backoff_def from_millis_def from_secs_def)

lemma recreate_socket_bounds:
  "wait_ok backoff \<Longrightarrow> recreate_socket attempts backoff = (slept, rest) \<Longrightarrow> \<forall>d\<in>set slept. wait_ok d"
proof (induction attempts arbitrary: backoff slept rest)
  case (Cons created attempts)
  have "wait_ok (min (backoff * 2) bsd_max_backoff)"
    using Cons.prems(1) wait_ok_initial by (simp add: wait_ok_def)
  then show ?case using Cons by (auto split: if_splits prod.splits)
qed simp

lemma bsd_run_bounds:
  "wait_ok backoff \<Longrightarrow> bsd_run pf up turns attempts blen backoff sent = (out, n, slept)
     \<Longrightarrow> \<forall>d\<in>set slept. wait_ok d"
proof (induction pf up turns attempts blen backoff sent arbitrary: out n slept rule: bsd_run.induct)
  case (2 pf up turns attempts blen backoff sent)
  then show ?case using recreate_socket_bounds [OF 2(2)] wait_ok_initial
    by (auto split: prod.splits option.splits)
next
  case (3 pf up answers turns attempts blen backoff sent)
  show ?case using 3(1,2,4) recreate_socket_bounds [OF 3(3)] wait_ok_initial
    by (auto split: prod.splits option.splits read_outcome.splits)
qed simp

text \<open>There are at most as many addresses as attributes.\<close>

lemma parse_addrs_loop_length:
  "parse_addrs_loop pf f attrs n i b = Ok addrs \<Longrightarrow> length addrs \<le> card {j. i \<le> j \<and> j < i + n \<and> bit attrs j}"
proof (induction n arbitrary: i b addrs)
  case (Suc n)
  have fin: "finite {j. i \<le> j \<and> j < i + Suc n \<and> bit attrs j}" by simp
  have sub: "{j. Suc i \<le> j \<and> j < Suc i + n \<and> bit attrs j} \<subseteq> {j. i \<le> j \<and> j < i + Suc n \<and> bit attrs j}"
    by auto
  show ?case
  proof (cases "length b < roundup pf 0 \<or> \<not> bit attrs i")
    case True
    then show ?thesis using Suc card_mono [OF fin sub] by (fastforce split: if_splits)
  next
    case False
    then obtain a b' rest where "parse_addrs_loop pf f attrs n (Suc i) b' = Ok rest" "addrs = a # rest"
      using Suc.prems by (auto simp: res_simps)
    moreover have "{j. i \<le> j \<and> j < i + Suc n \<and> bit attrs j} =
        insert i {j. Suc i \<le> j \<and> j < Suc i + n \<and> bit attrs j}"
      using False by (auto simp: Suc_le_eq le_less)
    ultimately show ?thesis using Suc.IH [of "Suc i" b' rest] by simp
  qed
qed simp

section \<open>Properties\<close>

text \<open>C25: one readiness episode drains the socket. On a platform whose parser does not panic (FreeBSD,
  NetBSD and macOS), while the actor accepts changes, and whatever non-empty messages are queued, of
  whatever sizes: every one of them is read before the call returns; a change is sent for each whose
  bytes, cut off at the size of the buffer at that time, contain an interesting routing message, and
  for those only; and the buffer, doubled by every message that fills it, ends with at most 64 KiB.\<close>

theorem read_available_drains:
  assumes "rib_announce pf" and "\<forall>m\<in>set ms. m \<noteq> []" and "\<forall>n. up n"
  shows "read_available pf up (map ReadMessage ms @ [ReadWouldBlock]) initial_buffer 0 sent =
      Some (ReadCount (length ms), buffer_after 2048 (map ReadMessage ms),
        sent + length (filter (\<lambda>i. change_in pf (data_at 2048 (map ReadMessage ms) i)) [0..<length ms]))
    \<and> buffer_after 2048 (map ReadMessage ms) \<le> 65536"
  using read_available_drained [OF assms(1,2), of up 2048 0 sent] assms(3)
    buffer_ok_bounds [OF buffer_ok_after [OF buffer_ok_initial]]
  by (simp add: initial_buffer_def)

theorem read_available_drains_witness:
  "\<exists>ms. length ms = 7 \<and> (\<forall>m\<in>set ms. length m = 70000)
     \<and> read_available sample_platform (\<lambda>_. True) (map ReadMessage ms @ [ReadWouldBlock]) initial_buffer 0 0 =
         Some (ReadCount 7, 65536, length (filter (\<lambda>i. change_in sample_platform
           (data_at 2048 (map ReadMessage ms) i)) [0..<7]))"
proof -
  have pf: "rib_announce sample_platform"
    unfolding sample_platform_def
    by (rule rib_announce_platforms(1) [OF sample_libc_ok]) (simp add: freebsd_archs_def)
  obtain m :: bytes where m: "length m = 70000" using Ex_list_of_length [of 70000] by (elim exE)
  let ?ms = "[m, m, m, m, m, m, m]"
  have len: "length ?ms = 7" by simp
  have full: "buffer_after 2048 (map ReadMessage ?ms) = 65536" using m by simp
  have nonempty: "\<forall>m\<in>set ?ms. m \<noteq> []" using m by auto
  have "\<forall>n :: nat. (\<lambda>_. True) n" by simp
  note read = conjunct1 [OF read_available_drains [OF pf nonempty this, of 0], unfolded full len add_0]
  show ?thesis by (rule exI [of _ ?ms], intro conjI, rule len, simp add: m, rule read)
qed

text \<open>C39: a message about an interface address with at most four attributes set is never filtered by its
  interface: it is reported as a change, whatever its interface. The parser pushes only the addresses
  present, so the entry at the index of the interface name, four, exists only when at least five
  attributes are set (and is then the fifth address present, which need not be the interface).\<close>

theorem interface_addr_not_filtered:
  assumes "parse_addrs pf attrs f body = Ok (iam_addrs m)"
    and "card {j. j < rc_rtax_max (bp_route pf) \<and> bit attrs j} \<le> rc_rtax_ifp (bp_route pf)"
  shows "is_interesting_message pf (WInterfaceAddr m)"
proof -
  have "length (iam_addrs m) \<le> card {j. j < rc_rtax_max (bp_route pf) \<and> bit attrs j}"
    using parse_addrs_loop_length [of pf f attrs "rc_rtax_max (bp_route pf)" 0 body] assms(1)
    by (simp add: parse_addrs_def)
  then show ?thesis using assms(2) by simp
qed

text \<open>The address part of a message about an address of the interface \<open>llw\<close>: netmask, interface, address.\<close>

definition sample_addrs :: bytes where
  "sample_addrs = [16, 2, 0, 0, 255, 255, 255, 0, 0, 0, 0, 0, 0, 0, 0, 0]
     @ [12, 18, 1, 0, 6, 3, 0, 0, 108, 108, 119, 0]
     @ [16, 2, 0, 0, 192, 168, 0, 7, 0, 0, 0, 0, 0, 0, 0, 0]"

lemma sample_addrs_parse:
  "parse_addrs sample_platform 0x34 (parse_kernel_inet_addr sample_platform) sample_addrs =
     Ok [Addr_Inet4 (Ipv4 255 255 255 0), Addr_Link 1 (Some [108, 108, 119]) None,
         Addr_Inet4 (Ipv4 192 168 0 7)]"
  by code_simp

theorem interface_addr_not_filtered_witness:
  "\<exists>m. iam_addrs m = [Addr_Inet4 (Ipv4 255 255 255 0), Addr_Link 1 (Some [108, 108, 119]) None,
        Addr_Inet4 (Ipv4 192 168 0 7)]
     \<and> \<not> is_interesting_interface True (name_string [108, 108, 119])
     \<and> is_interesting_message sample_platform (WInterfaceAddr m)"
proof (intro exI conjI)
  let ?m = "\<lparr>iam_version = 5, iam_type = 12, iam_flags = 0, iam_index = 1, iam_addrs =
      [Addr_Inet4 (Ipv4 255 255 255 0), Addr_Link 1 (Some [108, 108, 119]) None, Addr_Inet4 (Ipv4 192 168 0 7)]\<rparr>"
  show "iam_addrs ?m = [Addr_Inet4 (Ipv4 255 255 255 0), Addr_Link 1 (Some [108, 108, 119]) None,
      Addr_Inet4 (Ipv4 192 168 0 7)]" by simp
  show "\<not> is_interesting_interface True (name_string [108, 108, 119])" by code_simp
  have bits: "{j. j < 8 \<and> bit (0x34 :: u32) j} = {2, 4, 5}"
    by (auto simp: numeral_eq_Suc less_Suc_eq)
  have rtax: "rc_rtax_max (bp_route sample_platform) = 8" "rc_rtax_ifp (bp_route sample_platform) = 4"
    by (simp_all add: sample_platform_def platform_defs freebsd_route_consts_def)
  show "is_interesting_message sample_platform (WInterfaceAddr ?m)"
    by (intro interface_addr_not_filtered [where attrs = "0x34" and body = sample_addrs
          and f = "parse_kernel_inet_addr sample_platform"])
      (simp_all only: sample_addrs_parse bits rtax, simp_all)
qed

end
