(* ===== verification/Netmon_System.thy ===== *)
theory Netmon_System
  imports Netmon_Actor Netmon_Linux Netmon_Bsd
begin

text \<open>
  A route monitor and the actor together: the monitor's task reads messages of the operating system
  and, when one counts as a change, waits for room in the actor's channel before it reads on, while
  the actor's loop runs in between. The relation \<open>source_run\<close> is every interleaving of the two.
  The locale \<open>change_source\<close> is the interface between them: a source keeps a private state and
  decides which messages are changes, as a specification over the messages seen so far says. It is
  interpreted for the monitors of Linux and of the BSDs.
\<close>

section \<open>Runs of a monitor with the actor\<close>

text \<open>\<open>consume c m\<close> is the new private state and whether a change is to be sent; \<open>None\<close> when the task
  panics on the message. Then the task is gone, and with it the sender to the actor.\<close>

datatype source_status = Reading | Sending | Dead

text \<open>A run has the messages read so far with the times they were read at, the trace of the actor, the
  private state, the status of the monitor, the current time, and the state of the actor.\<close>

inductive source_run ::
  "('c \<Rightarrow> 'm \<Rightarrow> ('c \<times> bool) option) \<Rightarrow> 'c \<Rightarrow> 'w watch_ops \<Rightarrow> bool
     \<Rightarrow> (instant \<times> 'm) list \<Rightarrow> (instant \<times> mon_label) list \<Rightarrow> 'c \<Rightarrow> source_status \<Rightarrow> instant \<Rightarrow> 'w run_state
     \<Rightarrow> bool"
  for consume :: "'c \<Rightarrow> 'm \<Rightarrow> ('c \<times> bool) option" and c0 :: 'c and ops :: "'w watch_ops" and mobile :: bool where
  start: "monitor_new ops snap now (Ok () :: (unit, unit) res) = Ok r
    \<Longrightarrow> source_run consume c0 ops mobile [] [] c0 Reading now r"
| read: "source_run consume c0 ops mobile ms tr c Reading t r \<Longrightarrow> t \<le> now \<Longrightarrow> consume c m = Some (c', change)
    \<Longrightarrow> source_run consume c0 ops mobile (ms @ [(now, m)]) tr c' (if change then Sending else Reading) now r"
| die: "source_run consume c0 ops mobile ms tr c Reading t r \<Longrightarrow> t \<le> now \<Longrightarrow> consume c m = None
    \<Longrightarrow> source_run consume c0 ops mobile (ms @ [(now, m)]) (tr @ [(now, Other)]) c Dead now
          (r\<lparr>rs_actor := (rs_actor r)\<lparr>ac_mon_senders := 0\<rparr>\<rparr>)"
| send: "source_run consume c0 ops mobile ms tr c Sending t r \<Longrightarrow> t \<le> now \<Longrightarrow> 0 < ac_mon_senders (rs_actor r)
    \<Longrightarrow> mon_send r = (Some True, r')
    \<Longrightarrow> source_run consume c0 ops mobile ms (tr @ [(now, Accepted)]) c Reading now r'"
| branch: "source_run consume c0 ops mobile ms tr c st t r \<Longrightarrow> rs_running r \<Longrightarrow> t \<le> now
    \<Longrightarrow> run_iteration ops mobile now b r = Some r'
    \<Longrightarrow> source_run consume c0 ops mobile ms (tr @ [(now, branch_label mobile now b r)]) c st now r'"
| external: "source_run consume c0 ops mobile ms tr c st t r \<Longrightarrow> t \<le> now
    \<Longrightarrow> monitor_network_change r = (Some (Ok () :: (unit, unit monitor_error) res), r')
    \<Longrightarrow> source_run consume c0 ops mobile ms (tr @ [(now, Accepted)]) c st now r'"

text \<open>The actor's part of a run is a run of the actor.\<close>

lemma source_run_actor:
  "source_run consume c0 ops mobile ms tr c st t r \<Longrightarrow> \<exists>t'\<le>t. mon_run ops mobile tr t' r"
proof (induction rule: source_run.induct)
  case (start snap now r)
  then show ?case by (blast intro: mon_run.start)
next
  case (read ms tr c t r now m c' change)
  then show ?case by (meson order_trans)
next
  case (die ms tr c t r now m)
  then obtain t' where "t' \<le> t" "mon_run ops mobile tr t' r" by blast
  then show ?case using die.hyps by (intro exI [of _ now]) (auto intro: mon_run.os_gone order_trans)
next
  case (send ms tr c t r now r')
  then obtain t' where "t' \<le> t" "mon_run ops mobile tr t' r" by blast
  then show ?case using send.hyps by (intro exI [of _ now]) (auto intro: mon_run.os_change order_trans)
next
  case (branch ms tr c st t r now b r')
  then obtain t' where "t' \<le> t" "mon_run ops mobile tr t' r" by blast
  then show ?case using branch.hyps by (intro exI [of _ now]) (auto intro: mon_run.branch order_trans)
next
  case (external ms tr c st t r now r')
  then obtain t' where "t' \<le> t" "mon_run ops mobile tr t' r" by blast
  then show ?case using external.hyps by (intro exI [of _ now]) (auto intro: mon_run.external order_trans)
qed

text \<open>The private state after some messages, \<open>None\<close> when the task panicked on one of them.\<close>

definition source_state :: "('c \<Rightarrow> 'm \<Rightarrow> ('c \<times> bool) option) \<Rightarrow> 'c \<Rightarrow> 'm list \<Rightarrow> 'c option" where
  "source_state consume c0 ms =
     fold (\<lambda>m state. Option.bind state (\<lambda>c. map_option fst (consume c m))) ms (Some c0)"

lemma source_state_simps [simp]:
  "source_state consume c0 [] = Some c0"
  "source_state consume c0 (ms @ [m]) =
     Option.bind (source_state consume c0 ms) (\<lambda>c. map_option fst (consume c m))"
  by (simp_all add: source_state_def)

lemma source_run_state:
  "source_run consume c0 ops mobile ms tr c st t r \<Longrightarrow> st \<noteq> Dead \<Longrightarrow> source_state consume c0 (map snd ms) = Some c"
  by (induction rule: source_run.induct) simp_all

text \<open>A monitor that panics on no message does not die.\<close>

lemma source_run_alive:
  "source_run consume c0 ops mobile ms tr c st t r \<Longrightarrow> (\<And>c m. consume c m \<noteq> None) \<Longrightarrow> st \<noteq> Dead"
  by (induction rule: source_run.induct) simp_all

lemma source_run_times: "source_run consume c0 ops mobile ms tr c st t r \<Longrightarrow> x \<in> set ms \<Longrightarrow> fst x \<le> t"
  by (induction rule: source_run.induct) (auto intro: order_trans)

section \<open>Progress\<close>

text \<open>While the monitor lives neither channel loses its last sender, so the actor's loop does not end.\<close>

lemma source_run_running:
  "source_run consume c0 ops mobile ms tr c st t r \<Longrightarrow>
     st \<noteq> Dead \<longrightarrow> rs_running r \<and> 0 < ac_mon_senders (rs_actor r) \<and> 0 < ac_actor_senders (rs_actor r)"
proof (induction rule: source_run.induct)
  case (branch ms tr c st t r now b r')
  then show ?case
    by (cases b) (auto simp: run_iteration_defs handle_potential_change_def split: if_splits)
qed (auto simp: start_defs send_defs split: if_splits)

definition idle :: "'w run_state \<Rightarrow> bool" where
  "idle r \<longleftrightarrow> \<not> rs_pending r \<and> ac_mon_queue (rs_actor r) = 0 \<and> ac_actor_queue (rs_actor r) = 0"

text \<open>The loop can empty both channels.\<close>

lemma source_run_drain:
  "source_run consume c0 ops mobile ms tr c st t r \<Longrightarrow> st \<noteq> Dead \<Longrightarrow>
     \<exists>tr' r'. source_run consume c0 ops mobile ms (tr @ tr') c st t r'
       \<and> ac_mon_queue (rs_actor r') = 0 \<and> ac_actor_queue (rs_actor r') = 0"
proof (induction "ac_mon_queue (rs_actor r) + ac_actor_queue (rs_actor r)" arbitrary: tr r rule: less_induct)
  case less
  have running: "rs_running r" using source_run_running [OF less.prems(1)] less.prems(2) by simp
  let ?take = "\<lambda>b. \<exists>r1. run_iteration ops mobile t b r = Some r1
    \<and> ac_mon_queue (rs_actor r1) + ac_actor_queue (rs_actor r1)
      < ac_mon_queue (rs_actor r) + ac_actor_queue (rs_actor r)"
  consider "ac_mon_queue (rs_actor r) = 0 \<and> ac_actor_queue (rs_actor r) = 0" | b where "?take b"
  proof (cases "ac_mon_queue (rs_actor r) = 0")
    case True
    then show thesis using that(1) that(2) [of ActorRecv] by (cases "ac_actor_queue (rs_actor r) = 0") (auto simp: Let_def)
  next
    case False
    then show thesis using that(2) [of MonRecv] by (auto simp: Let_def)
  qed
  then show ?case
  proof cases
    case 1
    then show ?thesis using less.prems(1) by (intro exI [of _ "[]"] exI [of _ r]) simp
  next
    case 2
    then obtain r1 where "run_iteration ops mobile t b r = Some r1"
      and smaller: "ac_mon_queue (rs_actor r1) + ac_actor_queue (rs_actor r1)
        < ac_mon_queue (rs_actor r) + ac_actor_queue (rs_actor r)" by blast
    then have "source_run consume c0 ops mobile ms (tr @ [(t, branch_label mobile t b r)]) c st t r1"
      by (intro source_run.branch [OF less.prems(1) running order_refl])
    from less.hyps [OF smaller this less.prems(2)] show ?thesis by (metis append_assoc)
  qed
qed

text \<open>From there the pending changes can be handled once the timer has elapsed.\<close>

lemma source_run_handle:
  assumes "source_run consume c0 ops mobile ms tr c st t r" and "st \<noteq> Dead"
    and "ac_mon_queue (rs_actor r) = 0" and "ac_actor_queue (rs_actor r) = 0"
  shows "\<exists>tr' t' r'. source_run consume c0 ops mobile ms (tr @ tr') c st t' r' \<and> idle r'
    \<and> (rs_pending r \<longrightarrow> last_handled (tr @ tr') = Some (t', snap))"
proof (cases "rs_pending r")
  case True
  let ?now = "max t (rs_debounce r)" and ?b = "Debounce snap"
  obtain r1 where r1: "run_iteration ops mobile ?now ?b r = Some r1" "idle r1"
    using True assms(3,4) by (auto simp: idle_def rs_pending_def handle_potential_change_def Let_def)
  have "source_run consume c0 ops mobile ms (tr @ [(?now, branch_label mobile ?now ?b r)]) c st ?now r1"
    using source_run_running [OF assms(1)] assms(2) r1(1) by (intro source_run.branch [OF assms(1)]) auto
  then show ?thesis using r1(2)
    by (intro exI [of _ "[(?now, branch_label mobile ?now ?b r)]"] exI [of _ ?now] exI [of _ r1])
      (simp add: branch_label_def handled_step_def)
next
  case False
  then show ?thesis using assms by (intro exI [of _ "[]"] exI [of _ t] exI [of _ r]) (simp add: idle_def)
qed

lemma source_run_settles:
  assumes run: "source_run consume c0 ops mobile ms tr c st t r" and alive: "st \<noteq> Dead"
  shows "\<exists>tr' t' r'. source_run consume c0 ops mobile ms (tr @ tr') c Reading t' r' \<and> idle r'"
proof -
  obtain tr1 r1 where drained: "source_run consume c0 ops mobile ms (tr @ tr1) c st t r1"
      "ac_mon_queue (rs_actor r1) = 0" "ac_actor_queue (rs_actor r1) = 0"
    using source_run_drain [OF run alive] by blast
  note running = source_run_running [OF drained(1), rule_format, OF alive]
  have "\<exists>tr2 r2. source_run consume c0 ops mobile ms (tr @ tr2) c Reading t r2"
  proof (cases st)
    case Sending
    then obtain r2 where "mon_send r1 = (Some True, r2)"
      using running drained(2) by (auto simp: mon_send_def mon_chan_capacity_def Let_def)
    then have "source_run consume c0 ops mobile ms ((tr @ tr1) @ [(t, Accepted)]) c Reading t r2"
      using drained(1) running Sending by (intro source_run.send [OF _ order_refl]) auto
    then show ?thesis by (metis append_assoc)
  qed (use alive drained(1) in auto)
  then obtain tr2 r2 where sent: "source_run consume c0 ops mobile ms (tr @ tr2) c Reading t r2" by blast
  obtain tr3 r3 where "source_run consume c0 ops mobile ms ((tr @ tr2) @ tr3) c Reading t r3"
      "ac_mon_queue (rs_actor r3) = 0" "ac_actor_queue (rs_actor r3) = 0"
    using source_run_drain [OF sent] by auto
  from source_run_handle [OF this(1) _ this(2,3), of undefined] show ?thesis
    by (metis append_assoc source_status.distinct(3))
qed

section \<open>The interface\<close>

locale change_source =
  fixes consume :: "'c \<Rightarrow> 'm \<Rightarrow> ('c \<times> bool) option"
    and c0 :: 'c
    and changes :: "'m list \<Rightarrow> 'm \<Rightarrow> bool"
  assumes consume_changes:
    "source_state consume c0 ms = Some c \<Longrightarrow> consume c m = Some (c', change) \<Longrightarrow> change \<longleftrightarrow> changes ms m"
begin

text \<open>As long as the monitor lives, a change that was read is waiting to be sent, as the last message
  read, or was accepted since.\<close>

lemma change_accepted:
  assumes "source_run consume c0 ops mobile ms tr c st t r"
    and "i < length ms" and "changes (map snd (take i ms)) (snd (ms ! i))"
  shows "st = Dead \<or> (st = Sending \<and> Suc i = length ms) \<or> (\<exists>ta. (ta, Accepted) \<in> set tr \<and> fst (ms ! i) \<le> ta)"
  using assms
proof (induction rule: source_run.induct)
  case (read ms tr c t r now m c' change)
  show ?case
  proof (cases "i < length ms")
    case True
    then show ?thesis using read.IH read.prems by (auto simp: nth_append)
  next
    case False
    then have "i = length ms" using read.prems(1) by simp
    moreover from this have "change"
      using read.prems(2) consume_changes [OF source_run_state [OF read.hyps(1)] read.hyps(3)] by simp
    ultimately show ?thesis by simp
  qed
next
  case (send ms tr c t r now r')
  have "fst (ms ! i) \<le> now"
    using source_run_times [OF send.hyps(1) nth_mem [OF send.prems(1)]] send.hyps(2) by simp
  then show ?case using send.IH [OF send.prems] by (auto intro: exI [of _ now])
qed auto

lemma idle_fresh:
  assumes "watchable_ok ops" and run: "source_run consume c0 ops mobile ms tr c Reading t r"
    and "i < length ms" and "changes (map snd (take i ms)) (snd (ms ! i))"
    and "idle r"
  shows "\<exists>th snap. last_handled tr = Some (th, snap) \<and> fst (ms ! i) + debounce_time \<le> th
    \<and> publishes (monitor_interface_state ops r) snap"
proof -
  obtain t' where actor: "mon_run ops mobile tr t' r" using source_run_actor [OF run] by blast
  obtain ta where "(ta, Accepted) \<in> set tr" "fst (ms ! i) \<le> ta"
    using change_accepted [OF run assms(3,4)] by blast
  then show ?thesis
    using mon_run_settled [OF actor, of ta] mon_run_publishes [OF actor assms(1)] assms(5)
    by (fastforce simp: settled_def idle_def)
qed

end

section \<open>Linux\<close>

text \<open>One message of the netlink stream. The end of a connection is followed by a new one, which starts
  with an empty cache.\<close>

fun linux_consume :: "addr_cache \<Rightarrow> netlink_payload \<Rightarrow> (addr_cache \<times> bool) option" where
  "linux_consume cache NetlinkError = Some (cache, False)"
| "linux_consume cache NetlinkDone = Some (Map.empty, False)"
| "linux_consume cache (InnerMessage msg) = Some (handle_message msg cache)"
| "linux_consume cache OtherPayload = Some (cache, False)"

lemma linux_consume_alive: "linux_consume cache p \<noteq> None"
  by (cases p) simp_all

text \<open>This is the body of the loop of \<open>process_messages\<close>.\<close>

lemma process_loop_consume:
  "process_loop up (p # ps) cache sent =
     (if p = NetlinkDone then (True, sent)
      else case the (linux_consume cache p) of
          (cache', False) \<Rightarrow> process_loop up ps cache' sent
        | (cache', True) \<Rightarrow> if up sent then process_loop up ps cache' (Suc sent) else (False, sent))"
  by (cases p) (simp_all split: prod.splits bool.splits)

text \<open>The messages of the current connection.\<close>

definition connection_messages :: "netlink_payload list \<Rightarrow> route_netlink_message list" where
  "connection_messages ps =
     List.map_filter (\<lambda>p. case p of InnerMessage m \<Rightarrow> Some m | _ \<Rightarrow> None)
       (rev (takeWhile (\<lambda>p. p \<noteq> NetlinkDone) (rev ps)))"

lemma connection_messages_snoc:
  "connection_messages (ps @ [p]) =
     (case p of NetlinkDone \<Rightarrow> [] | InnerMessage m \<Rightarrow> connection_messages ps @ [m] | _ \<Rightarrow> connection_messages ps)"
  by (cases p) (simp_all add: connection_messages_def map_filter_def)

definition linux_changes :: "netlink_payload list \<Rightarrow> netlink_payload \<Rightarrow> bool" where
  "linux_changes ps p \<longleftrightarrow> (\<exists>m. p = InnerMessage m \<and> announces (connection_messages ps) m)"

lemma linux_cache:
  "source_state linux_consume Map.empty ps = Some cache \<Longrightarrow> cache_ok (connection_messages ps) cache"
proof (induction ps arbitrary: cache rule: rev_induct)
  case Nil
  then show ?case by (auto simp: connection_messages_def cache_ok_empty)
next
  case (snoc p ps)
  then obtain cache' where state: "source_state linux_consume Map.empty ps = Some cache'"
    and cache: "map_option fst (linux_consume cache' p) = Some cache" by (auto simp: bind_eq_Some_conv)
  show ?case using handle_message_refines [OF snoc.IH [OF state]] cache snoc.IH [OF state]
    by (cases p) (auto simp: connection_messages_snoc cache_ok_empty)
qed

interpretation linux_source: change_source linux_consume Map.empty linux_changes
proof
  fix ps c p c' change
  assume state: "source_state linux_consume Map.empty ps = Some c" and "linux_consume c p = Some (c', change)"
  then show "change \<longleftrightarrow> linux_changes ps p"
    using handle_message_refines [OF linux_cache [OF state]]
    by (cases p) (simp_all add: linux_changes_def, metis snd_conv)
qed

section \<open>The BSDs\<close>

text \<open>One answer of the routing socket; the private state is the size of the buffer, which is kept when
  the socket is recreated. A panic of the parser ends the task.\<close>

definition bsd_consume :: "bsd_platform \<Rightarrow> nat \<Rightarrow> read_answer \<Rightarrow> (nat \<times> bool) option" where
  "bsd_consume pf blen answer =
     (case answer of
        ReadMessage m \<Rightarrow>
          let data = take blen m; read = length data in
          if read = 0 then Some (blen, False)
          else
            let blen = (if read = blen \<and> blen < buffer_limit then blen * 2 else blen) in
            (case parse_rib pf (lc_net_rt_dump (bp_libc pf)) data of
               Ok msgs \<Rightarrow> Some (blen, contains_interesting_message pf msgs)
             | Err e \<Rightarrow> Some (blen, False)
             | Panic \<Rightarrow> None)
      | ReadWouldBlock \<Rightarrow> Some (blen, False)
      | ReadError \<Rightarrow> Some (blen, False))"

text \<open>This is the body of the loop of \<open>read_available\<close>.\<close>

lemma read_available_consume:
  assumes "m \<noteq> []" and "0 < blen"
  shows "read_available pf up (ReadMessage m # rest) blen n sent =
    (case bsd_consume pf blen (ReadMessage m) of
       Some (blen', True) \<Rightarrow> if up sent then read_available pf up rest blen' (Suc n) (Suc sent)
         else Some (ReadBreak, blen', sent)
     | Some (blen', False) \<Rightarrow> read_available pf up rest blen' (Suc n) sent
     | None \<Rightarrow> Some (ReadPanic, buffer_after blen [ReadMessage m], sent))"
  using assms
  by (auto simp: bsd_consume_def Let_def min_def buffer_limit_def split: res.splits bool.splits)

lemma bsd_consume_alive:
  assumes "rib_announce pf"
  shows "bsd_consume pf blen answer \<noteq> None"
  using rib_announce.parse_rib_no_Panic [OF assms]
  by (auto simp: bsd_consume_def Let_def split: res.splits read_answer.splits)

lemma not_change_in_Nil: "\<not> change_in pf []"
  by (simp add: change_in_def parse_rib_def rib_loop.simps [of pf "[]"] ensure_def)

text \<open>The buffer of a living monitor is that of the specification.\<close>

lemma bsd_consume_Some:
  assumes "bsd_consume pf blen answer = Some (blen', change)" and "0 < blen"
  shows "blen' = buffer_after blen [answer]"
    and "change \<longleftrightarrow> (\<exists>m. answer = ReadMessage m \<and> change_in pf (take blen m))"
  using assms not_change_in_Nil
  by (auto simp: bsd_consume_def change_in_def contains_interesting_message_def buffer_limit_def Let_def
      split: read_answer.splits res.splits if_splits)

lemma bsd_buffer:
  "source_state (bsd_consume pf) 2048 answers = Some blen \<Longrightarrow> blen = buffer_after 2048 answers \<and> 0 < blen"
proof (induction answers arbitrary: blen rule: rev_induct)
  case (snoc a answers)
  then obtain blen' change where "source_state (bsd_consume pf) 2048 answers = Some blen'"
    and consume: "bsd_consume pf blen' a = Some (blen, change)"
    by (auto simp: bind_eq_Some_conv)
  then have blen': "blen' = buffer_after 2048 answers" "0 < blen'" using snoc.IH by auto
  have "0 < blen" using buffer_ok_bounds [OF buffer_ok_after [OF buffer_ok_initial, of "answers @ [a]"]]
      bsd_consume_Some(1) [OF consume blen'(2)] by (simp add: blen'(1) buffer_after_append)
  then show ?case using bsd_consume_Some(1) [OF consume blen'(2)] by (simp add: blen'(1) buffer_after_append)
qed simp

definition bsd_changes :: "bsd_platform \<Rightarrow> read_answer list \<Rightarrow> read_answer \<Rightarrow> bool" where
  "bsd_changes pf answers a \<longleftrightarrow> change_in pf (data_at 2048 (answers @ [a]) (length answers))"

interpretation bsd_source: change_source "bsd_consume pf" 2048 "bsd_changes pf" for pf
proof
  fix answers blen a blen' change
  assume "source_state (bsd_consume pf) 2048 answers = Some blen" "bsd_consume pf blen a = Some (blen', change)"
  then show "change \<longleftrightarrow> bsd_changes pf answers a"
    using bsd_buffer [of pf answers blen] bsd_consume_Some(2) [of pf blen a blen' change] not_change_in_Nil
    by (cases a) (auto simp: bsd_changes_def data_at_snoc)
qed

section \<open>Properties\<close>

text \<open>A monitor that died did so on a message the parser panicked on.\<close>

lemma bsd_consume_None:
  "bsd_consume pf blen a = None \<Longrightarrow> \<exists>m. a = ReadMessage m
     \<and> parse_rib pf (lc_net_rt_dump (bp_libc pf)) (take blen m) = Panic"
  by (auto simp: bsd_consume_def Let_def split: read_answer.splits res.splits if_splits)

lemma bsd_dead:
  "source_run (bsd_consume pf) 2048 ops mobile ms tr c st t r \<Longrightarrow> st = Dead \<Longrightarrow>
     \<exists>i<length ms. parse_rib pf (lc_net_rt_dump (bp_libc pf)) (data_at 2048 (map snd ms) i) = Panic"
proof (induction rule: source_run.induct)
  case (die ms tr c t r now a)
  have "c = buffer_after 2048 (map snd ms)" using bsd_buffer source_run_state [OF die.hyps(1)] by blast
  with bsd_consume_None [OF die.hyps(3)] show ?case
    by (intro exI [of _ "length ms"]) (auto simp: data_at_snoc)
qed (auto split: if_splits)

text \<open>A run that reads one message after a second.\<close>

lemma sample_source_read:
  assumes "consume c0 m = Some (c, change)"
  shows "source_run consume c0 plain_watch False [(from_secs 1, m)] [] c (if change then Sending else Reading)
    (from_secs 1) sample_start"
proof -
  have "monitor_new plain_watch ([], None) 0 (Ok () :: (unit, unit) res) = Ok sample_start"
    by (simp add: start_defs sample_start_def plain_watch_def)
  then have "source_run consume c0 plain_watch False [] [] c0 Reading 0 sample_start" by (rule source_run.start)
  from source_run.read [OF this _ assms, of "from_secs 1"] show ?thesis by simp
qed

lemma sample_linux_read:
  "source_run linux_consume Map.empty plain_watch False [(from_secs 1, InnerMessage NewRule)] [] Map.empty Sending
     (from_secs 1) sample_start"
  using sample_source_read [of linux_consume Map.empty "InnerMessage NewRule" Map.empty True] by simp

text \<open>C13: on Linux no change is lost between the kernel and the published state. In every interleaving of
  the netlink monitor with the actor, once the monitor waits for its next message and the actor is
  idle, every message read that announces a change (a new address, a withdrawn one, a rule or a route
  that is not skipped) has been followed, at least 250 milliseconds after it was read, by a snapshot
  of the system, which is what is published.\<close>

theorem linux_monitor_end_to_end:
  assumes "watchable_ok ops" and "source_run linux_consume Map.empty ops mobile ms tr c Reading t r" and "idle r"
    and "i < length ms" and "snd (ms ! i) = InnerMessage m"
    and "announces (connection_messages (map snd (take i ms))) m"
  shows "\<exists>th snap. last_handled tr = Some (th, snap) \<and> fst (ms ! i) + from_millis 250 \<le> th
    \<and> publishes (monitor_interface_state ops r) snap"
  using linux_source.idle_fresh [OF assms(1,2,4)] assms(3,5,6)
  by (simp add: linux_changes_def debounce_time_def)

theorem linux_monitor_end_to_end_witness:
  "\<exists>tr c t r th snap. source_run linux_consume Map.empty plain_watch False [(from_secs 1, InnerMessage NewRule)]
       tr c Reading t r
     \<and> last_handled tr = Some (th, snap) \<and> from_secs 1 + from_millis 250 \<le> th
     \<and> publishes (monitor_interface_state plain_watch r) snap"
proof -
  from source_run_settles [OF sample_linux_read] obtain tr t r where
    run: "source_run linux_consume Map.empty plain_watch False [(from_secs 1, InnerMessage NewRule)] tr Map.empty
      Reading t r" "idle r" by auto
  from linux_monitor_end_to_end [OF plain_watch_ok run, of 0 NewRule] obtain th snap where
    "last_handled tr = Some (th, snap) \<and> from_secs 1 + from_millis 250 \<le> th
      \<and> publishes (monitor_interface_state plain_watch r) snap" by auto
  with run(1) show ?thesis by blast
qed

text \<open>C15: on the BSDs the task of the routing monitor dies only by a panic of the parser, and never on a
  platform whose parser does not panic. While it lives no change it read is lost: in every
  interleaving with the actor, once the monitor waits for its next message and the actor is idle, every
  message whose bytes, cut off at the size the buffer had then (2048 bytes, doubled up to 64 KiB by
  the messages that filled it), contain an interesting routing message has been followed, at least
  250 milliseconds after it was read, by a snapshot of the system, which is what is published.\<close>

theorem bsd_monitor_end_to_end:
  assumes "watchable_ok ops" and "source_run (bsd_consume pf) initial_buffer ops mobile ms tr c st t r"
  shows "(st = Dead \<longrightarrow> \<not> rib_announce pf \<and> (\<exists>i<length ms.
        parse_rib pf (lc_net_rt_dump (bp_libc pf)) (data_at 2048 (map snd ms) i) = Panic))
    \<and> (st = Reading \<and> idle r \<longrightarrow> (\<forall>i<length ms. change_in pf (data_at 2048 (map snd ms) i) \<longrightarrow>
        (\<exists>th snap. last_handled tr = Some (th, snap) \<and> fst (ms ! i) + from_millis 250 \<le> th
           \<and> publishes (monitor_interface_state ops r) snap)))"
proof (intro conjI impI allI)
  assume "st = Dead"
  then show "\<not> rib_announce pf" using source_run_alive [OF assms(2)] bsd_consume_alive by blast
  from \<open>st = Dead\<close> show "\<exists>i<length ms.
      parse_rib pf (lc_net_rt_dump (bp_libc pf)) (data_at 2048 (map snd ms) i) = Panic"
    using bsd_dead assms(2) by (simp add: initial_buffer_def)
next
  fix i
  assume idle: "st = Reading \<and> idle r" and i: "i < length ms" and change: "change_in pf (data_at 2048 (map snd ms) i)"
  have "data_at 2048 (map snd (take i ms) @ [snd (ms ! i)]) (length (map snd (take i ms))) =
      data_at 2048 (map snd ms) i"
    unfolding data_at_snoc [OF refl] using i by (simp add: data_at_def take_map split: read_answer.split)
  then have "bsd_changes pf (map snd (take i ms)) (snd (ms ! i))" using change by (simp add: bsd_changes_def)
  with bsd_source.idle_fresh [OF assms(1) _ i] assms(2) idle
  show "\<exists>th snap. last_handled tr = Some (th, snap) \<and> fst (ms ! i) + from_millis 250 \<le> th
      \<and> publishes (monitor_interface_state ops r) snap"
    by (simp add: initial_buffer_def debounce_time_def)
qed

text \<open>A message that a multicast address was added.\<close>

definition sample_multicast :: bytes where
  "sample_multicast = [16, 0, 5, 15, 0, 0, 0, 0, 0, 0, 0, 0, 1, 0, 0, 0]"

lemma sample_multicast_change: "change_in sample_platform sample_multicast"
proof -
  have "case parse_rib sample_platform (lc_net_rt_dump (bp_libc sample_platform)) sample_multicast of
      Ok msgs \<Rightarrow> list_ex (is_interesting_message sample_platform) msgs | _ \<Rightarrow> False" by code_simp
  then show ?thesis by (auto simp: change_in_def split: res.splits)
qed

theorem bsd_monitor_end_to_end_witness:
  "\<exists>tr c t r th snap. source_run (bsd_consume sample_platform) initial_buffer plain_watch False
       [(from_secs 1, ReadMessage sample_multicast)] tr c Reading t r
     \<and> last_handled tr = Some (th, snap) \<and> from_secs 1 + from_millis 250 \<le> th
     \<and> publishes (monitor_interface_state plain_watch r) snap"
proof -
  have "rib_announce sample_platform"
    unfolding sample_platform_def
    by (rule rib_announce_platforms(1) [OF sample_libc_ok]) (simp add: freebsd_archs_def)
  then obtain c change where consume:
    "bsd_consume sample_platform initial_buffer (ReadMessage sample_multicast) = Some (c, change)"
    using bsd_consume_alive by (metis option.exhaust surj_pair)
  have "(if change then Sending else Reading) \<noteq> Dead" by simp
  from source_run_settles [OF sample_source_read [of "bsd_consume sample_platform", OF consume] this] obtain tr t r where
    run: "source_run (bsd_consume sample_platform) initial_buffer plain_watch False
      [(from_secs 1, ReadMessage sample_multicast)] tr c Reading t r" "idle r" by auto
  have "data_at 2048 [ReadMessage sample_multicast] 0 = sample_multicast"
    by (simp add: sample_multicast_def)
  with bsd_monitor_end_to_end [OF plain_watch_ok run(1)] run(2) sample_multicast_change obtain th snap where
    "last_handled tr = Some (th, snap) \<and> from_secs 1 + from_millis 250 \<le> th
      \<and> publishes (monitor_interface_state plain_watch r) snap" by auto
  with run(1) show ?thesis by blast
qed

text \<open>C14: monitor and actor cannot block each other: from every state of a run, whatever messages came
  and however full the channels are, the two can go on until no change waits to be sent, both
  channels are empty and nothing is pending.\<close>

theorem monitor_actor_progress:
  assumes "source_run linux_consume Map.empty ops mobile ms tr c st t r"
  shows "\<exists>tr' t' r'. source_run linux_consume Map.empty ops mobile ms (tr @ tr') c Reading t' r' \<and> idle r'"
  using assms source_run_alive [OF assms linux_consume_alive] by (rule source_run_settles)

theorem monitor_actor_progress_witness:
  "\<exists>tr t r. source_run linux_consume Map.empty plain_watch False [(from_secs 1, InnerMessage NewRule)] tr Map.empty
     Reading t r \<and> idle r"
  using monitor_actor_progress [OF sample_linux_read] by auto

end
