(* ===== verification/Netmon_Windows.thy ===== *)
theory Netmon_Windows
  imports Netmon_Actor
begin

text \<open>
  The route monitor of Windows, \<^verbatim>\<open>netwatch/src/netmon/windows.rs\<close>: the handler that registers two
  callbacks with the system and owns the closures they point to. The system's notification calls are
  an argument (\<open>win_api\<close>) with their documented contract \<open>win_api_ok\<close>. A closure is identified
  by the address handed to the system as context; it is allocated as long as one of the handler's
  maps owns it, so whether a callback reads freed memory is a question of the model.
\<close>

section \<open>The system\<close>

datatype change_kind = UnicastAddress | RouteChange

datatype win_error = Win_Io nat | Win32 int

text \<open>\<open>registered\<close> is what the system will call: for each handle the kind of change and the context.\<close>

record 'os win_api =
  notify_change :: "change_kind \<Rightarrow> nat \<Rightarrow> 'os \<Rightarrow> (win_error + int) \<times> 'os"
  cancel_notify :: "int \<Rightarrow> 'os \<Rightarrow> (win_error + unit) \<times> 'os"
  registered :: "'os \<Rightarrow> int \<Rightarrow> (change_kind \<times> nat) option"

text \<open>A registration returns a handle that is not in use, a cancelled handle is not called any more,
  and a call that fails changes nothing.\<close>

definition win_api_ok :: "'os win_api \<Rightarrow> bool" where
  "win_api_ok api \<longleftrightarrow>
     (\<forall>kind p os h os'. notify_change api kind p os = (Inr h, os')
        \<longrightarrow> registered api os h = None \<and> registered api os' = (registered api os)(h \<mapsto> (kind, p)))
     \<and> (\<forall>kind p os e os'. notify_change api kind p os = (Inl e, os') \<longrightarrow> registered api os' = registered api os)
     \<and> (\<forall>h os os'. cancel_notify api h os = (Inr (), os')
        \<longrightarrow> registered api os' = (registered api os)(h := None))
     \<and> (\<forall>h os e os'. cancel_notify api h os = (Inl e, os') \<longrightarrow> registered api os' = registered api os)"

section \<open>The handler\<close>

text \<open>The closures by handle.\<close>

record callback_handler =
  unicast_callbacks :: "int \<Rightarrow> nat option"
  route_callbacks :: "int \<Rightarrow> nat option"

definition handler_default :: callback_handler where
  "handler_default = \<lparr>unicast_callbacks = Map.empty, route_callbacks = Map.empty\<rparr>"

text \<open>\<open>cb\<close> is the address of the closure.\<close>

definition register_unicast_address_change_callback ::
  "'os win_api \<Rightarrow> nat \<Rightarrow> callback_handler \<Rightarrow> 'os \<Rightarrow> (win_error + int) \<times> callback_handler \<times> 'os" where
  "register_unicast_address_change_callback api cb self os =
     (case notify_change api UnicastAddress cb os of
        (Inl e, os') \<Rightarrow> (Inl e, self, os')
      | (Inr handle, os') \<Rightarrow>
          (Inr handle, self\<lparr>unicast_callbacks := (unicast_callbacks self)(handle \<mapsto> cb)\<rparr>, os'))"

definition register_route_change_callback ::
  "'os win_api \<Rightarrow> nat \<Rightarrow> callback_handler \<Rightarrow> 'os \<Rightarrow> (win_error + int) \<times> callback_handler \<times> 'os" where
  "register_route_change_callback api cb self os =
     (case notify_change api RouteChange cb os of
        (Inl e, os') \<Rightarrow> (Inl e, self, os')
      | (Inr handle, os') \<Rightarrow>
          (Inr handle, self\<lparr>route_callbacks := (route_callbacks self)(handle \<mapsto> cb)\<rparr>, os'))"

definition unregister_unicast_address_change_callback ::
  "'os win_api \<Rightarrow> int \<Rightarrow> callback_handler \<Rightarrow> 'os \<Rightarrow> (win_error + unit) \<times> callback_handler \<times> 'os" where
  "unregister_unicast_address_change_callback api key self os =
     (if unicast_callbacks self key \<noteq> None then
        (case cancel_notify api key os of
           (Inl e, os') \<Rightarrow> (Inl e, self, os')
         | (Inr _, os') \<Rightarrow>
             (Inr (), self\<lparr>unicast_callbacks := (unicast_callbacks self)(key := None)\<rparr>, os'))
      else (Inr (), self, os))"

definition unregister_route_change_callback ::
  "'os win_api \<Rightarrow> int \<Rightarrow> callback_handler \<Rightarrow> 'os \<Rightarrow> (win_error + unit) \<times> callback_handler \<times> 'os" where
  "unregister_route_change_callback api key self os =
     (if route_callbacks self key \<noteq> None then
        (case cancel_notify api key os of
           (Inl e, os') \<Rightarrow> (Inl e, self, os')
         | (Inr _, os') \<Rightarrow>
             (Inr (), self\<lparr>route_callbacks := (route_callbacks self)(key := None)\<rparr>, os'))
      else (Inr (), self, os))"

text \<open>Dropping the handler unregisters every callback, ignoring failures, then frees what the maps
  still own. \<open>order\<close> is the iteration order of a map.\<close>

definition unregister_all ::
  "(int \<Rightarrow> callback_handler \<Rightarrow> 'os \<Rightarrow> (win_error + unit) \<times> callback_handler \<times> 'os)
     \<Rightarrow> int list \<Rightarrow> callback_handler \<times> 'os \<Rightarrow> callback_handler \<times> 'os" where
  "unregister_all unregister handles st = fold (\<lambda>h (self, os). snd (unregister h self os)) handles st"

definition callback_handler_drop ::
  "'os win_api \<Rightarrow> ((int \<Rightarrow> nat option) \<Rightarrow> int list) \<Rightarrow> callback_handler \<Rightarrow> 'os
     \<Rightarrow> callback_handler \<times> 'os" where
  "callback_handler_drop api order self os =
     (let (self, os) = unregister_all (unregister_unicast_address_change_callback api)
            (order (unicast_callbacks self)) (self, os);
          (self, os) = unregister_all (unregister_route_change_callback api)
            (order (route_callbacks self)) (self, os)
      in (self\<lparr>unicast_callbacks := Map.empty, route_callbacks := Map.empty\<rparr>, os))"

definition win_route_monitor_new ::
  "'os win_api \<Rightarrow> ((int \<Rightarrow> nat option) \<Rightarrow> int list) \<Rightarrow> nat \<Rightarrow> nat \<Rightarrow> 'os
     \<Rightarrow> (win_error + callback_handler) \<times> 'os" where
  "win_route_monitor_new api order cb1 cb2 os =
     (case register_unicast_address_change_callback api cb1 handler_default os of
        (Inl e, self, os) \<Rightarrow> (Inl e, snd (callback_handler_drop api order self os))
      | (Inr _, self, os) \<Rightarrow>
          (case register_route_change_callback api cb2 self os of
             (Inl e, self, os) \<Rightarrow> (Inl e, snd (callback_handler_drop api order self os))
           | (Inr _, self, os) \<Rightarrow> (Inr self, os)))"

section \<open>The callbacks\<close>

text \<open>\<^verbatim>\<open>try_send\<close> into the actor's channel; a full or closed channel is only logged.\<close>

definition mon_try_send :: "'w run_state \<Rightarrow> 'w run_state" where
  "mon_try_send r = (case mon_send r of (Some True, r') \<Rightarrow> r' | _ \<Rightarrow> r)"

text \<open>The addresses of the closures the handler owns.\<close>

definition owned :: "callback_handler \<Rightarrow> nat set" where
  "owned self = ran (unicast_callbacks self) \<union> ran (route_callbacks self)"

text \<open>What the system runs; zero is the null pointer. \<open>None\<close> is the call of a freed closure.\<close>

definition unicast_change_callback :: "nat set \<Rightarrow> nat \<Rightarrow> 'w run_state \<Rightarrow> 'w run_state option" where
  "unicast_change_callback live callercontext r =
     (if callercontext = 0 then Some r
      else if callercontext \<in> live then Some (mon_try_send r)
      else None)"

definition route_change_callback :: "nat set \<Rightarrow> nat \<Rightarrow> 'w run_state \<Rightarrow> 'w run_state option" where
  "route_change_callback live callercontext r =
     (if callercontext = 0 then Some r
      else if callercontext \<in> live then Some (mon_try_send r)
      else None)"

primrec win_callback :: "change_kind \<Rightarrow> nat set \<Rightarrow> nat \<Rightarrow> 'w run_state \<Rightarrow> 'w run_state option" where
  "win_callback UnicastAddress = unicast_change_callback"
| "win_callback RouteChange = route_change_callback"

section \<open>Facts\<close>

text \<open>The closure registered for a kind of change under a handle, as the handler sees it.\<close>

definition handler_view :: "callback_handler \<Rightarrow> int \<Rightarrow> (change_kind \<times> nat) option" where
  "handler_view self h =
     (case unicast_callbacks self h of
        Some p \<Rightarrow> Some (UnicastAddress, p)
      | None \<Rightarrow> (case route_callbacks self h of Some p \<Rightarrow> Some (RouteChange, p) | None \<Rightarrow> None))"

text \<open>The handler and the system agree, and no handle is used for both kinds.\<close>

definition agrees :: "'os win_api \<Rightarrow> callback_handler \<times> 'os \<Rightarrow> bool" where
  "agrees api = (\<lambda>(self, os). registered api os = handler_view self
     \<and> (\<forall>h. unicast_callbacks self h = None \<or> route_callbacks self h = None))"

lemma win_api_okD:
  assumes "win_api_ok api"
  shows "notify_change api kind p os = (Inr h, os') \<Longrightarrow>
      registered api os h = None \<and> registered api os' = (registered api os)(h \<mapsto> (kind, p))"
    and "notify_change api kind p os = (Inl e, os') \<Longrightarrow> registered api os' = registered api os"
    and "cancel_notify api h os = (Inr u, os') \<Longrightarrow> registered api os' = (registered api os)(h := None)"
    and "cancel_notify api h os = (Inl e, os') \<Longrightarrow> registered api os' = registered api os"
  using assms by (cases u; auto simp: win_api_ok_def)+

lemmas handler_op_defs = register_unicast_address_change_callback_def register_route_change_callback_def
  unregister_unicast_address_change_callback_def unregister_route_change_callback_def

lemma handler_view_None:
  "handler_view self h = None \<longleftrightarrow> unicast_callbacks self h = None \<and> route_callbacks self h = None"
  by (auto simp: handler_view_def split: option.splits)

lemma handler_view_update:
  "unicast_callbacks self h = None \<Longrightarrow> route_callbacks self h = None \<Longrightarrow>
     handler_view (self\<lparr>unicast_callbacks := (unicast_callbacks self)(h \<mapsto> p)\<rparr>) =
       (handler_view self)(h \<mapsto> (UnicastAddress, p))"
  "unicast_callbacks self h = None \<Longrightarrow> route_callbacks self h = None \<Longrightarrow>
     handler_view (self\<lparr>route_callbacks := (route_callbacks self)(h \<mapsto> p)\<rparr>) =
       (handler_view self)(h \<mapsto> (RouteChange, p))"
  "route_callbacks self h = None \<Longrightarrow>
     handler_view (self\<lparr>unicast_callbacks := (unicast_callbacks self)(h := None)\<rparr>) = (handler_view self)(h := None)"
  "unicast_callbacks self h = None \<Longrightarrow>
     handler_view (self\<lparr>route_callbacks := (route_callbacks self)(h := None)\<rparr>) = (handler_view self)(h := None)"
  by (auto simp: handler_view_def fun_eq_iff split: option.splits)

text \<open>Every operation of the handler keeps the agreement.\<close>

lemma agrees_op:
  assumes ok: "win_api_ok api" and st: "agrees api (self, os)"
  shows "register_unicast_address_change_callback api cb self os = (r, st') \<Longrightarrow> agrees api st'"
    and "register_route_change_callback api cb self os = (r, st') \<Longrightarrow> agrees api st'"
    and "unregister_unicast_address_change_callback api key self os = (u, st') \<Longrightarrow> agrees api st'"
    and "unregister_route_change_callback api key self os = (u, st') \<Longrightarrow> agrees api st'"
proof -
  have one: "unicast_callbacks self h = None \<or> route_callbacks self h = None" for h
    using st by (simp add: agrees_def)
  then have free: "route_callbacks self h = None" if "unicast_callbacks self h = Some p" for h p
    using that by (metis option.distinct(1))
  have free': "unicast_callbacks self h = None" if "route_callbacks self h = Some p" for h p
    using one that by (metis option.distinct(1))
  note facts = handler_op_defs agrees_def handler_view_update handler_view_None free free' one
  show "register_unicast_address_change_callback api cb self os = (r, st') \<Longrightarrow> agrees api st'"
    and "register_route_change_callback api cb self os = (r, st') \<Longrightarrow> agrees api st'"
    and "unregister_unicast_address_change_callback api key self os = (u, st') \<Longrightarrow> agrees api st'"
    and "unregister_route_change_callback api key self os = (u, st') \<Longrightarrow> agrees api st'"
    using st
    by (auto simp: facts split: prod.splits sum.splits if_splits dest!: win_api_okD [OF ok])
qed

text \<open>Any use of a handler, from its creation on.\<close>

inductive handler_run :: "'os win_api \<Rightarrow> callback_handler \<times> 'os \<Rightarrow> bool" for api :: "'os win_api" where
  create: "registered api os = Map.empty \<Longrightarrow> handler_run api (handler_default, os)"
| register_unicast: "handler_run api (self, os)
    \<Longrightarrow> register_unicast_address_change_callback api cb self os = (r, st') \<Longrightarrow> handler_run api st'"
| register_route: "handler_run api (self, os)
    \<Longrightarrow> register_route_change_callback api cb self os = (r, st') \<Longrightarrow> handler_run api st'"
| unregister_unicast: "handler_run api (self, os)
    \<Longrightarrow> unregister_unicast_address_change_callback api key self os = (u, st') \<Longrightarrow> handler_run api st'"
| unregister_route: "handler_run api (self, os)
    \<Longrightarrow> unregister_route_change_callback api key self os = (u, st') \<Longrightarrow> handler_run api st'"

lemma handler_run_agrees: "handler_run api st \<Longrightarrow> win_api_ok api \<Longrightarrow> agrees api st"
proof (induction rule: handler_run.induct)
  case (create os)
  then show ?case by (auto simp: agrees_def handler_default_def handler_view_def)
qed (blast intro: agrees_op)+

lemma handler_run_finite:
  "handler_run api st \<Longrightarrow> finite (dom (unicast_callbacks (fst st))) \<and> finite (dom (route_callbacks (fst st)))"
  by (induction rule: handler_run.induct)
    (auto simp: handler_default_def handler_op_defs split: prod.splits sum.splits if_splits)

lemma handler_view_owned: "handler_view self h = Some (kind, p) \<Longrightarrow> p \<in> owned self"
  by (auto simp: handler_view_def owned_def ran_def split: option.splits)

text \<open>Unregistering a list of handles, when cancelling fails for the handles of \<open>F\<close> only.\<close>

definition cancel_fails_on :: "'os win_api \<Rightarrow> int set \<Rightarrow> bool" where
  "cancel_fails_on api F \<longleftrightarrow> (\<forall>h os. isl (fst (cancel_notify api h os)) \<longleftrightarrow> h \<in> F)"

definition order_ok :: "((int \<Rightarrow> nat option) \<Rightarrow> int list) \<Rightarrow> bool" where
  "order_ok order \<longleftrightarrow> (\<forall>m. finite (dom m) \<longrightarrow> set (order m) = dom m)"

lemma unregister_effect:
  assumes "cancel_fails_on api F"
  shows "unicast_callbacks (fst (snd (unregister_unicast_address_change_callback api key self os))) =
      (unicast_callbacks self) |` (- ({key} - F))"
    and "route_callbacks (fst (snd (unregister_unicast_address_change_callback api key self os))) =
      route_callbacks self"
    and "route_callbacks (fst (snd (unregister_route_change_callback api key self os))) =
      (route_callbacks self) |` (- ({key} - F))"
    and "unicast_callbacks (fst (snd (unregister_route_change_callback api key self os))) =
      unicast_callbacks self"
  using assms [unfolded cancel_fails_on_def, rule_format, of key os]
  by (auto simp: handler_op_defs restrict_map_def fun_eq_iff split: prod.splits sum.splits)

lemma unregister_all_Cons:
  "unregister_all unregister (h # hs) (self, os) = unregister_all unregister hs (snd (unregister h self os))"
  by (simp add: unregister_all_def)

lemma unregister_all_effect:
  assumes keep: "\<And>h self os. P (self, os) \<Longrightarrow> P (snd (unregister h self os))"
    and removed: "\<And>h self os. get (fst (snd (unregister h self os))) = get self |` (- ({h} - F))"
    and other: "\<And>h self os. oth (fst (snd (unregister h self os))) = oth self"
  shows "P st \<Longrightarrow> unregister_all unregister hs st = st' \<Longrightarrow>
    P st' \<and> get (fst st') = get (fst st) |` (- (set hs - F)) \<and> oth (fst st') = oth (fst st)"
proof (induction hs arbitrary: st)
  case Nil
  then show ?case by (simp add: unregister_all_def)
next
  case (Cons h hs)
  obtain self os where st: "st = (self, os)" by (cases st)
  have set: "- ({h} - F) \<inter> - (set hs - F) = - (set (h # hs) - F)" by auto
  from Cons.IH [OF keep [OF Cons.prems(1) [unfolded st]]] Cons.prems(2) show ?case
    unfolding st unregister_all_Cons by (simp only: removed other restrict_restrict set fst_conv)
qed

lemma unregister_all_unicast:
  assumes "win_api_ok api" and F: "cancel_fails_on api F" and "agrees api st"
    and "unregister_all (unregister_unicast_address_change_callback api) hs st = st'"
  shows "agrees api st' \<and> unicast_callbacks (fst st') = (unicast_callbacks (fst st)) |` (- (set hs - F))
    \<and> route_callbacks (fst st') = route_callbacks (fst st)"
  by (rule unregister_all_effect [where P = "agrees api" and get = unicast_callbacks and oth = route_callbacks,
        OF _ _ _ assms(3,4)])
    (simp_all add: unregister_effect [OF F] agrees_op(3) [OF assms(1) _ prod.collapse [symmetric]])

lemma unregister_all_route:
  assumes "win_api_ok api" and F: "cancel_fails_on api F" and "agrees api st"
    and "unregister_all (unregister_route_change_callback api) hs st = st'"
  shows "agrees api st' \<and> route_callbacks (fst st') = (route_callbacks (fst st)) |` (- (set hs - F))
    \<and> unicast_callbacks (fst st') = unicast_callbacks (fst st)"
  by (rule unregister_all_effect [where P = "agrees api" and get = route_callbacks and oth = unicast_callbacks,
        OF _ _ _ assms(3,4)])
    (simp_all add: unregister_effect [OF F] agrees_op(4) [OF assms(1) _ prod.collapse [symmetric]])

text \<open>What the system still has registered after the drop.\<close>

lemma drop_registered:
  assumes ok: "win_api_ok api" and F: "cancel_fails_on api F" and order: "order_ok order"
    and st: "agrees api (self, os)" "finite (dom (unicast_callbacks self))" "finite (dom (route_callbacks self))"
  shows "registered api (snd (callback_handler_drop api order self os)) = registered api os |` F"
proof -
  obtain self1 os1 where st1: "unregister_all (unregister_unicast_address_change_callback api)
      (order (unicast_callbacks self)) (self, os) = (self1, os1)" by force
  obtain self2 os2 where st2: "unregister_all (unregister_route_change_callback api)
      (order (route_callbacks self1)) (self1, os1) = (self2, os2)" by force
  note e1 = unregister_all_unicast [OF ok F st(1) st1]
  note e2 = unregister_all_route [OF ok F conjunct1 [OF e1] st2]
  have "unicast_callbacks self2 = unicast_callbacks self |` F"
    using e1 e2 order st(2) by (auto simp: order_ok_def restrict_map_def fun_eq_iff dom_def)
  moreover have "route_callbacks self2 = route_callbacks self |` F"
    using e1 e2 order st(3) by (auto simp: order_ok_def restrict_map_def fun_eq_iff dom_def)
  moreover have "registered api os2 = handler_view self2" "registered api os = handler_view self"
    using e2 st(1) by (simp_all add: agrees_def)
  ultimately have "registered api os2 = registered api os |` F"
    by (auto simp: handler_view_def restrict_map_def fun_eq_iff split: option.splits)
  then show ?thesis by (simp add: callback_handler_drop_def st1 st2)
qed

lemma new_cases:
  assumes ok: "win_api_ok api" and "registered api os = Map.empty"
    and "win_route_monitor_new api order cb1 cb2 os = (Inr self, os')"
  shows "handler_run api (self, os')"
    and "\<exists>h1 h2. h1 \<noteq> h2 \<and> registered api os' = [h1 \<mapsto> (UnicastAddress, cb1), h2 \<mapsto> (RouteChange, cb2)]"
proof -
  obtain h1 self1 os1 where r1:
      "register_unicast_address_change_callback api cb1 handler_default os = (Inr h1, self1, os1)"
    using assms(3) by (auto simp: win_route_monitor_new_def split: prod.splits sum.splits)
  obtain h2 where r2: "register_route_change_callback api cb2 self1 os1 = (Inr h2, self, os')"
    using assms(3) r1 by (auto simp: win_route_monitor_new_def split: prod.splits sum.splits)
  have "handler_run api (self1, os1)"
    by (rule handler_run.register_unicast [OF handler_run.create [OF assms(2)] r1])
  then show "handler_run api (self, os')" using r2 by (rule handler_run.register_route)
  have "registered api os1 = [h1 \<mapsto> (UnicastAddress, cb1)]"
    using r1 assms(2) by (auto simp: handler_op_defs split: prod.splits sum.splits dest!: win_api_okD [OF ok])
  then show "\<exists>h1 h2. h1 \<noteq> h2 \<and> registered api os' = [h1 \<mapsto> (UnicastAddress, cb1), h2 \<mapsto> (RouteChange, cb2)]"
    using r2
    by (intro exI [of _ h1] exI [of _ h2])
      (auto simp: handler_op_defs split: prod.splits sum.splits if_splits dest!: win_api_okD [OF ok])
qed

lemma new_failed:
  assumes ok: "win_api_ok api" and F: "cancel_fails_on api {}" and order: "order_ok order"
    and "registered api os = Map.empty"
    and "win_route_monitor_new api order cb1 cb2 os = (Inl e, os')"
  shows "registered api os' = Map.empty"
proof -
  obtain r1 self1 os1 where r1:
      "register_unicast_address_change_callback api cb1 handler_default os = (r1, self1, os1)"
    by (metis prod_cases3)
  have run1: "handler_run api (self1, os1)"
    by (rule handler_run.register_unicast [OF handler_run.create [OF assms(4)] r1])
  obtain r2 self2 os2 where r2: "register_route_change_callback api cb2 self1 os1 = (r2, self2, os2)"
    by (metis prod_cases3)
  have run2: "handler_run api (self2, os2)" using run1 r2 by (rule handler_run.register_route)
  have dropped: "registered api (snd (callback_handler_drop api order self3 os3)) = Map.empty"
    if "handler_run api (self3, os3)" for self3 os3
    using drop_registered [OF ok F order handler_run_agrees [OF that ok]] handler_run_finite [OF that] by simp
  show ?thesis using assms(5) dropped [OF run1] dropped [OF run2]
    by (cases r1; cases r2) (auto simp: win_route_monitor_new_def r1 r2)
qed

lemma mon_try_send_queue: "rs_running r \<Longrightarrow> 0 < ac_mon_queue (rs_actor (mon_try_send r))"
  by (auto simp: mon_try_send_def mon_send_def Let_def mon_chan_capacity_def)

section \<open>Properties\<close>

text \<open>C17: however the handler is used, the system's registrations are exactly the callbacks the handler
  owns, so whatever callback the system runs finds its closure alive; on a running monitor it leaves
  a change in the channel, whatever the channel held before, and the actor takes it and arms its
  timer.\<close>

theorem win_notification_kept:
  assumes "win_api_ok api" and "handler_run api (self, os)" and "registered api os h = Some (kind, p)"
    and "p \<noteq> 0" and "rs_running r"
  shows "registered api os = handler_view self
    \<and> (\<exists>r' r''. win_callback kind (owned self) p r = Some r' \<and> 0 < ac_mon_queue (rs_actor r')
        \<and> run_iteration ops mobile now MonRecv r' = Some r'' \<and> rs_pending_change r''
        \<and> rs_debounce r'' = now + debounce_time)"
proof -
  have view: "registered api os = handler_view self"
    using handler_run_agrees [OF assms(2,1)] by (simp add: agrees_def)
  then have "p \<in> owned self" using assms(3) by (auto intro: handler_view_owned)
  then have "win_callback kind (owned self) p r = Some (mon_try_send r)"
    using assms(4) by (cases kind) (simp_all add: unicast_change_callback_def route_change_callback_def)
  then show ?thesis using view mon_try_send_queue [OF assms(5)] by (auto simp: Let_def)
qed

text \<open>A system that counts handles, and cannot cancel those of \<open>F\<close>.\<close>

definition sample_api :: "int list \<Rightarrow> ((int \<Rightarrow> (change_kind \<times> nat) option) \<times> int) win_api" where
  "sample_api F =
     \<lparr>notify_change = (\<lambda>kind p (reg, n). if reg n = None then (Inr n, (reg(n \<mapsto> (kind, p)), n + 1))
        else (Inl (Win32 8), (reg, n))),
      cancel_notify = (\<lambda>h (reg, n). if h \<in> set F then (Inl (Win32 6), (reg, n)) else (Inr (), (reg(h := None), n))),
      registered = fst\<rparr>"

lemma sample_api_ok: "win_api_ok (sample_api F)" "cancel_fails_on (sample_api F) (set F)"
  by (auto simp: win_api_ok_def cancel_fails_on_def sample_api_def split: if_splits)

definition sample_handler :: callback_handler where
  "sample_handler = \<lparr>unicast_callbacks = [1 \<mapsto> 64], route_callbacks = [2 \<mapsto> 96]\<rparr>"

lemma sample_new:
  "win_route_monitor_new (sample_api F) order 64 96 (Map.empty, 1) =
     (Inr sample_handler, ([1 \<mapsto> (UnicastAddress, 64), 2 \<mapsto> (RouteChange, 96)], 3))"
  by (simp add: win_route_monitor_new_def handler_op_defs sample_api_def sample_handler_def handler_default_def)

lemma sample_handler_run:
  "handler_run (sample_api F) (sample_handler, ([1 \<mapsto> (UnicastAddress, 64), 2 \<mapsto> (RouteChange, 96)], 3))"
  by (rule new_cases(1) [OF sample_api_ok(1) _ sample_new [of F "\<lambda>_. []"]]) (simp add: sample_api_def)

definition sample_monitor :: "state run_state" where
  "sample_monitor = \<lparr>rs_actor = \<lparr>ac_interface_state = get_state [] None, ac_wall_time = 0, ac_mon_queue = 16,
     ac_mon_senders = 1, ac_actor_queue = 0, ac_actor_senders = 2\<rparr>, rs_pending_change = False,
     rs_pending_time_jump = False, rs_debounce = 0, rs_running = True\<rparr>"

theorem win_notification_kept_witness:
  "\<exists>r'. win_callback RouteChange (owned sample_handler) 96 sample_monitor = Some r'
     \<and> 0 < ac_mon_queue (rs_actor r')"
proof -
  have "registered (sample_api []) ([1 \<mapsto> (UnicastAddress, 64), 2 \<mapsto> (RouteChange, 96)], 3) 2 =
      Some (RouteChange, 96)" by (simp add: sample_api_def)
  from win_notification_kept [OF sample_api_ok(1) sample_handler_run this, of sample_monitor undefined False 0]
  show ?thesis by (auto simp: sample_monitor_def)
qed

text \<open>starting the monitor is atomic: on success one callback of each kind is registered, with its own
  closure; on failure none is, provided the system can cancel the first registration again.\<close>

theorem win_new_atomic:
  assumes "win_api_ok api" and "cancel_fails_on api {}" and "order_ok order" and "registered api os = Map.empty"
    and "win_route_monitor_new api order cb1 cb2 os = (result, os')"
  shows "case result of
      Inr self \<Rightarrow> handler_run api (self, os')
        \<and> (\<exists>h1 h2. h1 \<noteq> h2 \<and> registered api os' = [h1 \<mapsto> (UnicastAddress, cb1), h2 \<mapsto> (RouteChange, cb2)])
    | Inl e \<Rightarrow> registered api os' = Map.empty"
  using new_cases [OF assms(1,4)] new_failed [OF assms(1-4)] assms(5) by (cases result) auto

text \<open>The iteration order that goes through the handles upwards.\<close>

definition sorted_order :: "(int \<Rightarrow> nat option) \<Rightarrow> int list" where
  "sorted_order m = sorted_list_of_set (dom m)"

lemma sorted_order_ok: "order_ok sorted_order"
  by (simp add: order_ok_def sorted_order_def)

theorem win_new_atomic_witness:
  "\<exists>os'. win_route_monitor_new (sample_api []) sorted_order 64 96 (Map.empty, 1)
     = (Inr sample_handler, os') \<and> (\<exists>h1 h2. h1 \<noteq> h2 \<and> registered (sample_api []) os' =
         [h1 \<mapsto> (UnicastAddress, 64), h2 \<mapsto> (RouteChange, 96)])"
proof -
  have empty: "registered (sample_api []) (Map.empty, 1 :: int) = Map.empty" by (simp add: sample_api_def)
  have fails: "cancel_fails_on (sample_api []) {}" using sample_api_ok(2) [of "[]"] by simp
  from win_new_atomic [OF sample_api_ok(1) fails sorted_order_ok empty sample_new [of "[]" sorted_order]]
  show ?thesis using sample_new [of "[]" sorted_order] by simp
qed

text \<open>C36: dropping the monitor leaves exactly the registrations whose cancellation failed, and their
  closures are freed all the same: when the system reports a change for one of them, the callback
  reads freed memory.\<close>

theorem win_drop_dangling:
  assumes "win_api_ok api" and "cancel_fails_on api F" and "order_ok order" and "handler_run api (self, os)"
  shows "registered api (snd (callback_handler_drop api order self os)) = registered api os |` F
    \<and> (\<forall>h kind p. registered api (snd (callback_handler_drop api order self os)) h = Some (kind, p) \<and> p \<noteq> 0
        \<longrightarrow> p \<in> owned self
          \<and> win_callback kind (owned (fst (callback_handler_drop api order self os))) p r = None)"
proof -
  have agrees: "agrees api (self, os)" by (rule handler_run_agrees [OF assms(4,1)])
  have left: "registered api (snd (callback_handler_drop api order self os)) = registered api os |` F"
    using drop_registered [OF assms(1-3) agrees] handler_run_finite [OF assms(4)] by simp
  have "owned (fst (callback_handler_drop api order self os)) = {}"
    by (simp add: callback_handler_drop_def owned_def case_prod_unfold Let_def)
  then have dangling: "win_callback kind (owned (fst (callback_handler_drop api order self os))) p r = None"
    if "p \<noteq> 0" for kind p
    using that by (cases kind) (simp_all add: unicast_change_callback_def route_change_callback_def)
  have "p \<in> owned self" if "(registered api os |` F) h = Some (kind, p)" for h kind p
    using that agrees by (auto simp: restrict_map_def agrees_def split: if_splits intro: handler_view_owned)
  then show ?thesis unfolding left using dangling by blast
qed

theorem win_drop_dangling_witness:
  "\<exists>self' os'. callback_handler_drop (sample_api [2]) sorted_order sample_handler
       ([1 \<mapsto> (UnicastAddress, 64), 2 \<mapsto> (RouteChange, 96)], 3) = (self', os')
     \<and> registered (sample_api [2]) os' = [2 \<mapsto> (RouteChange, 96)]
     \<and> win_callback RouteChange (owned self') 96 sample_monitor = None"
proof -
  let ?os = "([1 \<mapsto> (UnicastAddress, 64), 2 \<mapsto> (RouteChange, 96)], 3)"
  obtain self' os' where drop: "callback_handler_drop (sample_api [2]) sorted_order sample_handler ?os = (self', os')"
    by (rule prod.exhaust)
  have left: "[1 \<mapsto> (UnicastAddress, 64), 2 \<mapsto> (RouteChange, 96)] |` set [2 :: int] = [2 \<mapsto> (RouteChange, 96 :: nat)]"
    by (auto simp: restrict_map_def)
  have "registered (sample_api [2]) ?os = [1 \<mapsto> (UnicastAddress, 64), 2 \<mapsto> (RouteChange, 96)]"
    by (simp add: sample_api_def)
  moreover note main = win_drop_dangling [OF sample_api_ok sorted_order_ok sample_handler_run, of "[2]" sample_monitor]
  ultimately have reg: "registered (sample_api [2]) os' = [2 \<mapsto> (RouteChange, 96)]"
    using left drop by simp
  then have "win_callback RouteChange (owned self') 96 sample_monitor = None"
    using conjunct2 [OF main, rule_format, of 2 RouteChange 96] drop by simp
  then show ?thesis using reg drop by blast
qed

end
