(* ===== verification/Net_Platforms.thy ===== *)
theory Net_Platforms
  imports Netmon_Windows Linux_Routes
begin

text \<open>
  The back ends without routing sockets: the default route on Windows, the lookups and the monitor
  of the minimal POSIX systems and of Android, and the browser. What Windows Management
  Instrumentation, the browser's global object and its event target answer are arguments.
\<close>

section \<open>Default route on Windows\<close>

text \<open>\<^verbatim>\<open>netwatch/src/interfaces/windows.rs\<close>.\<close>

datatype 'w windows_error = Windows_Io nat | NoRoute | Wmi 'w

text \<open>\<open>connect\<close> opens the connection, \<open>filtered_query\<close> returns the names of the matching rows.\<close>

definition get_default_route ::
  "(unit, 'w) res \<Rightarrow> ((string \<times> string) list \<Rightarrow> (string list, 'w) res)
     \<Rightarrow> (default_route_details, 'w windows_error) res" where
  "get_default_route connect filtered_query =
     bind_res (map_err Wmi connect) (\<lambda>_.
     bind_res (map_err Wmi (filtered_query [(''Destination'', ''0.0.0.0'')])) (\<lambda>rows.
     bind_res (ok_or (case rows of row # _ \<Rightarrow> Some row | [] \<Rightarrow> None) NoRoute) (\<lambda>row.
     Ok \<lparr>interface_name = row\<rparr>)))"

text \<open>The query runs on a blocking thread; a panic there is reported by the join.\<close>

definition windows_default_route ::
  "(unit, 'w) res \<Rightarrow> ((string \<times> string) list \<Rightarrow> (string list, 'w) res) \<Rightarrow> default_route_details option" where
  "windows_default_route connect filtered_query =
     (case get_default_route connect filtered_query of
        Ok route \<Rightarrow> Some route
      | Err err \<Rightarrow> None
      | Panic \<Rightarrow> None)"

section \<open>Minimal POSIX systems and Android\<close>

text \<open>\<^verbatim>\<open>netwatch/src/interfaces/posix_minimal.rs\<close>.\<close>

definition posix_get_state :: state where
  "posix_get_state =
     \<lparr>st_interfaces = [], st_local_addresses = local_addresses_default, st_have_v6 = False,
      st_have_v4 = True, st_is_expensive = False, st_default_route_interface = None,
      st_last_unsuspend = None\<rparr>"

definition posix_default_route :: "default_route_details option" where "posix_default_route = None"

definition posix_home_router :: "home_router option" where "posix_home_router = None"

text \<open>The monitors of \<^verbatim>\<open>netwatch/src/netmon/posix_minimal.rs\<close> and
  \<^verbatim>\<open>netwatch/src/netmon/android.rs\<close> keep the sender and do nothing with it: the channel keeps
  its one sender. The result is the number of senders held.\<close>

definition posix_route_monitor_new :: "(nat, unit) res" where "posix_route_monitor_new = Ok 1"

definition android_route_monitor_new :: "(nat, unit) res" where "android_route_monitor_new = Ok 1"

section \<open>The browser\<close>

text \<open>\<^verbatim>\<open>netwatch/src/interfaces/wasm_browser.rs\<close>: the lookup of the \<open>navigator\<close> object, of its
  property, and the conversion to a truth value.\<close>

definition browser_interface :: string where "browser_interface = ''browserif''"

definition navigator_online :: "'v option \<Rightarrow> ('v \<Rightarrow> 'v option) \<Rightarrow> ('v \<Rightarrow> bool option) \<Rightarrow> bool" where
  "navigator_online navigator get_on_line as_bool =
     (let read = Option.bind navigator (\<lambda>nav. Option.bind (get_on_line nav) as_bool)
      in case read of Some v \<Rightarrow> v | None \<Rightarrow> True)"

definition browser_get_state :: "bool \<Rightarrow> state" where
  "browser_get_state online =
     (let iface = \<lparr>if_name = browser_interface, if_index = 0, if_flags = (if online then iff_up else 0),
            if_mac_addr = None, if_addrs = []\<rparr>
      in \<lparr>st_interfaces = [(browser_interface, iface)], st_local_addresses = local_addresses_default,
          st_have_v6 = False, st_have_v4 = False, st_is_expensive = False,
          st_default_route_interface = Some browser_interface, st_last_unsuspend = None\<rparr>)"

definition browser_default_route :: "default_route_details option" where
  "browser_default_route = Some \<lparr>interface_name = browser_interface\<rparr>"

definition browser_home_router :: "home_router option" where "browser_home_router = None"

text \<open>\<^verbatim>\<open>netwatch/src/netmon/wasm_browser.rs\<close>: the listeners of the window, as pairs of event and
  listener object, and whether the window accepts each of the two registrations.\<close>

type_synonym window = "(string \<times> nat) list"

record listeners =
  online_listener :: nat
  offline_listener :: nat

definition add_listener :: "bool \<Rightarrow> string \<Rightarrow> nat \<Rightarrow> window \<Rightarrow> window" where
  "add_listener accepted event l w = (if accepted \<and> (event, l) \<notin> set w then w @ [(event, l)] else w)"

definition add_event_listeners :: "bool \<Rightarrow> bool \<Rightarrow> nat \<Rightarrow> nat \<Rightarrow> window \<Rightarrow> listeners option \<times> window" where
  "add_event_listeners accepts_online accepts_offline l1 l2 w =
     (let w1 = add_listener accepts_online ''online'' l1 w in
      if \<not> accepts_online then (None, w1)
      else
        let w2 = add_listener accepts_offline ''offline'' l2 w1 in
        if \<not> accepts_offline then (None, w2)
        else (Some \<lparr>online_listener = l1, offline_listener = l2\<rparr>, w2))"

definition browser_route_monitor_new ::
  "bool \<Rightarrow> bool \<Rightarrow> nat \<Rightarrow> nat \<Rightarrow> window \<Rightarrow> (listeners option, unit) res \<times> window" where
  "browser_route_monitor_new accepts_online accepts_offline l1 l2 w =
     (case add_event_listeners accepts_online accepts_offline l1 l2 w of (ls, w') \<Rightarrow> (Ok ls, w'))"

definition listeners_drop :: "listeners \<Rightarrow> window \<Rightarrow> window" where
  "listeners_drop ls w =
     removeAll (''offline'', offline_listener ls) (removeAll (''online'', online_listener ls) w)"

text \<open>Dropping the monitor drops the listeners it has.\<close>

definition browser_monitor_drop :: "listeners option \<Rightarrow> window \<Rightarrow> window" where
  "browser_monitor_drop ls w = (case ls of Some ls \<Rightarrow> listeners_drop ls w | None \<Rightarrow> w)"

text \<open>The number of sends an event starts: the handler of every listener spawns one.\<close>

definition browser_event :: "string \<Rightarrow> window \<Rightarrow> nat" where
  "browser_event event w = length (filter (\<lambda>(e, l). e = event) w)"

section \<open>Properties\<close>

text \<open>in the browser the monitor sees a change exactly when \<open>onLine\<close> has flipped, and then it is a
  major one; when the property cannot be read the network is taken to be up.\<close>

theorem browser_change_iff:
  "(is_major_change bsd (browser_get_state up) (browser_get_state up') \<longleftrightarrow> up \<noteq> up')
   \<and> (state_eq (browser_get_state up) (browser_get_state up') \<longleftrightarrow> up = up')
   \<and> (interface_is_up (snd (hd (st_interfaces (browser_get_state up)))) \<longleftrightarrow> up)
   \<and> (navigator_online navigator get_on_line as_bool \<longleftrightarrow>
        \<not> (\<exists>nav v. navigator = Some nav \<and> get_on_line nav = Some v \<and> as_bool v = Some False))"
proof -
  have name: "is_interesting_interface bsd browser_interface"
    by (simp add: is_interesting_interface_def browser_interface_def trim_end_matches.simps)
  show ?thesis
    by (auto simp: browser_get_state_def Let_def is_major_change_def state_eq_def hash_eq_def interface_eq_def
        prefixes_major_equal_def interface_is_up_def iff_up_def name navigator_online_def bind_eq_Some_conv
        split: option.splits)
qed

text \<open>adding the listeners and dropping the monitor leaves the window as it was when both
  registrations succeed or the first fails. When only the second fails, the listener for
  \<open>online\<close> stays for good: dropping the monitor does not remove it, and each such event goes on
  spawning a send.\<close>

theorem browser_listeners_leak:
  assumes "(''online'', l1) \<notin> set w" and "(''offline'', l2) \<notin> set w"
    and "browser_route_monitor_new accepts_online accepts_offline l1 l2 w = (Ok ls, w')"
  shows "browser_monitor_drop ls w' =
    (if accepts_online \<and> \<not> accepts_offline then w @ [(''online'', l1)] else w)"
  using assms
  by (auto simp: browser_route_monitor_new_def add_event_listeners_def add_listener_def Let_def browser_monitor_drop_def listeners_drop_def
      split: if_splits)

theorem browser_listeners_leak_witness:
  "\<exists>w'. browser_route_monitor_new True False 1 2 [] = (Ok None, w')
     \<and> browser_event ''online'' (browser_monitor_drop None w') = 1"
proof -
  have new: "browser_route_monitor_new True False 1 2 [] = (Ok None, [(''online'', 1)])"
    by (simp add: browser_route_monitor_new_def add_event_listeners_def add_listener_def)
  with browser_listeners_leak [OF _ _ new] show ?thesis by (simp add: browser_event_def)
qed

end
