(* ===== verification/Spec2Isabelle.thy ===== *)
theory Spec2Isabelle
  imports Port_Client Netmon_System Net_Platforms Udp_Socket
begin

text \<open>
  \<^bold>\<open>net-tools\<close>: a verification development of the two crates of the repository.

  \<^bold>\<open>The program.\<close> \<^verbatim>\<open>portmapper\<close> keeps a port of this machine reachable from outside a NAT:
  a \<^verbatim>\<open>Client\<close> sends messages over a bounded channel to a \<^verbatim>\<open>Service\<close> task, which probes the
  gateway for UPnP, PCP and NAT-PMP, runs one mapping task at a time, holds the mapping it won, renews it
  at half its lifetime, drops it when it expires, releases it when the port changes, and publishes its
  external address to watchers. The protocols talk to the gateway over a UDP socket of
  \<^verbatim>\<open>netwatch\<close>, which rebinds itself after the errors mobile systems cause. \<^verbatim>\<open>netwatch\<close> also
  enumerates interfaces and addresses, finds the default route and the home router, and runs a
  monitor that turns notifications of the operating system into published snapshots of the network.

  \<^bold>\<open>The theories\<close>, each with the source it models (paths below \<^verbatim>\<open>src/\<close>; \<^verbatim>\<open>pm/\<close> is
  \<^verbatim>\<open>portmapper/src\<close>, \<^verbatim>\<open>nw/\<close> is \<^verbatim>\<open>netwatch/src\<close>).

  \<^item> \<open>Net_Prelude\<close>: results with errors and panics, byte slices, big-endian integers, non-zero ports,
    time; the collections \<open>codec_simps\<close>, \<open>slice_simps\<close>, \<open>res_simps\<close>.
  \<^item> \<open>Ip_Addr\<close> (\<^verbatim>\<open>nw/ip.rs\<close>, \<^verbatim>\<open>nw/ip_family.rs\<close>): addresses, their order and
    classification; the predicates are shown to be the address blocks of the RFCs.
  \<^item> \<open>Nat_Pmp_Protocol\<close> (\<^verbatim>\<open>pm/nat_pmp/protocol/*\<close>) and \<open>Pcp_Protocol\<close>
    (\<^verbatim>\<open>pm/pcp/protocol/*\<close>): the packet formats. Round trips, exact acceptance, which inputs panic.
  \<^item> \<open>Port_Io\<close>: programs that talk over a socket, as functions that extend a log of calls; the locale
    \<open>udp_env\<close> states what a client may assume of the socket (no call panics, a receive returns at
    most the bytes the buffer holds).
  \<^item> \<open>Udp_Socket\<close> (\<^verbatim>\<open>nw/udp.rs\<close>): socket state, rebinding, lock, wakers, poll loops. The
    locale \<open>udp_over_os\<close> is the socket over a system whose calls do not panic (\<open>os_no_panic\<close>) and
    complete the sends; it is a sublocale of \<open>udp_env\<close>, so the clients' lemmas hold over the socket,
    and is interpreted on the example system (\<open>udp_clients\<close>). The port never changes, polls
    return and neither panic nor block, a broken socket recovers; a self-deadlock and a rebind that is
    never retried are exhibited.
  \<^item> \<open>Nat_Pmp\<close>, \<open>Pcp\<close>, \<open>Upnp\<close> (\<^verbatim>\<open>pm/nat_pmp.rs\<close>, \<^verbatim>\<open>pm/pcp.rs\<close>,
    \<^verbatim>\<open>pm/upnp.rs\<close>): attempts, releases and probes; when they succeed, what they then hold, and
    that they cannot panic beyond the decoder's panic.
  \<^item> \<open>Port_Metrics\<close>, \<open>Port_Mapping\<close> (\<^verbatim>\<open>pm/metrics.rs\<close>, \<^verbatim>\<open>pm/mapping.rs\<close>): the counters and
    the sum of the three kinds of mapping.
  \<^item> \<open>Current_Mapping\<close> (\<^verbatim>\<open>pm/current_mapping.rs\<close>): the held mapping with its renewal and expiry
    timers. The locale \<open>mapping_slot\<close> is the contract of a slot that publishes what it holds; the
    theory interprets it on the model (\<open>cm\<close>).
  \<^item> \<open>Probe\<close>, \<open>Service\<close>, \<open>Port_Client\<close> (\<^verbatim>\<open>pm/lib.rs\<close>): probing, the service as
    functions per event and as the relation \<open>service_run\<close> of its runs with the history of the
    attempts that succeeded, and the whole of client, channel and service as \<open>sys_step\<close>, with the
    abort of the service when the last client is dropped. The invariants (\<open>service_inv\<close>,
    \<open>held_inv\<close> over the history, \<open>request_inv\<close>) are shown by rule induction.
  \<^item> \<open>Interfaces\<close>, \<open>Netdev\<close> (\<^verbatim>\<open>nw/interfaces.rs\<close>, \<^verbatim>\<open>nw/interfaces/netdev_impl.rs\<close>):
    interfaces, the state of the machine, what a major change is, and how the state is assembled.
  \<^item> \<open>Linux_Routes\<close> (\<^verbatim>\<open>nw/interfaces/linux.rs\<close>): the default route from
    \<^verbatim>\<open>/proc/net/route\<close>, netlink, or Android's \<^verbatim>\<open>ip\<close>.
  \<^item> \<open>Netmon_Actor\<close> (\<^verbatim>\<open>nw/netmon.rs\<close>, \<^verbatim>\<open>nw/netmon/actor.rs\<close>): the monitor; its runs are the
    relation \<open>mon_run\<close> over labelled traces.
  \<^item> \<open>Netmon_Linux\<close> (\<^verbatim>\<open>nw/netmon/linux.rs\<close>): the netlink groups, which messages are forwarded,
    and the reconnection backoff.
  \<^item> \<open>Bsd_Sockaddr\<close>, \<open>Bsd_Route\<close>, \<open>Bsd_Stacks\<close> (\<^verbatim>\<open>nw/interfaces/bsd.rs\<close> and
    \<^verbatim>\<open>nw/interfaces/bsd/*\<close>): the parsers of socket addresses, the routing messages with the loop
    over a routing table and the default route, and the formats of FreeBSD, NetBSD, OpenBSD and macOS.
    The parsers are proved once, in the locales \<open>rib_platform\<close> (alignment and address sizes),
    \<open>rib_announce\<close> (announcements long enough for a name) and \<open>route_platform\<close> (the offsets of
    a route message), which the platforms then interpret (\<open>freebsd\<close>, \<open>openbsd\<close>,
    \<open>netbsd_routes\<close>). Parsing never panics except for short announcements on OpenBSD; it is the
    message-by-message parse; a default route in the kernel's dump is found.
  \<^item> \<open>Netmon_Bsd\<close> (\<^verbatim>\<open>nw/netmon/bsd.rs\<close>): which routing messages are changes, draining the routing
    socket with a growing buffer, recreating it with a backoff.
  \<^item> \<open>Netmon_System\<close>: the route monitors of Linux and the BSDs together with the actor, as the relation
    \<open>source_run\<close> of all interleavings. The locale \<open>change_source\<close> is their interface; it is
    interpreted for both (\<open>linux_source\<close>, \<open>bsd_source\<close>). A monitor whose parser panics is dead;
    while it lives, every change it read reaches the published state, and on Linux, where it cannot
    panic, the two cannot block each other.
  \<^item> \<open>Netmon_Windows\<close> (\<^verbatim>\<open>nw/netmon/windows.rs\<close>): registering callbacks with the system and owning
    their closures; the handler refines the system's table of registrations.
  \<^item> \<open>Net_Platforms\<close>: the default route on Windows, the minimal systems, Android's monitor, the
    browser.

  \<^bold>\<open>Correspondence.\<close> A struct is a record, an enum a datatype, each function or handler one
  definition with the branches of the code; integers are words of their width; a
  \<^verbatim>\<open>Result\<close> that may panic is \<open>res\<close>. Asynchronous code is cut at its await points: a select
  loop is one function per branch, and a relation lets the environment choose the next branch.
  Instants and durations are nanosecond counts. What lies outside the repository is an argument:
  the operating system's sockets (\<open>udp_os\<close>; \<open>os_no_panic\<close> says their calls return), the UPnP gateway (\<open>igd_env\<close>), the enumeration
  of interfaces, netlink replies, files and commands, the routing tables of the BSD kernels (\<open>sysctl\<close>) and the
  constants of \<^verbatim>\<open>libc\<close> (\<open>libc_ok\<close> says the address families differ, \<open>families_ok\<close> that they are
  octets and the unspecified one is zero), the notification calls of
  Windows (\<open>win_api\<close>, with their documented contract \<open>win_api_ok\<close>), the iteration order of a hash
  map (\<open>order_ok\<close>), random nonces, and the \<^verbatim>\<open>Watchable\<close> cell of the monitor, whose documented
  contract is the hypothesis \<open>watchable_ok\<close>.

  \<^bold>\<open>Fuel.\<close> Only the poll loops of \<open>Udp_Socket\<close> take fuel, because a system that reports transient
  errors forever keeps them running. \<open>poll_loop_returns\<close> shows that a budget above the number of
  transient errors before the first conclusive answer always gives a result that is neither a panic nor
  a wait for the own lock. The loops of the route
  monitors, which run as long as the process, consume the list of answers the system gives; the
  loops over routing tables and over \<^verbatim>\<open>sysctl\<close> retries are total functions with a measure.

  \<^bold>\<open>Not modelled.\<close> Formatting, logging, and the random generators of the tests; module declarations and
  build scripts. Contents of UDP transmits beyond the bytes (segmentation, ECN) belong to the
  \<^verbatim>\<open>noq_udp\<close> crate and are opaque. Memory ordering of atomics: an access is one step.

  \<^bold>\<open>Plan.\<close> Next: fairness of the service loop (every held mapping is renewed in time when the loop is
  polled), and the Windows monitor in the interleaving with the actor.
\<close>

section \<open>Properties that span components\<close>

text \<open>C29: the NAT-PMP client over the UDP socket never panics. When the calls of the operating system
  return results or errors, in whatever order, and the lock of the socket is not poisoned, and when
  sends complete (one that does not keeps the client waiting), then whatever the network and the
  gateway answer, and whatever rebinds happen in between, a mapping attempt, a release and a probe
  return a result or an error.\<close>

theorem nat_pmp_over_socket_no_Panic:
  assumes "os_no_panic os" and "sends_complete os fuel"
  shows "fst (pmp_mapping_new (udp_net_env os fuel) protocol local_ip local_port gateway external_port log) \<noteq> Panic
   \<and> fst (pmp_mapping_release (udp_net_env os fuel) m log) \<noteq> Panic
   \<and> fst (pmp_probe_available (udp_net_env os fuel) local_ip gateway log) \<noteq> Panic"
proof -
  have "udp_env (udp_net_env os fuel)" by (intro udp_over_os.clients_env udp_over_os.intro assms)
  then show ?thesis
    using udp_env.pmp_mapping_new_no_Panic udp_env.pmp_mapping_release_no_Panic
      udp_env.pmp_probe_available_no_Panic by blast
qed

theorem nat_pmp_over_socket_no_Panic_witness:
  "fst (pmp_probe_available (udp_net_env sample_os 1) (Ipv4 10 0 0 2) (Ipv4 10 0 0 1) []) \<noteq> Panic"
  using nat_pmp_over_socket_no_Panic [OF sample_os_no_panic sample_sends_complete] by blast

end
